(* ===== verification/Prelude.thy ===== *)
theory Prelude
  imports Main "HOL-Library.Word" "HOL-Library.Sublist" "HOL-Library.Multiset"
begin

text \<open>
  Shared vocabulary of the development: the Go types the program uses (64-bit integers, byte
  strings, errors, panics), the parts of the packages \<^verbatim>\<open>errors\<close> and \<^verbatim>\<open>strings\<close> it calls, and
  the generic lemmas and fact collections the component theories rely on.

  A Go \<^verbatim>\<open>string\<close> and a \<^verbatim>\<open>[]byte\<close> are both sequences of bytes, here \<^typ>\<open>string\<close> (lists of 8-bit
  characters). A Go \<^verbatim>\<open>error\<close> result is \<open>goerr option\<close>, with \<^term>\<open>None\<close> for \<^verbatim>\<open>nil\<close>; a
  \<open>(T, error)\<close> result is \<open>goerr + 'a\<close>. A run-time panic is a value of \<open>'a outcome\<close>.
\<close>

named_theorems iface_simps \<open>selectors of the interface records applied to their implementations\<close>
named_theorems handler_simps \<open>definitions unfolded when a request handler is executed symbolically\<close>

type_synonym int64 = "64 word"
type_synonym bytes = string

subsection \<open>Errors\<close>

text \<open>
  Errors are structured values: \<open>fmt.Errorf\<close> keeps its format string and arguments (so that no
  rendering of \<^verbatim>\<open>%q\<close> or \<^verbatim>\<open>%d\<close> is needed), and the variant with \<^verbatim>\<open>%w\<close> keeps the wrapped error, which
  is what \<^verbatim>\<open>errors.Is\<close> and \<^verbatim>\<open>errors.As\<close> walk through. \<open>LibError\<close> stands for an error that a
  library or the operating system returned and that the program only passes on.
\<close>

datatype fmt_arg = FStr string | FInt int

datatype grpc_code =
    OK | Canceled | Unknown | InvalidArgument | DeadlineExceeded | NotFound | AlreadyExists
  | PermissionDenied | ResourceExhausted | FailedPrecondition | Aborted | OutOfRange
  | Unimplemented | Internal | Unavailable | DataLoss | Unauthenticated

datatype goerr =
    ErrorNew string
  | Errorf string "fmt_arg list"
  | ErrorfW string "fmt_arg list" goerr
  | ErrorJoin "goerr list"
  | ErrMetricNotFound
  | ErrContextCanceled
  | ErrContextDeadlineExceeded
  | ErrNoRows
  | ErrNotExist
  | ErrServerStopped
  | PgError string
  | StatusError grpc_code string
  | UnexpectedStatus int
  | NetError string
  | LibError string

text \<open>\<^verbatim>\<open>errors.Is(err, target)\<close>: the target or an error in the tree below that equals it.\<close>

fun errors_Is :: "goerr \<Rightarrow> goerr \<Rightarrow> bool" where
  "errors_Is (ErrorfW f args e) t \<longleftrightarrow> ErrorfW f args e = t \<or> errors_Is e t"
| "errors_Is (ErrorJoin es) t \<longleftrightarrow> ErrorJoin es = t \<or> (\<exists>e \<in> set es. errors_Is e t)"
| "errors_Is e t \<longleftrightarrow> e = t"

text \<open>\<^verbatim>\<open>errors.As\<close> for a target described by a partial selector: the first match, depth first.\<close>

fun errors_As :: "(goerr \<Rightarrow> 'a option) \<Rightarrow> goerr \<Rightarrow> 'a option" where
  "errors_As sel (ErrorfW f args e) =
     (case sel (ErrorfW f args e) of Some x \<Rightarrow> Some x | None \<Rightarrow> errors_As sel e)"
| "errors_As sel (ErrorJoin es) =
     (case sel (ErrorJoin es) of Some x \<Rightarrow> Some x
      | None \<Rightarrow> (case dropWhile Option.is_none (map (errors_As sel) es) of
                   [] \<Rightarrow> None | r # _ \<Rightarrow> r))"
| "errors_As sel e = sel e"

text \<open>\<^verbatim>\<open>errors.Join\<close>: nil errors are dropped, and joining nothing is nil.\<close>

definition errors_Join :: "goerr option list \<Rightarrow> goerr option" where
  "errors_Join es =
     (let xs = List.map_filter id es in if xs = [] then None else Some (ErrorJoin xs))"

lemma errors_Is_refl [simp]: "errors_Is e e"
  by (cases e) auto

lemma errors_Join_None [simp]:
  "errors_Join es = None \<longleftrightarrow> (\<forall>e \<in> set es. e = None)"
  by (induction es) (auto simp: errors_Join_def Let_def List.map_filter_def)

subsection \<open>Panics\<close>

datatype 'a outcome = Return 'a | Panic string

fun returns :: "'a outcome \<Rightarrow> bool" where
  "returns (Return _) \<longleftrightarrow> True"
| "returns (Panic _) \<longleftrightarrow> False"

lemma returns_iff: "returns r \<longleftrightarrow> (\<exists>x. r = Return x)"
  by (cases r) auto

subsection \<open>Package strings\<close>

abbreviation char_code :: "char \<Rightarrow> nat" where
  "char_code c \<equiv> of_char c"

definition ascii_lower :: "char \<Rightarrow> char" where
  "ascii_lower c =
     (if 65 \<le> char_code c \<and> char_code c \<le> 90 then char_of (char_code c + 32) else c)"

text \<open>
  \<^verbatim>\<open>strings.ToLower\<close> on UTF-8 text. Only ASCII letters and the two other code points whose lower
  case is an ASCII letter matter to the program, which tests the result against ASCII constants:
  U+0130 (bytes C4 B0) becomes \<open>i\<close> and U+212A (bytes E2 84 AA) becomes \<open>k\<close>. Every other non-ASCII
  rune has a non-ASCII lower case and is left as it is.
\<close>

fun strings_ToLower :: "string \<Rightarrow> string" where
  "strings_ToLower [] = []"
| "strings_ToLower (c # cs) =
     (if char_code c = 196 \<and> cs \<noteq> [] \<and> char_code (hd cs) = 176
      then CHR ''i'' # strings_ToLower (tl cs)
      else if char_code c = 226 \<and> 2 \<le> length cs \<and> char_code (cs ! 0) = 132 \<and> char_code (cs ! 1) = 170
      then CHR ''k'' # strings_ToLower (drop 2 cs)
      else ascii_lower c # strings_ToLower cs)"

text \<open>
  The case folding of \<^verbatim>\<open>strings.EqualFold\<close>, again for comparison with an ASCII constant: the code
  points outside ASCII that fold to an ASCII letter are U+017F (bytes C5 BF, to \<open>s\<close>) and U+212A.
\<close>

fun fold_case :: "string \<Rightarrow> string" where
  "fold_case [] = []"
| "fold_case (c # cs) =
     (if char_code c = 197 \<and> cs \<noteq> [] \<and> char_code (hd cs) = 191
      then CHR ''s'' # fold_case (tl cs)
      else if char_code c = 226 \<and> 2 \<le> length cs \<and> char_code (cs ! 0) = 132 \<and> char_code (cs ! 1) = 170
      then CHR ''k'' # fold_case (drop 2 cs)
      else ascii_lower c # fold_case cs)"

definition strings_EqualFold :: "string \<Rightarrow> string \<Rightarrow> bool" where
  "strings_EqualFold s t \<longleftrightarrow> fold_case s = fold_case t"

abbreviation strings_HasPrefix :: "string \<Rightarrow> string \<Rightarrow> bool" where
  "strings_HasPrefix s p \<equiv> prefix p s"

fun strings_Contains :: "string \<Rightarrow> string \<Rightarrow> bool" where
  "strings_Contains [] t \<longleftrightarrow> t = []"
| "strings_Contains (c # cs) t \<longleftrightarrow> prefix t (c # cs) \<or> strings_Contains cs t"

subsection \<open>Maps and their iteration order\<close>

text \<open>
  A Go map is a partial function. A \<^verbatim>\<open>range\<close> loop over a map visits every entry once in an order
  chosen by the run-time system: the loop takes the list of entries it visits, and
  \<open>enumerates kvs m\<close> says that this list is one of the possible orders.
\<close>

definition enumerates :: "('k \<times> 'v) list \<Rightarrow> ('k \<rightharpoonup> 'v) \<Rightarrow> bool" where
  "enumerates kvs m \<longleftrightarrow> distinct (map fst kvs) \<and> map_of kvs = m"

lemma enumerates_mem: "enumerates kvs m \<Longrightarrow> (k, v) \<in> set kvs \<longleftrightarrow> m k = Some v"
  by (auto simp: enumerates_def)

lemma enumerates_dom: "enumerates kvs m \<Longrightarrow> fst ` set kvs = dom m"
  by (simp add: enumerates_def) (metis dom_map_of_conv_image_fst)

lemma enumerates_finite: "enumerates kvs m \<Longrightarrow> finite (dom m)"
  by (auto simp: enumerates_def finite_dom_map_of)

lemma enumerates_ex:
  assumes fin: "finite (dom m)"
  shows "\<exists>kvs. enumerates kvs m"
proof -
  from finite_distinct_list [OF fin] obtain ks where ks: "set ks = dom m" "distinct ks"
    by (elim exE conjE)
  have "map_of (map (\<lambda>k. (k, the (m k))) ks) = m"
    using ks by (auto simp: fun_eq_iff map_of_map_restrict restrict_map_def domIff)
  with ks have "enumerates (map (\<lambda>k. (k, the (m k))) ks) m"
    by (simp add: enumerates_def comp_def)
  then show ?thesis ..
qed

text \<open>Writing the visited entries one by one into a map.\<close>

lemma fold_upd_map_of:
  "distinct (map fst kvs) \<Longrightarrow>
     fold (\<lambda>(k, v) m. m(k \<mapsto> v)) kvs m0 = m0 ++ map_of kvs"
proof (induction kvs arbitrary: m0)
  case Nil
  then show ?case by simp
next
  case (Cons kv kvs)
  obtain k v where kv: "kv = (k, v)" by force
  with Cons.prems have "k \<notin> dom (map_of kvs)" by (auto simp: dom_map_of_conv_image_fst)
  then have "m0(k \<mapsto> v) ++ map_of kvs = m0 ++ (map_of kvs)(k \<mapsto> v)"
    by (auto simp: fun_eq_iff map_add_def split: option.splits)
  with Cons kv show ?case by (simp del: fun_upd_apply add: fun_upd_def [symmetric])
qed

subsection \<open>Integers\<close>

text \<open>Addition of 64-bit counters is a commutative monoid, so the order of increments is irrelevant.\<close>

lemma sum_list_perm_word:
  "mset xs = mset ys \<Longrightarrow> sum_list xs = (sum_list ys :: 'a :: len word)"
  by (metis sum_mset_sum_list)

end
