(* ===== verification/Strconv.thy ===== *)
theory Strconv
  imports Prelude
begin

text \<open>
  The integer half of package \<^verbatim>\<open>strconv\<close>, as the program uses it: \<^verbatim>\<open>ParseInt(s, 10, 64)\<close> and
  \<^verbatim>\<open>Atoi\<close> (identical on a 64-bit platform), \<^verbatim>\<open>FormatInt(v, 10)\<close> and \<^verbatim>\<open>ParseBool\<close>. The main fact is
  that parsing a formatted number gives the number back.
\<close>

datatype strconv_error = ErrSyntax | ErrRange

definition is_digit :: "char \<Rightarrow> bool" where
  "is_digit c \<longleftrightarrow> 48 \<le> char_code c \<and> char_code c \<le> 57"

definition digit_value :: "char \<Rightarrow> nat" where
  "digit_value c = char_code c - 48"

definition digit_char :: "nat \<Rightarrow> char" where
  "digit_char d = char_of (48 + d)"

subsection \<open>Formatting\<close>

fun format_nat :: "nat \<Rightarrow> string" where
  "format_nat n =
     (if n < 10 then [digit_char n] else format_nat (n div 10) @ [digit_char (n mod 10)])"

declare format_nat.simps [simp del]

definition format_int :: "int \<Rightarrow> string" where
  "format_int i = (if i < 0 then CHR ''-'' # format_nat (nat (- i)) else format_nat (nat i))"

definition FormatInt :: "int64 \<Rightarrow> string" where
  "FormatInt v = format_int (sint v)"

subsection \<open>Parsing\<close>

text \<open>
  The digit loop of \<^verbatim>\<open>ParseUint(s, 10, 64)\<close>: it stops at the first byte that is not a digit and at
  the first digit that takes the number past \<^verbatim>\<open>math.MaxUint64\<close>, whichever comes first.
\<close>

fun ParseUint_loop :: "nat \<Rightarrow> string \<Rightarrow> strconv_error + nat" where
  "ParseUint_loop n [] = Inr n"
| "ParseUint_loop n (c # cs) =
     (if \<not> is_digit c then Inl ErrSyntax
      else if 2 ^ 64 \<le> 10 * n + digit_value c then Inl ErrRange
      else ParseUint_loop (10 * n + digit_value c) cs)"

definition ParseUint :: "string \<Rightarrow> strconv_error + nat" where
  "ParseUint s = (if s = [] then Inl ErrSyntax else ParseUint_loop 0 s)"

text \<open>Splitting off an optional sign, as \<^verbatim>\<open>ParseInt\<close> does before it reads the digits.\<close>

fun split_sign :: "string \<Rightarrow> bool \<times> string" where
  "split_sign [] = (False, [])"
| "split_sign (c # cs) =
     (if c = CHR ''+'' then (False, cs) else if c = CHR ''-'' then (True, cs) else (False, c # cs))"

definition ParseInt :: "string \<Rightarrow> strconv_error + int64" where
  "ParseInt s =
     (case split_sign s of (neg, ds) \<Rightarrow>
        (case ParseUint ds of
           Inl e \<Rightarrow> Inl e
         | Inr un \<Rightarrow>
             if \<not> neg \<and> 2 ^ 63 \<le> un then Inl ErrRange
             else if neg \<and> 2 ^ 63 < un then Inl ErrRange
             else Inr (if neg then word_of_int (- int un) else word_of_int (int un))))"

abbreviation Atoi :: "string \<Rightarrow> strconv_error + int64" where
  "Atoi \<equiv> ParseInt"

definition ParseBool :: "string \<Rightarrow> strconv_error + bool" where
  "ParseBool s =
     (if s \<in> {''1'', ''t'', ''T'', ''true'', ''TRUE'', ''True''} then Inr True
      else if s \<in> {''0'', ''f'', ''F'', ''false'', ''FALSE'', ''False''} then Inr False
      else Inl ErrSyntax)"

subsection \<open>Digits\<close>

lemma char_code_digit_char: "d < 10 \<Longrightarrow> char_code (digit_char d) = 48 + d"
  by (simp add: digit_char_def)

lemma digit_char [simp]:
  assumes "d < 10"
  shows "is_digit (digit_char d)" and "digit_value (digit_char d) = d"
  using assms by (simp_all add: is_digit_def digit_value_def char_code_digit_char)

lemma is_digit_not_sign: "is_digit c \<Longrightarrow> c \<noteq> CHR ''+'' \<and> c \<noteq> CHR ''-''"
  by (auto simp: is_digit_def)

lemma format_nat_digits: "list_all is_digit (format_nat n)"
proof (induction n rule: format_nat.induct)
  case (1 n)
  then show ?case
    by (cases "n < 10") (simp_all add: format_nat.simps [of n])
qed

lemma format_nat_nonempty [simp]: "format_nat n \<noteq> []"
  by (subst format_nat.simps) simp

lemma split_sign_digits:
  "list_all is_digit s \<Longrightarrow> split_sign s = (False, s)"
  by (cases s) (auto dest: is_digit_not_sign)

subsection \<open>Round trip\<close>

definition digits_value :: "string \<Rightarrow> nat" where
  "digits_value s = foldl (\<lambda>n c. 10 * n + digit_value c) 0 s"

lemma digits_value_append:
  "digits_value (s @ [c]) = 10 * digits_value s + digit_value c"
  by (simp add: digits_value_def)

lemma digits_value_format_nat [simp]: "digits_value (format_nat n) = n"
proof (induction n rule: format_nat.induct)
  case (1 n)
  show ?case
  proof (cases "n < 10")
    case True
    then show ?thesis by (simp add: format_nat.simps [of n] digits_value_def)
  next
    case False
    with 1 show ?thesis
      by (simp add: format_nat.simps [of n] digits_value_append)
  qed
qed

lemma foldl_digits_mono: "n \<le> foldl (\<lambda>n c. 10 * n + digit_value c) n s"
proof (induction s arbitrary: n)
  case Nil
  then show ?case by simp
next
  case (Cons c s)
  from Cons [of "10 * n + digit_value c"] show ?case by simp
qed

lemma ParseUint_loop_digits:
  assumes "list_all is_digit s" and "foldl (\<lambda>n c. 10 * n + digit_value c) n s < 2 ^ 64"
  shows "ParseUint_loop n s = Inr (foldl (\<lambda>n c. 10 * n + digit_value c) n s)"
  using assms
proof (induction s arbitrary: n)
  case Nil
  then show ?case by simp
next
  case (Cons c s)
  have "10 * n + digit_value c < 2 ^ 64"
    using foldl_digits_mono [of "10 * n + digit_value c" s] Cons.prems(2) by simp
  with Cons show ?case by simp
qed

lemma ParseUint_format_nat: "n < 2 ^ 64 \<Longrightarrow> ParseUint (format_nat n) = Inr n"
  using ParseUint_loop_digits [of "format_nat n" 0] format_nat_digits [of n] digits_value_format_nat [of n]
  by (simp add: ParseUint_def digits_value_def)

lemma sint_int64_bounds: "- (2 ^ 63) \<le> sint (v :: int64)" "sint (v :: int64) < 2 ^ 63"
  using sint_range_size [of v] by (simp_all add: word_size)

lemma ParseInt_format_int:
  assumes "- (2 ^ 63) \<le> i" and "i < 2 ^ 63"
  shows "ParseInt (format_int i) = Inr (word_of_int i)"
proof (cases "i < 0")
  case True
  then obtain n where i: "i = - int n" by (metis nat_0_le neg_0_le_iff_le minus_minus less_le)
  with assms have n: "n \<le> 2 ^ 63" by simp
  then have "ParseUint (format_nat n) = Inr n" by (intro ParseUint_format_nat) simp
  with n True show ?thesis by (simp add: ParseInt_def format_int_def i)
next
  case False
  then obtain n where i: "i = int n" by (metis nat_0_le not_le)
  with assms have n: "n < 2 ^ 63" by simp
  then have "ParseUint (format_nat n) = Inr n" by (intro ParseUint_format_nat) simp
  with n False show ?thesis
    by (simp add: ParseInt_def format_int_def i split_sign_digits [OF format_nat_digits])
qed

lemma ParseInt_FormatInt [simp]: "ParseInt (FormatInt v) = Inr v"
  using ParseInt_format_int [of "sint v"] sint_int64_bounds [of v]
  by (simp add: FormatInt_def)

lemma ParseInt_empty [simp]: "ParseInt [] = Inl ErrSyntax"
  by (simp add: ParseInt_def ParseUint_def)

end
