(* ===== verification/Float64.thy ===== *)
theory Float64
  imports Strconv Complex_Main
begin

text \<open>
  IEEE 754 binary64 values as their 64-bit patterns, and the conversions of package \<^verbatim>\<open>strconv\<close> the
  program uses on them: \<^verbatim>\<open>ParseFloat(s, 64)\<close> (decimal and hexadecimal literals, underscores,
  \<open>inf\<close>/\<open>nan\<close>, correctly rounded to nearest even), \<^verbatim>\<open>FormatFloat(v, 'f', -1, 64)\<close> and the number
  format of \<^verbatim>\<open>encoding/json\<close> (shortest digits that read back as the same value), and the
  conversion of an unsigned integer to \<^verbatim>\<open>float64\<close>.

  The magnitude of a value is its pattern without the sign bit; finite magnitudes are below
  \<open>inf_mag\<close>, and magnitude \<open>m\<close> stands for \<open>mant m * 2 powi qexp m\<close>. The main facts are that
  rounding the exact value of a finite magnitude gives that magnitude back, and that every finite
  value survives a format/parse round trip.
\<close>

datatype float64 = Float64 (bits64: "64 word")

abbreviation inf_mag :: nat where
  "inf_mag \<equiv> 2047 * 2 ^ 52"

definition f_sign :: "float64 \<Rightarrow> bool" where
  "f_sign x \<longleftrightarrow> 2 ^ 63 \<le> unat (bits64 x)"

definition f_mag :: "float64 \<Rightarrow> nat" where
  "f_mag x = unat (bits64 x) mod 2 ^ 63"

definition mk_float :: "bool \<Rightarrow> nat \<Rightarrow> float64" where
  "mk_float s m = Float64 (word_of_nat ((if s then 2 ^ 63 else 0) + m))"

definition is_NaN :: "float64 \<Rightarrow> bool" where
  "is_NaN x \<longleftrightarrow> inf_mag < f_mag x"

definition is_Inf :: "float64 \<Rightarrow> bool" where
  "is_Inf x \<longleftrightarrow> f_mag x = inf_mag"

definition is_finite :: "float64 \<Rightarrow> bool" where
  "is_finite x \<longleftrightarrow> f_mag x < inf_mag"

definition float_NaN :: float64 where
  "float_NaN = Float64 0x7FF8000000000001"

definition float_Inf :: "bool \<Rightarrow> float64" where
  "float_Inf s = mk_float s inf_mag"

text \<open>The exact value of a finite magnitude.\<close>

definition eblk :: "nat \<Rightarrow> nat" where
  "eblk m = max (m div 2 ^ 52) 1"

definition mant :: "nat \<Rightarrow> nat" where
  "mant m = m - (eblk m - 1) * 2 ^ 52"

definition qexp :: "nat \<Rightarrow> int" where
  "qexp m = int (eblk m) - 1075"

definition mag_ratio :: "nat \<Rightarrow> nat \<times> nat" where
  "mag_ratio m =
     (if 0 \<le> qexp m then (mant m * 2 ^ nat (qexp m), 1) else (mant m, 2 ^ nat (- qexp m)))"

subsection \<open>Rounding a positive rational to a magnitude\<close>

fun ilog2 :: "nat \<Rightarrow> nat" where
  "ilog2 n = (if n < 2 then 0 else Suc (ilog2 (n div 2)))"

declare ilog2.simps [simp del]

definition ge_pow2 :: "nat \<Rightarrow> nat \<Rightarrow> int \<Rightarrow> bool" where
  "ge_pow2 n d k \<longleftrightarrow> (if 0 \<le> k then d * 2 ^ nat k \<le> n else d \<le> n * 2 ^ nat (- k))"

definition flog2 :: "nat \<Rightarrow> nat \<Rightarrow> int" where
  "flog2 n d =
     (let k = int (ilog2 n) - int (ilog2 d) in if ge_pow2 n d k then k else k - 1)"

text \<open>Division rounded to the nearest integer, ties to even.\<close>

definition rne :: "nat \<Rightarrow> nat \<Rightarrow> nat" where
  "rne n d =
     (let q = n div d; r = n mod d
      in if 2 * r < d \<or> (2 * r = d \<and> even q) then q else q + 1)"

definition round_mag :: "nat \<Rightarrow> nat \<Rightarrow> nat" where
  "round_mag n d =
     (if n = 0 then 0
      else
        let e = max (flog2 n d) (- 1022); sh = 52 - e;
            m = (if 0 \<le> sh then rne (n * 2 ^ nat sh) d else rne n (d * 2 ^ nat (- sh)))
        in nat (e + 1022) * 2 ^ 52 + m)"

text \<open>The conversion \<^verbatim>\<open>float64(u)\<close> of an unsigned integer.\<close>

definition float64_of_nat :: "nat \<Rightarrow> float64" where
  "float64_of_nat n = mk_float False (round_mag n 1)"

subsection \<open>ParseFloat\<close>

definition hex_value :: "char \<Rightarrow> nat option" where
  "hex_value c =
     (let l = ascii_lower c
      in if is_digit c then Some (digit_value c)
         else if 97 \<le> char_code l \<and> char_code l \<le> 102 then Some (char_code l - 87)
         else None)"

text \<open>
  The mantissa loop of \<^verbatim>\<open>readFloat\<close>: the digits read so far as an integer, how many of them followed
  the point, whether a point and whether a digit was seen; it returns these and the rest.
\<close>

fun read_mantissa ::
  "bool \<Rightarrow> nat \<Rightarrow> nat \<Rightarrow> bool \<Rightarrow> bool \<Rightarrow> string \<Rightarrow> nat \<times> nat \<times> bool \<times> string" where
  "read_mantissa hex D fr sawdot sawdigits [] = (D, fr, sawdigits, [])"
| "read_mantissa hex D fr sawdot sawdigits (c # cs) =
     (if c = CHR ''_'' then read_mantissa hex D fr sawdot sawdigits cs
      else if c = CHR ''.'' then
        (if sawdot then (D, fr, sawdigits, c # cs) else read_mantissa hex D fr True sawdigits cs)
      else
        (case (if hex then hex_value c else if is_digit c then Some (digit_value c) else None) of
           None \<Rightarrow> (D, fr, sawdigits, c # cs)
         | Some d \<Rightarrow>
             read_mantissa hex ((if hex then 16 else 10) * D + d)
               (if sawdot then fr + 1 else fr) sawdot True cs))"

text \<open>The exponent digits, with the source's cap that keeps the exponent from overflowing.\<close>

fun read_exp :: "nat \<Rightarrow> string \<Rightarrow> nat \<times> string" where
  "read_exp e [] = (e, [])"
| "read_exp e (c # cs) =
     (if c = CHR ''_'' then read_exp e cs
      else if is_digit c then read_exp (if e < 10000 then e * 10 + digit_value c else e) cs
      else (e, c # cs))"

text \<open>\<^verbatim>\<open>underscoreOK\<close>: underscores only between digits or after a base prefix.\<close>

datatype saw_class = SawStart | SawDigit | SawUnderscore | SawOther

fun underscore_loop :: "bool \<Rightarrow> saw_class \<Rightarrow> string \<Rightarrow> bool" where
  "underscore_loop hex saw [] \<longleftrightarrow> saw \<noteq> SawUnderscore"
| "underscore_loop hex saw (c # cs) \<longleftrightarrow>
     (if is_digit c \<or> (hex \<and> hex_value c \<noteq> None) then underscore_loop hex SawDigit cs
      else if c = CHR ''_'' then saw = SawDigit \<and> underscore_loop hex SawUnderscore cs
      else saw \<noteq> SawUnderscore \<and> underscore_loop hex SawOther cs)"

definition has_base_prefix :: "char set \<Rightarrow> string \<Rightarrow> bool" where
  "has_base_prefix ls s \<longleftrightarrow>
     2 \<le> length s \<and> s ! 0 = CHR ''0'' \<and> ascii_lower (s ! 1) \<in> ls"

definition underscoreOK :: "string \<Rightarrow> bool" where
  "underscoreOK s =
     (let t = snd (split_sign s)
      in if has_base_prefix {CHR ''b'', CHR ''o'', CHR ''x''} t
         then underscore_loop (ascii_lower (t ! 1) = CHR ''x'') SawDigit (drop 2 t)
         else underscore_loop False SawStart t)"

text \<open>The special spellings of infinity and not-a-number, on the whole string.\<close>

definition special_float :: "string \<Rightarrow> float64 option" where
  "special_float s =
     (case split_sign s of (neg, t) \<Rightarrow>
        if map ascii_lower t \<in> {''inf'', ''infinity''} then Some (float_Inf neg)
        else if map ascii_lower s = ''nan'' then Some float_NaN
        else None)"

text \<open>
  \<^verbatim>\<open>readFloat\<close> on the whole string: the sign and the value \<open>n / d\<close> of the literal, or nothing when
  the string is not a literal.
\<close>

definition scale10 :: "nat \<Rightarrow> int \<Rightarrow> nat \<times> nat" where
  "scale10 D e = (if 0 \<le> e then (D * 10 ^ nat e, 1) else (D, 10 ^ nat (- e)))"

definition scale2 :: "nat \<Rightarrow> int \<Rightarrow> nat \<times> nat" where
  "scale2 D e = (if 0 \<le> e then (D * 2 ^ nat e, 1) else (D, 2 ^ nat (- e)))"

definition read_exponent :: "char \<Rightarrow> string \<Rightarrow> int option" where
  "read_exponent expChar s =
     (case s of
        c # cs \<Rightarrow>
          if ascii_lower c = expChar then
            (case split_sign cs of (neg, ds) \<Rightarrow>
               if ds = [] \<or> \<not> is_digit (hd ds) then None
               else (case read_exp 0 ds of (e, rest) \<Rightarrow>
                       if rest = [] then Some (if neg then - int e else int e) else None))
          else None
      | [] \<Rightarrow> None)"

definition readFloat :: "string \<Rightarrow> (bool \<times> nat \<times> nat) option" where
  "readFloat s =
     (case split_sign s of (neg, t) \<Rightarrow>
        let hex = 2 < length t \<and> has_base_prefix {CHR ''x''} t;
            u = (if hex then drop 2 t else t)
        in (case read_mantissa hex 0 0 False False u of (D, fr, sawdigits, rest) \<Rightarrow>
              if \<not> sawdigits \<or> (CHR ''_'' \<in> set s \<and> \<not> underscoreOK s) then None
              else if hex then
                (case read_exponent (CHR ''p'') rest of
                   None \<Rightarrow> None
                 | Some e \<Rightarrow> Some (neg, scale2 D (e - 4 * int fr)))
              else if rest = [] then Some (neg, scale10 D (- int fr))
              else
                (case read_exponent (CHR ''e'') rest of
                   None \<Rightarrow> None
                 | Some e \<Rightarrow> Some (neg, scale10 D (e - int fr)))))"

definition ParseFloat :: "string \<Rightarrow> strconv_error + float64" where
  "ParseFloat s =
     (case special_float s of
        Some x \<Rightarrow> Inr x
      | None \<Rightarrow>
          (case readFloat s of
             None \<Rightarrow> Inl ErrSyntax
           | Some (neg, n, d) \<Rightarrow>
               let m = round_mag n d
               in if inf_mag \<le> m then Inl ErrRange else Inr (mk_float neg m)))"

subsection \<open>Shortest decimal digits\<close>

text \<open>
  The candidates with \<open>10 powi k\<close> as the unit of the last digit are the two neighbours of the value;
  the first \<open>k\<close>, counted down, where one of them reads back as the value gives the shortest digits,
  and where both do the nearer one (the even one on a tie) is taken.
\<close>

definition dec_reads :: "nat \<Rightarrow> nat \<Rightarrow> int \<Rightarrow> bool" where
  "dec_reads m D k \<longleftrightarrow> (case scale10 D k of (n, d) \<Rightarrow> round_mag n d = m)"

definition dec_quotient :: "nat \<Rightarrow> nat \<Rightarrow> int \<Rightarrow> nat \<times> nat" where
  "dec_quotient n d k = (if 0 \<le> k then (n, d * 10 ^ nat k) else (n * 10 ^ nat (- k), d))"

definition pick_digits :: "nat \<Rightarrow> int \<Rightarrow> (nat \<times> int) option" where
  "pick_digits m k =
     (case mag_ratio m of (n, d) \<Rightarrow>
        case dec_quotient n d k of (a, b) \<Rightarrow>
          let lo = a div b
          in if lo = 0 then None
             else if dec_reads m lo k \<and> dec_reads m (lo + 1) k then Some (rne a b, k)
             else if dec_reads m lo k then Some (lo, k)
             else if dec_reads m (lo + 1) k then Some (lo + 1, k)
             else None)"

fun search_digits :: "nat \<Rightarrow> int \<Rightarrow> nat \<Rightarrow> (nat \<times> int) option" where
  "search_digits m k 0 = None"
| "search_digits m k (Suc f) =
     (case pick_digits m k of Some r \<Rightarrow> Some r | None \<Rightarrow> search_digits m (k - 1) f)"

fun strip_zeros :: "nat \<Rightarrow> int \<Rightarrow> nat \<times> int" where
  "strip_zeros D k =
     (if D \<noteq> 0 \<and> D mod 10 = 0 then strip_zeros (D div 10) (k + 1) else (D, k))"

declare strip_zeros.simps [simp del]

definition shortest_digits :: "nat \<Rightarrow> nat \<times> int" where
  "shortest_digits m =
     (case search_digits m 309 1400 of
        Some (D, k) \<Rightarrow> strip_zeros D k
      | None \<Rightarrow> (0, 0))"

subsection \<open>FormatFloat\<close>

definition fixed_format :: "nat \<Rightarrow> int \<Rightarrow> string" where
  "fixed_format D k =
     (let ds = format_nat D; l = length ds
      in if 0 \<le> k then (if D = 0 then ''0'' else ds @ replicate (nat k) (CHR ''0''))
         else if nat (- k) < l then take (l - nat (- k)) ds @ ''.'' @ drop (l - nat (- k)) ds
         else ''0.'' @ replicate (nat (- k) - l) (CHR ''0'') @ ds)"

definition exp_format :: "nat \<Rightarrow> int \<Rightarrow> string" where
  "exp_format D k =
     (let ds = format_nat D; x = k + int (length ds) - 1
      in hd ds # (if tl ds = [] then [] else CHR ''.'' # tl ds) @
         (if x < 0 then ''e-'' else ''e+'') @
         (if 0 \<le> x \<and> x < 10 then ''0'' else '''') @ format_nat (nat \<bar>x\<bar>))"

definition sign_prefix :: "float64 \<Rightarrow> string" where
  "sign_prefix x = (if f_sign x then ''-'' else '''')"

definition FormatFloat :: "float64 \<Rightarrow> string" where
  "FormatFloat x =
     (if is_NaN x then ''NaN''
      else if is_Inf x then (if f_sign x then ''-Inf'' else ''+Inf'')
      else case shortest_digits (f_mag x) of (D, k) \<Rightarrow> sign_prefix x @ fixed_format D k)"

text \<open>
  The number encoder of \<^verbatim>\<open>encoding/json\<close>: the fixed format, except that magnitudes below 1e-6 or
  from 1e21 on use the exponent format, with a one-digit negative exponent left unpadded; NaN and
  the infinities are not encodable.
\<close>

definition json_float :: "float64 \<Rightarrow> string option" where
  "json_float x =
     (if \<not> is_finite x then None
      else
        let m = f_mag x
        in case shortest_digits m of (D, k) \<Rightarrow>
             Some (sign_prefix x @
               (if m \<noteq> 0 \<and> (m < round_mag 1 (10 ^ 6) \<or> round_mag (10 ^ 21) 1 \<le> m)
                then exp_format D k else fixed_format D k)))"

subsection \<open>Bit patterns\<close>

lemma unat_bits64_bound: "unat (bits64 x) < 2 ^ 64"
  using unsigned_less [of "bits64 x"] by simp

lemma f_mag_bound: "f_mag x < 2 ^ 63"
  by (simp add: f_mag_def)

lemma mk_float_sign_mag [simp]: "mk_float (f_sign x) (f_mag x) = x"
proof -
  have "(if 2 ^ 63 \<le> u then 2 ^ 63 else 0) + u mod 2 ^ 63 = u"
    if "u < 2 ^ 64" for u :: nat
    using that by (auto simp: mod_if)
  from this [OF unat_bits64_bound, of x] show ?thesis
    by (cases x) (simp add: mk_float_def f_sign_def f_mag_def)
qed

lemma mk_float_parts [simp]:
  assumes "m < 2 ^ 63"
  shows "f_mag (mk_float s m) = m" and "f_sign (mk_float s m) = s"
proof -
  have "unat (word_of_nat ((if s then 2 ^ 63 else 0) + m) :: 64 word) = (if s then 2 ^ 63 else 0) + m"
    using assms by (simp only: unat_of_nat) simp
  with assms show "f_mag (mk_float s m) = m" and "f_sign (mk_float s m) = s"
    by (auto simp: f_mag_def f_sign_def mk_float_def)
qed

lemma is_finite_mk_float: "m < inf_mag \<Longrightarrow> is_finite (mk_float s m)"
  by (simp add: is_finite_def)

lemma float_classes:
  "is_finite x \<longleftrightarrow> \<not> is_NaN x \<and> \<not> is_Inf x"
  by (auto simp: is_finite_def is_NaN_def is_Inf_def)

lemma float_NaN_Inf [simp]:
  "is_NaN float_NaN" "\<not> is_finite float_NaN" "is_Inf (float_Inf s)" "\<not> is_finite (float_Inf s)"
  by (simp_all add: is_NaN_def is_finite_def is_Inf_def float_NaN_def float_Inf_def f_mag_def
      mk_float_def unat_of_nat)

subsection \<open>Rounding\<close>

lemma ilog2_bounds: "0 < n \<Longrightarrow> 2 ^ ilog2 n \<le> n \<and> n < 2 ^ Suc (ilog2 n)"
proof (induction n rule: ilog2.induct)
  case (1 n)
  show ?case
  proof (cases "n < 2")
    case True
    with 1 show ?thesis by (simp add: ilog2.simps [of n])
  next
    case False
    with 1 have "2 ^ ilog2 (n div 2) \<le> n div 2 \<and> n div 2 < 2 ^ Suc (ilog2 (n div 2))" by simp
    with False show ?thesis by (simp add: ilog2.simps [of n]) linarith
  qed
qed

lemma ge_pow2_iff:
  assumes "0 < d"
  shows "ge_pow2 n d k \<longleftrightarrow> 2 powi k \<le> real n / real d"
proof (cases "0 \<le> k")
  case True
  then have "ge_pow2 n d k \<longleftrightarrow> real (d * 2 ^ nat k) \<le> real n"
    by (simp add: ge_pow2_def del: of_nat_mult of_nat_power)
  also have "\<dots> \<longleftrightarrow> 2 powi k \<le> real n / real d"
    using assms True by (simp add: power_int_def field_simps)
  finally show ?thesis .
next
  case False
  then have "ge_pow2 n d k \<longleftrightarrow> real d \<le> real (n * 2 ^ nat (- k))"
    by (simp add: ge_pow2_def del: of_nat_mult of_nat_power)
  also have "\<dots> \<longleftrightarrow> 2 powi k \<le> real n / real d"
    using assms False by (simp add: power_int_def field_simps)
  finally show ?thesis .
qed

lemma powi_lt_imp_lt: "(2::real) powi a < 2 powi b \<Longrightarrow> a < b"
  by (metis not_le power_int_increasing one_le_numeral)

lemma flog2_range:
  assumes "0 < n" and "0 < d"
  shows "2 powi flog2 n d \<le> real n / real d" and "real n / real d < 2 powi (flog2 n d + 1)"
proof -
  define a b where "a = ilog2 n" and "b = ilog2 d"
  define k where "k = int a - int b"
  have n: "2 ^ a \<le> real n" "real n < 2 ^ Suc a"
    using ilog2_bounds [OF assms(1)] unfolding a_def
    by (metis numeral_power_le_of_nat_cancel_iff, metis of_nat_less_numeral_power_cancel_iff)
  have d: "2 ^ b \<le> real d" "real d < 2 ^ Suc b"
    using ilog2_bounds [OF assms(2)] unfolding b_def
    by (metis numeral_power_le_of_nat_cancel_iff, metis of_nat_less_numeral_power_cancel_iff)
  have lo: "2 powi (k - 1) \<le> real n / real d"
  proof -
    have "2 powi (k - 1) = (2 ^ a / 2 ^ Suc b :: real)"
      by (simp add: k_def power_int_diff)
    also have "\<dots> \<le> real n / real d"
      using n d assms by (intro frac_le) auto
    finally show ?thesis .
  qed
  have hi: "real n / real d < 2 powi (k + 1)"
  proof -
    have "real n / real d < (2 ^ Suc a / 2 ^ b :: real)"
      using n d assms by (intro frac_less) auto
    also have "\<dots> = 2 powi (k + 1)"
      by (simp add: k_def power_int_add power_int_diff)
    finally show ?thesis .
  qed
  have eq: "flog2 n d = (if 2 powi k \<le> real n / real d then k else k - 1)"
    using assms(2) by (simp add: flog2_def Let_def ge_pow2_iff k_def a_def b_def)
  show "2 powi flog2 n d \<le> real n / real d" using lo eq by auto
  show "real n / real d < 2 powi (flog2 n d + 1)" using hi eq by auto
qed

lemma flog2_unique:
  assumes "0 < n" and "0 < d"
    and "2 powi k \<le> real n / real d" and "real n / real d < 2 powi (k + 1)"
  shows "flog2 n d = k"
proof -
  have "(2::real) powi k < 2 powi (flog2 n d + 1)" and "(2::real) powi flog2 n d < 2 powi (k + 1)"
    using flog2_range [OF assms(1,2)] assms(3,4) by linarith+
  then show ?thesis by (auto dest!: powi_lt_imp_lt)
qed

lemma rne_exact [simp]: "0 < d \<Longrightarrow> rne (m * d) d = m"
  by (simp add: rne_def)

lemma rne_scale: "0 < c \<Longrightarrow> rne (c * n) (c * d) = rne n d"
proof -
  assume c: "0 < c"
  have "2 * (c * n mod (c * d)) = c * (2 * (n mod d))" by (simp add: mod_mult_mult1)
  with c show ?thesis by (simp add: rne_def Let_def)
qed

lemma rne_neighbour: "rne n d = n div d \<or> rne n d = n div d + 1"
  by (simp add: rne_def Let_def)

lemma round_mag_scale:
  assumes "0 < c" and "0 < d"
  shows "round_mag (c * n) (c * d) = round_mag n d"
proof (cases "n = 0")
  case True
  then show ?thesis by (simp add: round_mag_def)
next
  case False
  with assms have "real (c * n) / real (c * d) = real n / real d" by simp
  then have fl: "flog2 (c * n) (c * d) = flog2 n d"
    using assms False flog2_range [of n d] by (intro flog2_unique) auto
  have "rne (c * n * p) (c * d) = rne (n * p) d" for p
    using rne_scale [OF assms(1), of "n * p" d] by (simp add: mult.assoc)
  moreover have "rne (c * n) (c * d * p) = rne n (d * p)" for p
    using rne_scale [OF assms(1), of n "d * p"] by (simp add: mult.assoc)
  ultimately show ?thesis
    using assms False by (simp add: round_mag_def Let_def fl)
qed

lemma round_mag_cong:
  assumes "0 < d" and "0 < d'" and "n * d' = n' * d"
  shows "round_mag n d = round_mag n' d'"
proof -
  have "round_mag n d = round_mag (d' * n) (d' * d)"
    using assms by (simp add: round_mag_scale)
  also have "d' * n = d * n'" using assms(3) by (simp add: mult.commute)
  also have "round_mag (d * n') (d' * d) = round_mag n' d'"
    using assms round_mag_scale [of d d' n'] by (simp add: mult.commute)
  finally show ?thesis .
qed

text \<open>The three parts of a finite magnitude.\<close>

lemma eblk_props: "1 \<le> eblk m" "(eblk m - 1) * 2 ^ 52 \<le> m"
  by (auto simp: eblk_def max_def)

lemma mag_split: "m = (eblk m - 1) * 2 ^ 52 + mant m"
  using eblk_props(2) [of m] by (simp add: mant_def)

lemma mant_bounds:
  "mant m < 2 ^ 53" "eblk m \<noteq> 1 \<Longrightarrow> 2 ^ 52 \<le> mant m" "m \<noteq> 0 \<Longrightarrow> mant m \<noteq> 0"
  by (auto simp: mant_def eblk_def max_def split: if_splits)

lemma mag_ratio_value:
  assumes "mag_ratio m = (n, d)"
  shows "0 < d" and "real n / real d = real (mant m) * 2 powi qexp m"
  using assms by (auto simp: mag_ratio_def power_int_def field_simps split: if_splits)

lemma mag_value_upper:
  assumes "v = real (mant m) * 2 powi qexp m"
  shows "v < 2 powi (int (eblk m) - 1022)"
proof -
  have "real (mant m) * 2 powi qexp m < 2 ^ 53 * 2 powi qexp m"
    using mant_bounds(1) [of m] by (intro mult_strict_right_mono) auto
  also have "\<dots> = 2 powi (int (eblk m) - 1022)"
    by (simp add: qexp_def power_int_diff power_int_add)
  finally show ?thesis using assms by simp
qed

lemma mag_value_lower:
  assumes "v = real (mant m) * 2 powi qexp m" and "eblk m \<noteq> 1"
  shows "2 powi (int (eblk m) - 1023) \<le> v"
proof -
  have "2 powi (int (eblk m) - 1023) = 2 ^ 52 * (2::real) powi qexp m"
    by (simp add: qexp_def power_int_diff power_int_add)
  also have "\<dots> \<le> real (mant m) * 2 powi qexp m"
    using mant_bounds(2) [OF assms(2)] by (intro mult_right_mono) auto
  finally show ?thesis using assms(1) by simp
qed

text \<open>The exponent that rounding chooses is that of the magnitude, and at that exponent the quotient is exact.\<close>

lemma round_exponent:
  assumes "0 < n" and "0 < d" and v: "real n / real d = real (mant m) * 2 powi qexp m"
  shows "max (flog2 n d) (- 1022) = int (eblk m) - 1023"
proof (cases "eblk m = 1")
  case True
  have "(2::real) powi flog2 n d < 2 powi (int (eblk m) - 1022)"
    using flog2_range(1) [OF assms(1,2)] mag_value_upper [OF v] by linarith
  then have "flog2 n d < int (eblk m) - 1022" by (rule powi_lt_imp_lt)
  with True show ?thesis by simp
next
  case False
  have "flog2 n d = int (eblk m) - 1023"
    using flog2_unique [OF assms(1,2)] mag_value_lower [OF v False] mag_value_upper [OF v] by simp
  with eblk_props(1) [of m] show ?thesis by simp
qed

lemma round_significand:
  assumes "0 < d" and v: "real n / real d = real k * 2 powi - p"
  shows "(if 0 \<le> p then rne (n * 2 ^ nat p) d else rne n (d * 2 ^ nat (- p))) = k"
proof (cases "0 \<le> p")
  case True
  then have "real (n * 2 ^ nat p) = real (k * d)"
    using v assms(1) by (simp add: power_int_def field_simps split: if_splits)
  then have "n * 2 ^ nat p = k * d" by (simp only: of_nat_eq_iff)
  with True assms(1) show ?thesis by simp
next
  case False
  then have "real n = real (k * (d * 2 ^ nat (- p)))"
    using v assms(1) by (simp add: power_int_def field_simps)
  then have "n = k * (d * 2 ^ nat (- p))" by (simp only: of_nat_eq_iff)
  with False assms(1) show ?thesis by simp
qed

lemma round_mag_value:
  assumes m: "m \<noteq> 0" and d: "0 < d"
    and v: "real n / real d = real (mant m) * 2 powi qexp m"
  shows "round_mag n d = m"
proof -
  have n: "0 < n"
  proof (rule ccontr)
    assume "\<not> 0 < n"
    with v mant_bounds(3) [OF m] show False by simp
  qed
  define e where "e = int (eblk m) - 1023"
  have "max (flog2 n d) (- 1022) = e" using round_exponent [OF n d v] by (simp add: e_def)
  moreover have "(if 0 \<le> 52 - e then rne (n * 2 ^ nat (52 - e)) d else rne n (d * 2 ^ nat (- (52 - e)))) = mant m"
    using v by (intro round_significand [OF d]) (simp add: e_def qexp_def)
  moreover have "nat (e + 1022) = eblk m - 1" using eblk_props(1) [of m] by (simp add: e_def)
  ultimately show ?thesis
    using n mag_split [of m] by (simp add: round_mag_def Let_def)
qed

lemma round_mag_mag_ratio:
  assumes "mag_ratio m = (n, d)"
  shows "round_mag n d = m"
proof (cases "m = 0")
  case True
  with assms show ?thesis
    by (simp add: mag_ratio_def mant_def eblk_def qexp_def round_mag_def split: if_splits)
next
  case False
  then show ?thesis using mag_ratio_value [OF assms] by (intro round_mag_value) auto
qed

subsection \<open>The digit search always succeeds\<close>

lemma pick_digits_reads:
  "pick_digits m k = Some (D, k') \<Longrightarrow> k' = k \<and> D \<noteq> 0 \<and> dec_reads m D k"
  by (auto simp: pick_digits_def Let_def split: prod.splits if_splits)
     (metis Suc_eq_plus1 nat.simps(3) not_gr_zero rne_neighbour)+

lemma search_digits_reads:
  "search_digits m k f = Some (D, k') \<Longrightarrow> D \<noteq> 0 \<and> dec_reads m D k' \<and> k - int f < k' \<and> k' \<le> k"
  by (induction f arbitrary: k) (fastforce split: option.splits dest: pick_digits_reads)+

lemma search_digits_finds:
  "pick_digits m (k - int j) \<noteq> None \<Longrightarrow> j < f \<Longrightarrow> search_digits m k f \<noteq> None"
proof (induction f arbitrary: k j)
  case 0
  then show ?case by simp
next
  case (Suc f)
  show ?case
  proof (cases "j = 0 \<or> pick_digits m k \<noteq> None")
    case True
    with Suc.prems show ?thesis by (auto split: option.splits)
  next
    case False
    then obtain i where "j = Suc i" by (cases j) auto
    with Suc.prems False Suc.IH [of "k - 1" i] show ?thesis
      by (auto simp: algebra_simps split: option.splits)
  qed
qed

lemma pick_digits_exact:
  assumes "m \<noteq> 0"
  shows "pick_digits m (min (qexp m) 0) \<noteq> None"
proof (cases "0 \<le> qexp m")
  case True
  define n where "n = mant m * 2 ^ nat (qexp m)"
  have r: "mag_ratio m = (n, 1)" using True by (simp add: mag_ratio_def n_def)
  have "n \<noteq> 0" using mant_bounds(3) [OF assms] by (simp add: n_def)
  moreover have "dec_reads m n 0"
    using round_mag_mag_ratio [OF r] by (simp add: dec_reads_def scale10_def)
  ultimately show ?thesis
    using True r by (simp add: pick_digits_def dec_quotient_def min_def Let_def)
next
  case False
  define j where "j = nat (- qexp m)"
  have q: "qexp m = - int j" using False by (simp add: j_def)
  have r: "mag_ratio m = (mant m, 2 ^ j)" using False by (simp add: mag_ratio_def j_def)
  have ten: "(10::nat) ^ j = 5 ^ j * 2 ^ j" by (simp flip: power_mult_distrib)
  have lo: "mant m * 10 ^ j div 2 ^ j = mant m * 5 ^ j" by (simp add: ten)
  have "round_mag (mant m * 5 ^ j) (10 ^ j) = round_mag (mant m) (2 ^ j)"
    by (rule round_mag_cong) (simp_all add: ten)
  then have "dec_reads m (mant m * 5 ^ j) (qexp m)"
    using round_mag_mag_ratio [OF r] False by (simp add: dec_reads_def scale10_def q)
  then show ?thesis
    using False r lo mant_bounds(3) [OF assms]
    by (simp add: pick_digits_def dec_quotient_def min_def q Let_def)
qed

lemma qexp_lower: "- 1074 \<le> qexp m"
  using eblk_props(1) [of m] by (simp add: qexp_def)

lemma search_digits_total:
  assumes "m \<noteq> 0"
  obtains D k where "search_digits m 309 1400 = Some (D, k)"
proof -
  define j where "j = nat (309 - min (qexp m) 0)"
  have "309 - int j = min (qexp m) 0" and "j < 1400"
    using qexp_lower [of m] by (auto simp: j_def)
  then have "search_digits m 309 1400 \<noteq> None"
    using pick_digits_exact [OF assms] search_digits_finds [of m 309 j 1400] by simp
  then show ?thesis using that by (cases "search_digits m 309 1400") auto
qed

lemma dec_reads_strip:
  assumes "D mod 10 = 0"
  shows "dec_reads m (D div 10) (k + 1) \<longleftrightarrow> dec_reads m D k"
proof -
  obtain E where E: "D = 10 * E" using assms by (auto simp: mod_eq_0_iff_dvd)
  consider (pos) "0 \<le> k" | (m1) "k = - 1" | (neg) "k < - 1" by linarith
  then show ?thesis
  proof cases
    case pos
    then have "nat (k + 1) = Suc (nat k)" by simp
    with pos show ?thesis by (simp add: dec_reads_def scale10_def E mult.assoc mult.commute)
  next
    case m1
    have "round_mag (10 * E) 10 = round_mag E 1" by (rule round_mag_cong) simp_all
    with m1 show ?thesis by (simp add: dec_reads_def scale10_def E)
  next
    case neg
    then have "nat (- k) = Suc (nat (- (k + 1)))" by simp
    moreover have "round_mag (10 * E) (10 * 10 ^ j) = round_mag E (10 ^ j)" for j
      by (rule round_mag_cong) simp_all
    ultimately show ?thesis using neg by (simp add: dec_reads_def scale10_def E)
  qed
qed

lemma strip_zeros_reads:
  "strip_zeros D k = (E, j) \<Longrightarrow> D \<noteq> 0 \<Longrightarrow> dec_reads m D k \<Longrightarrow> dec_reads m E j \<and> E \<noteq> 0 \<and> k \<le> j"
proof (induction D k rule: strip_zeros.induct)
  case (1 D k)
  show ?case
  proof (cases "D \<noteq> 0 \<and> D mod 10 = 0")
    case True
    then have "D div 10 \<noteq> 0" by auto
    with 1 True show ?thesis
      using dec_reads_strip [of D m k] by (simp add: strip_zeros.simps [of D k])
  next
    case False
    with 1 show ?thesis by (auto simp: strip_zeros.simps [of D k])
  qed
qed

lemma search_digits_zero: "search_digits 0 k f = None"
proof -
  have "pick_digits 0 k = None" for k
    by (simp add: pick_digits_def mag_ratio_def mant_def eblk_def qexp_def dec_quotient_def)
  then show ?thesis by (induction f arbitrary: k) auto
qed

lemma shortest_digits_reads:
  assumes "shortest_digits m = (D, k)"
  shows "dec_reads m D k \<and> (m \<noteq> 0 \<longrightarrow> D \<noteq> 0 \<and> - 1100 < k) \<and> (m = 0 \<longrightarrow> D = 0 \<and> k = 0)"
proof (cases "m = 0")
  case True
  with assms show ?thesis
    by (simp add: shortest_digits_def search_digits_zero dec_reads_def scale10_def round_mag_def)
next
  case False
  obtain E j where E: "search_digits m 309 1400 = Some (E, j)"
    using search_digits_total [OF False] .
  from search_digits_reads [OF E] have "E \<noteq> 0" "dec_reads m E j" "- 1091 < j" by auto
  moreover have "strip_zeros E j = (D, k)" using assms E by (simp add: shortest_digits_def)
  ultimately show ?thesis using False strip_zeros_reads by fastforce
qed

subsection \<open>Reading formatted numbers back\<close>

lemma is_digit_chars:
  assumes "is_digit c"
  shows "c \<noteq> CHR ''_''" "c \<noteq> CHR ''.''" "c \<noteq> CHR ''-''" "c \<noteq> CHR ''+''" "ascii_lower c = c"
    "c \<noteq> CHR ''x''" "c \<noteq> CHR ''e''" "c \<noteq> CHR ''i''" "c \<noteq> CHR ''n''"
  using assms by (auto simp: is_digit_def ascii_lower_def)

lemma read_mantissa_digits:
  "list_all is_digit ds \<Longrightarrow>
   read_mantissa False D fr sd sg (ds @ r) =
     read_mantissa False (foldl (\<lambda>n c. 10 * n + digit_value c) D ds)
       (if sd then fr + length ds else fr) sd (sg \<or> ds \<noteq> []) r"
  by (induction ds arbitrary: D fr sg) (auto simp: is_digit_chars)

lemma foldl_digits_shift:
  "foldl (\<lambda>n c. 10 * n + digit_value c) a ds = a * 10 ^ length ds + digits_value ds"
proof (induction ds rule: rev_induct)
  case Nil
  then show ?case by (simp add: digits_value_def)
next
  case (snoc c ds)
  then show ?case by (simp add: digits_value_append algebra_simps)
qed

lemma digits_value_append2:
  "digits_value (xs @ ys) = digits_value xs * 10 ^ length ys + digits_value ys"
  by (metis digits_value_def foldl_append foldl_digits_shift)

lemma digits_value_zeros [simp]: "digits_value (replicate n (CHR ''0'')) = 0"
  by (induction n) (simp_all add: digits_value_def digit_value_def)

lemma list_all_zeros [simp]: "list_all is_digit (replicate n (CHR ''0''))"
  by (simp add: list_all_iff is_digit_def)

text \<open>
  A body made of digits with at most one point, followed by an optional exponent, is read as the
  number it spells: neither the special names nor the hexadecimal prefix apply to it.
\<close>

definition plain_body :: "string \<Rightarrow> bool" where
  "plain_body t \<longleftrightarrow> t \<noteq> [] \<and> is_digit (hd t) \<and>
     (\<forall>c \<in> set t. is_digit c \<or> c \<in> {CHR ''.'', CHR ''e'', CHR ''+'', CHR ''-''})"

lemma plain_body_facts:
  assumes "plain_body t"
  shows "split_sign t = (False, t)" and "CHR ''_'' \<notin> set t"
    and "\<not> has_base_prefix {CHR ''x''} t" and "special_float t = None"
    and "special_float (CHR ''-'' # t) = None"
proof -
  from assms obtain c u where t: "t = c # u" and c: "is_digit c"
    by (cases t) (auto simp: plain_body_def)
  show "split_sign t = (False, t)" using is_digit_chars [OF c] by (simp add: t)
  show "CHR ''_'' \<notin> set t" using assms by (auto simp: plain_body_def is_digit_def)
  have "ascii_lower (t ! 1) \<noteq> CHR ''x''" if "2 \<le> length t"
  proof -
    have "t ! 1 \<in> set t" using that by simp
    with assms have "is_digit (t ! 1) \<or> t ! 1 \<in> {CHR ''.'', CHR ''e'', CHR ''+'', CHR ''-''}"
      unfolding plain_body_def by blast
    then show ?thesis by (auto simp: is_digit_def ascii_lower_def)
  qed
  then show "\<not> has_base_prefix {CHR ''x''} t" by (auto simp: has_base_prefix_def)
  show "special_float t = None" and "special_float (CHR ''-'' # t) = None"
    using is_digit_chars [OF c] by (auto simp: special_float_def t ascii_lower_def)
qed

lemma ParseFloat_plain:
  assumes body: "plain_body t" and read: "readFloat t = Some (False, n, d)"
    and m: "round_mag n d < inf_mag"
  shows "ParseFloat (sign_prefix x @ t) = Inr (mk_float (f_sign x) (round_mag n d))"
proof (cases "f_sign x")
  case False
  with m read plain_body_facts [OF body] show ?thesis
    by (simp add: ParseFloat_def sign_prefix_def Let_def)
next
  case True
  have "readFloat (CHR ''-'' # t) = Some (True, n, d)"
    using read plain_body_facts [OF body]
    by (auto simp: readFloat_def Let_def split: prod.splits if_splits option.splits)
  with m True plain_body_facts [OF body] show ?thesis
    by (simp add: ParseFloat_def sign_prefix_def Let_def)
qed

lemma plain_body_digits:
  "list_all is_digit ds \<Longrightarrow> ds \<noteq> [] \<Longrightarrow> set r \<subseteq> set ''.e+-'' \<union> {c. is_digit c} \<Longrightarrow> plain_body (ds @ r)"
  by (cases ds) (auto simp: plain_body_def list_all_iff)

lemma readFloat_int:
  assumes "list_all is_digit ds" and "ds \<noteq> []"
  shows "plain_body ds" and "readFloat ds = Some (False, scale10 (digits_value ds) 0)"
proof -
  show b: "plain_body ds" using plain_body_digits [OF assms, of "[]"] by simp
  show "readFloat ds = Some (False, scale10 (digits_value ds) 0)"
    using plain_body_facts [OF b] assms read_mantissa_digits [OF assms(1), of 0 0 False False "[]"]
    by (simp add: readFloat_def digits_value_def)
qed

lemma readFloat_point:
  assumes "list_all is_digit xs" and "xs \<noteq> []" and "list_all is_digit ys"
  shows "plain_body (xs @ ''.'' @ ys)"
    and "readFloat (xs @ ''.'' @ ys) =
           Some (False, scale10 (digits_value (xs @ ys)) (- int (length ys)))"
proof -
  show b: "plain_body (xs @ ''.'' @ ys)"
    using assms by (intro plain_body_digits) (auto simp: list_all_iff)
  have "read_mantissa False 0 0 False False (xs @ CHR ''.'' # ys) =
      (digits_value (xs @ ys), length ys, True, [])"
    using assms read_mantissa_digits [OF assms(1), of 0 0 False False "CHR ''.'' # ys"]
      read_mantissa_digits [OF assms(3), of "digits_value xs" 0 True True "[]"]
    by (simp add: digits_value_def)
  then show "readFloat (xs @ ''.'' @ ys) =
      Some (False, scale10 (digits_value (xs @ ys)) (- int (length ys)))"
    using plain_body_facts [OF b] by (simp add: readFloat_def)
qed

lemma readFloat_fixed_format:
  assumes "D \<noteq> 0 \<or> k = 0"
  shows "plain_body (fixed_format D k) \<and> readFloat (fixed_format D k) = Some (False, scale10 D k)"
proof -
  define ds where "ds = format_nat D"
  have ds: "list_all is_digit ds" "ds \<noteq> []" "digits_value ds = D"
    using format_nat_digits by (simp_all add: ds_def)
  consider (int) "0 \<le> k" | (point) "k < 0" "nat (- k) < length ds"
    | (small) "k < 0" "length ds \<le> nat (- k)" by linarith
  then show ?thesis
  proof cases
    case int
    define zs where "zs = (if D = 0 then ''0'' else ds @ replicate (nat k) (CHR ''0''))"
    have "list_all is_digit zs" "zs \<noteq> []" "digits_value zs = D * 10 ^ nat k"
      using ds assms by (auto simp: zs_def digits_value_append2 is_digit_def)
         (auto simp: digits_value_def digit_value_def)
    moreover have "fixed_format D k = zs" using int by (simp add: fixed_format_def zs_def ds_def)
    ultimately show ?thesis using readFloat_int [of zs] int by (simp add: scale10_def)
  next
    case point
    define l where "l = length ds - nat (- k)"
    have "list_all is_digit (take l ds)" "list_all is_digit (drop l ds)"
      using ds(1) by (auto simp: list_all_iff dest: in_set_takeD in_set_dropD)
    moreover have "take l ds \<noteq> []" "length (drop l ds) = nat (- k)" using point by (auto simp: l_def)
    moreover have "fixed_format D k = take l ds @ ''.'' @ drop l ds"
      using point by (simp add: fixed_format_def l_def ds_def Let_def)
    ultimately show ?thesis
      using readFloat_point [of "take l ds" "drop l ds"] ds(3) point by simp
  next
    case small
    define zs where "zs = replicate (nat (- k) - length ds) (CHR ''0'') @ ds"
    have z: "list_all is_digit zs" "digits_value (CHR ''0'' # zs) = D" "length zs = nat (- k)"
      using ds small digits_value_append2 [of "''0''" zs]
      by (auto simp: zs_def digits_value_append2) (simp add: digits_value_def digit_value_def)
    have "fixed_format D k = ''0'' @ ''.'' @ zs"
      using small by (simp add: fixed_format_def zs_def ds_def Let_def)
    then show ?thesis
      using readFloat_point [of "''0''" zs] z small by (simp add: is_digit_def)
  qed
qed

lemma f_mag_finite: "is_finite x \<Longrightarrow> f_mag x < inf_mag"
  by (simp add: is_finite_def)

lemma ParseFloat_fixed:
  assumes "is_finite x" and "shortest_digits (f_mag x) = (D, k)"
  shows "ParseFloat (sign_prefix x @ fixed_format D k) = Inr x"
proof -
  from shortest_digits_reads [OF assms(2)]
  have r: "dec_reads (f_mag x) D k" and nz: "D \<noteq> 0 \<or> k = 0" by auto
  obtain n d where nd: "scale10 D k = (n, d)" by force
  with r have "round_mag n d = f_mag x" by (simp add: dec_reads_def)
  then show ?thesis
    using ParseFloat_plain [of "fixed_format D k" n d x] readFloat_fixed_format [OF nz]
      f_mag_finite [OF assms(1)] nd by simp
qed

text \<open>A finite gauge value printed in text form reads back unchanged.\<close>

lemma ParseFloat_FormatFloat: "is_finite x \<Longrightarrow> ParseFloat (FormatFloat x) = Inr x"
  using ParseFloat_fixed [of x] by (auto simp: FormatFloat_def float_classes split: prod.splits)

subsection \<open>The exponent format of JSON numbers\<close>

lemma read_exp_digits:
  "list_all is_digit ds \<Longrightarrow> foldl (\<lambda>n c. 10 * n + digit_value c) e ds < 10000 \<Longrightarrow>
     read_exp e ds = (foldl (\<lambda>n c. 10 * n + digit_value c) e ds, [])"
proof (induction ds arbitrary: e)
  case Nil
  then show ?case by simp
next
  case (Cons c ds)
  have "e < 10000"
    using foldl_digits_mono [of "10 * e + digit_value c" ds] Cons.prems(2) by simp
  with Cons show ?case by (simp add: is_digit_chars mult.commute)
qed

lemma read_exponent_plain:
  assumes "list_all is_digit ds" and "ds \<noteq> []" and "digits_value ds < 10000"
  shows "read_exponent (CHR ''e'') (CHR ''e'' # CHR ''-'' # ds) = Some (- int (digits_value ds))"
    and "read_exponent (CHR ''e'') (CHR ''e'' # CHR ''+'' # ds) = Some (int (digits_value ds))"
proof -
  have "is_digit (hd ds)" using assms(1,2) by (cases ds) auto
  with assms(2) read_exp_digits [of ds 0] assms(1,3)
  show "read_exponent (CHR ''e'') (CHR ''e'' # CHR ''-'' # ds) = Some (- int (digits_value ds))"
    and "read_exponent (CHR ''e'') (CHR ''e'' # CHR ''+'' # ds) = Some (int (digits_value ds))"
    by (simp_all add: read_exponent_def ascii_lower_def digits_value_def)
qed

lemma read_mantissa_stop:
  "read_mantissa False D fr sd sg (CHR ''e'' # r) = (D, fr, sg, CHR ''e'' # r)"
  "read_mantissa False D fr False sg (CHR ''.'' # r) = read_mantissa False D fr True sg r"
  by (simp_all add: is_digit_def)

lemma readFloat_exp:
  assumes xs: "list_all is_digit (d # ys)" and e: "read_exponent (CHR ''e'') (CHR ''e'' # r) = Some x"
    and r: "set r \<subseteq> set ''.e+-'' \<union> {c. is_digit c}"
    and s: "s = d # (if ys = [] then [] else CHR ''.'' # ys) @ CHR ''e'' # r"
  shows "plain_body s" and "readFloat s = Some (False, scale10 (digits_value (d # ys)) (x - int (length ys)))"
proof -
  have "plain_body ([d] @ ((if ys = [] then [] else CHR ''.'' # ys) @ CHR ''e'' # r))"
    using xs r by (intro plain_body_digits) (auto simp: list_all_iff)
  then show b: "plain_body s" by (simp add: s)
  have "read_mantissa False 0 0 False False ([d] @ u) = read_mantissa False (digits_value [d]) 0 False True u" for u
    using xs read_mantissa_digits [of "[d]" 0 0 False False u] by (simp add: digits_value_def)
  moreover have "read_mantissa False (digits_value [d]) 0 True True (ys @ CHR ''e'' # r) =
      (digits_value (d # ys), length ys, True, CHR ''e'' # r)"
    using xs read_mantissa_digits [of ys "digits_value [d]" 0 True True "CHR ''e'' # r"]
    by (simp add: digits_value_def read_mantissa_stop del: read_mantissa.simps(2))
  ultimately have "read_mantissa False 0 0 False False s = (digits_value (d # ys), length ys, True, CHR ''e'' # r)"
    by (simp add: s read_mantissa_stop del: read_mantissa.simps(2))
  with e show "readFloat s = Some (False, scale10 (digits_value (d # ys)) (x - int (length ys)))"
    using plain_body_facts [OF b] by (simp add: readFloat_def Let_def)
qed

lemma digits_value_lower:
  assumes "ds = format_nat D" and "D \<noteq> 0"
  shows "10 ^ (length ds - 1) \<le> D"
  using assms
proof (induction D arbitrary: ds rule: format_nat.induct)
  case (1 n)
  show ?case
  proof (cases "n < 10")
    case True
    with 1 show ?thesis by (simp add: format_nat.simps [of n])
  next
    case False
    then have "n div 10 \<noteq> 0" by simp
    with 1 False have ih: "10 ^ (length (format_nat (n div 10)) - 1) \<le> n div 10" by simp
    obtain l where l: "length (format_nat (n div 10)) = Suc l"
      using format_nat_nonempty [of "n div 10"] by (cases "format_nat (n div 10)") auto
    then have "length ds - 1 = Suc l"
      using False 1(2) by (simp add: format_nat.simps [of n])
    then have "10 ^ (length ds - 1) \<le> 10 * (n div 10)" using ih l by simp
    then show ?thesis by linarith
  qed
qed

lemma round_mag_finite_bound:
  assumes "0 < n" and "0 < d" and "round_mag n d < inf_mag"
  shows "real n / real d < 2 powi 1026"
proof -
  have "nat (max (flog2 n d) (- 1022) + 1022) * 2 ^ 52 \<le> round_mag n d"
    using assms(1) by (simp add: round_mag_def Let_def)
  with assms(3) have "nat (max (flog2 n d) (- 1022) + 1022) < 2047" by simp
  then have "flog2 n d + 1 \<le> 1026" by linarith
  then have "(2::real) powi (flog2 n d + 1) \<le> 2 powi 1026" by (intro power_int_increasing) auto
  then show ?thesis using flog2_range(2) [OF assms(1,2)] by linarith
qed

lemma shortest_exponent_bound:
  assumes "shortest_digits m = (D, k)" and "m \<noteq> 0" and "m < inf_mag"
  shows "k + int (length (format_nat D)) - 1 < 1000"
proof (rule ccontr)
  assume "\<not> ?thesis"
  moreover have "length (format_nat D) \<noteq> 0" by simp
  ultimately have big: "1000 \<le> k + int (length (format_nat D) - 1)" by linarith
  from shortest_digits_reads [OF assms(1)] assms(2)
  have D: "D \<noteq> 0" and r: "dec_reads m D k" by auto
  obtain n d where nd: "scale10 D k = (n, d)" by force
  have dpos: "0 < d" and npos: "0 < n" and val: "real n / real d = real D * 10 powi k"
    using nd D by (auto simp: scale10_def power_int_def field_simps split: if_splits)
  have "(10::real) powi 1000 \<le> 10 powi (k + int (length (format_nat D) - 1))"
    using big by (intro power_int_increasing) auto
  also have "\<dots> = 10 powi k * real (10 ^ (length (format_nat D) - 1))"
    by (simp add: power_int_add)
  also have "\<dots> \<le> 10 powi k * real D"
    using digits_value_lower [OF refl D] by (intro mult_left_mono of_nat_mono) auto
  also have "\<dots> = real n / real d" by (simp add: val)
  also have "\<dots> < 2 powi 1026"
    using round_mag_finite_bound [OF npos dpos] r nd assms(3) by (simp add: dec_reads_def)
  finally have "(10::real) powi 1000 < 2 powi 1026" .
  moreover have "(2::real) powi 1026 \<le> 10 powi 1000"
  proof -
    have "(2::real) ^ 1026 \<le> 2 ^ (3 * 1000)" by (rule power_increasing) auto
    also have "\<dots> = (2 ^ 3) ^ 1000" by (rule power_mult)
    also have "\<dots> \<le> 10 ^ 1000" by (rule power_mono) auto
    finally show ?thesis unfolding power_int_numeral .
  qed
  ultimately show False by (rule leD [THEN notE, rotated])
qed

lemma readFloat_exp_format:
  assumes "shortest_digits m = (D, k)" and "m \<noteq> 0" and "m < inf_mag"
  shows "plain_body (exp_format D k) \<and> readFloat (exp_format D k) = Some (False, scale10 D k)"
proof -
  define ds where "ds = format_nat D"
  obtain c ys where ds: "ds = c # ys" using format_nat_nonempty [of D] by (cases ds) (auto simp: ds_def)
  have dig: "list_all is_digit (c # ys)" "digits_value (c # ys) = D"
    using format_nat_digits [of D] digits_value_format_nat [of D] ds unfolding ds_def by metis+
  define x where "x = k + int (length ds) - 1"
  have x: "- 1100 < x" "x < 1000"
    using shortest_exponent_bound [OF assms] shortest_digits_reads [OF assms(1)] assms(2) ds
    by (auto simp: x_def ds_def)
  define es where "es = (if 0 \<le> x \<and> x < 10 then ''0'' else []) @ format_nat (nat \<bar>x\<bar>)"
  have "digits_value (''0'' @ format_nat (nat \<bar>x\<bar>)) = nat \<bar>x\<bar>"
    using digits_value_append2 [of "''0''" "format_nat (nat \<bar>x\<bar>)"]
    by (simp add: digits_value_def [of "''0''"] digit_value_def)
  then have es: "list_all is_digit es" "es \<noteq> []" "digits_value es = nat \<bar>x\<bar>"
    using format_nat_digits [of "nat \<bar>x\<bar>"] by (auto simp: es_def is_digit_def)
  define r where "r = (if x < 0 then CHR ''-'' else CHR ''+'') # es"
  have "read_exponent (CHR ''e'') (CHR ''e'' # r) = Some x"
    using read_exponent_plain [OF es(1,2)] es(3) x by (auto simp: r_def)
  moreover have "set r \<subseteq> set ''.e+-'' \<union> {c. is_digit c}"
    using es(1) by (auto simp: r_def list_all_iff)
  moreover have "exp_format D k = c # (if ys = [] then [] else CHR ''.'' # ys) @ CHR ''e'' # r"
    using ds by (simp add: exp_format_def Let_def r_def es_def x_def ds_def)
  moreover have "x - int (length ys) = k" by (simp add: x_def ds)
  ultimately show ?thesis using readFloat_exp [OF dig(1), of r x] dig(2) by simp
qed

text \<open>A float that encodes as a JSON number decodes to the same float.\<close>

lemma ParseFloat_json_float:
  assumes "json_float x = Some s"
  shows "ParseFloat s = Inr x"
proof -
  from assms have fin: "is_finite x" by (auto simp: json_float_def split: if_splits)
  obtain D k where dk: "shortest_digits (f_mag x) = (D, k)" by force
  from shortest_digits_reads [OF dk] have r: "dec_reads (f_mag x) D k" by simp
  obtain n d where nd: "scale10 D k = (n, d)" by force
  show ?thesis
  proof (cases "s = sign_prefix x @ fixed_format D k")
    case True
    then show ?thesis using ParseFloat_fixed [OF fin dk] by simp
  next
    case False
    with assms fin dk have s: "s = sign_prefix x @ exp_format D k" and nz: "f_mag x \<noteq> 0"
      by (auto simp: json_float_def Let_def split: if_splits)
    from r nd have "round_mag n d = f_mag x" by (simp add: dec_reads_def)
    then show ?thesis
      using ParseFloat_plain [of "exp_format D k" n d x] f_mag_finite [OF fin] nd s
        readFloat_exp_format [OF dk nz f_mag_finite [OF fin]] by simp
  qed
qed

lemma json_float_None: "json_float x = None \<longleftrightarrow> \<not> is_finite x"
  by (auto simp: json_float_def Let_def split: prod.splits)

end
