(* ===== verification/Json.thy ===== *)
theory Json
  imports Float64
begin

text \<open>
  The part of package \<^verbatim>\<open>encoding/json\<close> the program relies on: documents as a datatype, the compact
  encoder with its string escaping (HTML-safe, invalid UTF-8 replaced by U+FFFD), and the strict
  decoder with its nesting limit. \<open>json_Unmarshal\<close> is \<^verbatim>\<open>json.Unmarshal\<close>, which rejects anything
  but white space after the document; \<open>json_Decode\<close> is \<^verbatim>\<open>json.NewDecoder(r).Decode\<close>, which reads
  the first document and leaves the rest unread. Number literals are kept as text and converted by
  the target type. The main fact is that decoding an encoded document gives it back, with every
  string made valid UTF-8.
\<close>

datatype json =
    JNull
  | JBool bool
  | JNum string
  | JStr string
  | JArr "json list"
  | JObj "(string \<times> json) list"

subsection \<open>UTF-8\<close>

definition in_range :: "nat \<Rightarrow> nat \<Rightarrow> char \<Rightarrow> bool" where
  "in_range lo hi c \<longleftrightarrow> lo \<le> char_code c \<and> char_code c \<le> hi"

abbreviation is_cont :: "char \<Rightarrow> bool" where
  "is_cont \<equiv> in_range 128 191"

text \<open>The byte patterns of two-, three- and four-byte runes, by leading byte and continuation.\<close>

definition rune2 :: "char \<Rightarrow> string \<Rightarrow> bool" where
  "rune2 a t \<longleftrightarrow> in_range 194 223 a \<and> 1 \<le> length t \<and> is_cont (t ! 0)"

definition rune3 :: "char \<Rightarrow> string \<Rightarrow> bool" where
  "rune3 a t \<longleftrightarrow> in_range 224 239 a \<and> 2 \<le> length t \<and> is_cont (t ! 1) \<and>
     in_range (if char_code a = 224 then 160 else 128) (if char_code a = 237 then 159 else 191) (t ! 0)"

definition rune4 :: "char \<Rightarrow> string \<Rightarrow> bool" where
  "rune4 a t \<longleftrightarrow> in_range 240 244 a \<and> 3 \<le> length t \<and> is_cont (t ! 1) \<and> is_cont (t ! 2) \<and>
     in_range (if char_code a = 240 then 144 else 128) (if char_code a = 244 then 143 else 191) (t ! 0)"

text \<open>The number of bytes of the rune at the start, 0 when these bytes are not valid UTF-8.\<close>

fun rune_len :: "string \<Rightarrow> nat" where
  "rune_len [] = 0"
| "rune_len (a # t) =
     (if char_code a < 128 then 1 else if rune2 a t then 2 else if rune3 a t then 3
      else if rune4 a t then 4 else 0)"

lemma rune_len_le: "rune_len s \<le> length s"
  by (cases s) (simp_all add: rune2_def rune3_def rune4_def)

declare rune_len.simps(2) [simp del]

text \<open>U+FFFD, the replacement character.\<close>

definition utf8_error :: string where
  "utf8_error = [CHR 0xEF, CHR 0xBF, CHR 0xBD]"

text \<open>The effect of an encode/decode round trip on a string: bad bytes become U+FFFD.\<close>

fun to_valid_utf8 :: "string \<Rightarrow> string" where
  "to_valid_utf8 [] = []"
| "to_valid_utf8 (c # cs) =
     (case rune_len (c # cs) of
        0 \<Rightarrow> utf8_error @ to_valid_utf8 cs
      | Suc n \<Rightarrow> c # take n cs @ to_valid_utf8 (drop n cs))"

definition utf8_valid :: "string \<Rightarrow> bool" where
  "utf8_valid s \<longleftrightarrow> to_valid_utf8 s = s"

fun encode_rune :: "nat \<Rightarrow> string" where
  "encode_rune r =
     (if r < 128 then [char_of r]
      else if r < 2048 then [char_of (192 + r div 64), char_of (128 + r mod 64)]
      else if r < 65536 then
        [char_of (224 + r div 4096), char_of (128 + r div 64 mod 64), char_of (128 + r mod 64)]
      else
        [char_of (240 + r div 262144), char_of (128 + r div 4096 mod 64),
         char_of (128 + r div 64 mod 64), char_of (128 + r mod 64)])"

subsection \<open>Encoding strings\<close>

definition hex_char :: "nat \<Rightarrow> char" where
  "hex_char d = (if d < 10 then digit_char d else char_of (87 + d))"

definition u_escape :: "nat \<Rightarrow> string" where
  "u_escape r =
     [CHR 0x5C, CHR ''u'', hex_char (r div 4096 mod 16), hex_char (r div 256 mod 16),
      hex_char (r div 16 mod 16), hex_char (r mod 16)]"

text \<open>A byte below 128, escaped where the encoder escapes it.\<close>

definition escape_ascii :: "char \<Rightarrow> string" where
  "escape_ascii c =
     (if c = CHR 0x22 \<or> c = CHR 0x5C then [CHR 0x5C, c]
      else if c = CHR 0x08 then [CHR 0x5C, CHR ''b'']
      else if c = CHR 0x0C then [CHR 0x5C, CHR ''f'']
      else if c = CHR 0x0A then [CHR 0x5C, CHR ''n'']
      else if c = CHR 0x0D then [CHR 0x5C, CHR ''r'']
      else if c = CHR 0x09 then [CHR 0x5C, CHR ''t'']
      else if char_code c < 32 \<or> c \<in> {CHR ''<'', CHR ''>'', CHR ''&''} then u_escape (char_code c)
      else [c])"

text \<open>The line and paragraph separators U+2028 and U+2029, which the encoder also escapes.\<close>

definition is_line_sep :: "string \<Rightarrow> bool" where
  "is_line_sep s \<longleftrightarrow>
     3 \<le> length s \<and> char_code (s ! 0) = 226 \<and> char_code (s ! 1) = 128 \<and>
     (char_code (s ! 2) = 168 \<or> char_code (s ! 2) = 169)"

definition escape_rune :: "string \<Rightarrow> string" where
  "escape_rune p = (if is_line_sep p then u_escape (8064 + char_code (p ! 2)) else p)"

fun escape_string :: "string \<Rightarrow> string" where
  "escape_string [] = []"
| "escape_string (c # cs) =
     (case rune_len (c # cs) of
        0 \<Rightarrow> u_escape 65533 @ escape_string cs
      | Suc n \<Rightarrow>
          (if n = 0 then escape_ascii c else escape_rune (c # take n cs)) @
            escape_string (drop n cs))"

definition quote_string :: "string \<Rightarrow> string" where
  "quote_string s = [CHR 0x22] @ escape_string s @ [CHR 0x22]"

subsection \<open>Encoding documents\<close>

fun join_with :: "char \<Rightarrow> string list \<Rightarrow> string" where
  "join_with sep [] = []"
| "join_with sep [x] = x"
| "join_with sep (x # y # ys) = x @ sep # join_with sep (y # ys)"

fun json_print :: "json \<Rightarrow> string" where
  "json_print JNull = ''null''"
| "json_print (JBool b) = (if b then ''true'' else ''false'')"
| "json_print (JNum s) = s"
| "json_print (JStr s) = quote_string s"
| "json_print (JArr js) = ''['' @ join_with (CHR '','') (map json_print js) @ '']''"
| "json_print (JObj kvs) =
     ''{'' @ join_with (CHR '','')
       (map (\<lambda>kv. quote_string (fst kv) @ '':'' @ json_print (snd kv)) kvs) @ ''}''"

subsection \<open>Decoding strings\<close>

definition hex4 :: "string \<Rightarrow> nat option" where
  "hex4 s =
     (case map hex_value s of
        [Some a, Some b, Some c, Some d] \<Rightarrow> Some (a * 4096 + b * 256 + c * 16 + d)
      | _ \<Rightarrow> None)"

definition is_surrogate :: "nat \<Rightarrow> bool" where
  "is_surrogate r \<longleftrightarrow> 55296 \<le> r \<and> r < 57344"

text \<open>
  A \<^verbatim>\<open>\u\<close> escape whose four hexadecimal digits are at the start of the input: the decoded bytes and
  the rest. A high surrogate takes the low surrogate escape that follows it; any other surrogate
  decodes as U+FFFD.
\<close>

definition decode_u :: "string \<Rightarrow> (string \<times> string) option" where
  "decode_u s =
     (case hex4 (take 4 s) of
        None \<Rightarrow> None
      | Some r \<Rightarrow>
          let t = drop 4 s
          in if \<not> is_surrogate r then Some (encode_rune r, t)
             else
               (case (if take 2 t = [CHR 0x5C, CHR ''u''] then hex4 (take 4 (drop 2 t)) else None) of
                  Some r2 \<Rightarrow>
                    if r < 56320 \<and> 56320 \<le> r2 \<and> r2 < 57344
                    then Some (encode_rune (65536 + (r - 55296) * 1024 + (r2 - 56320)), drop 6 t)
                    else Some (utf8_error, t)
                | None \<Rightarrow> Some (utf8_error, t)))"

definition simple_escape :: "char \<Rightarrow> char option" where
  "simple_escape c =
     (if c \<in> {CHR 0x22, CHR 0x5C, CHR ''/''} then Some c
      else if c = CHR ''b'' then Some (CHR 0x08)
      else if c = CHR ''f'' then Some (CHR 0x0C)
      else if c = CHR ''n'' then Some (CHR 0x0A)
      else if c = CHR ''r'' then Some (CHR 0x0D)
      else if c = CHR ''t'' then Some (CHR 0x09)
      else None)"

text \<open>The characters of a string literal after the opening quote, up to the closing quote.\<close>

function (sequential) lex_string :: "string \<Rightarrow> (string \<times> string) option" where
  "lex_string [] = None"
| "lex_string (c # cs) =
     (if c = CHR 0x22 then Some ([], cs)
      else if c = CHR 0x5C then
        (case cs of
           [] \<Rightarrow> None
         | d # ds \<Rightarrow>
             if d = CHR ''u'' then
               (case decode_u ds of
                  None \<Rightarrow> None
                | Some (bs, r) \<Rightarrow>
                    if length r < length ds
                    then map_option (\<lambda>(u, r'). (bs @ u, r')) (lex_string r) else None)
             else
               (case simple_escape d of
                  None \<Rightarrow> None
                | Some e \<Rightarrow> map_option (\<lambda>(u, r'). (e # u, r')) (lex_string ds)))
      else if char_code c < 32 then None
      else
        (case rune_len (c # cs) of
           0 \<Rightarrow> map_option (\<lambda>(u, r'). (utf8_error @ u, r')) (lex_string cs)
         | Suc n \<Rightarrow> map_option (\<lambda>(u, r'). (c # take n cs @ u, r')) (lex_string (drop n cs))))"
  by pat_completeness auto
termination
  by (relation "measure length") auto

subsection \<open>Decoding numbers\<close>

fun take_digits :: "string \<Rightarrow> string \<times> string" where
  "take_digits [] = ([], [])"
| "take_digits (c # cs) =
     (if is_digit c then (case take_digits cs of (ds, r) \<Rightarrow> (c # ds, r)) else ([], c # cs))"

definition lex_int_part :: "string \<Rightarrow> (string \<times> string) option" where
  "lex_int_part s =
     (case take_digits s of (ds, r) \<Rightarrow>
        if ds = [] then None
        else if hd ds = CHR ''0'' then Some ([hd ds], tl ds @ r)
        else Some (ds, r))"

definition lex_frac_part :: "string \<Rightarrow> (string \<times> string) option" where
  "lex_frac_part s =
     (case s of
        c # cs \<Rightarrow>
          if c = CHR ''.'' then
            (case take_digits cs of (ds, r) \<Rightarrow> if ds = [] then None else Some (c # ds, r))
          else Some ([], s)
      | [] \<Rightarrow> Some ([], []))"

definition lex_exp_part :: "string \<Rightarrow> (string \<times> string) option" where
  "lex_exp_part s =
     (case s of
        c # cs \<Rightarrow>
          if c = CHR ''e'' \<or> c = CHR ''E'' then
            (let (sg, t) = (case cs of
                  d # ds \<Rightarrow> if d = CHR ''+'' \<or> d = CHR ''-'' then ([d], ds) else ([], cs)
                | [] \<Rightarrow> ([], []))
             in case take_digits t of (ds, r) \<Rightarrow> if ds = [] then None else Some (c # sg @ ds, r))
          else Some ([], s)
      | [] \<Rightarrow> Some ([], []))"

definition lex_number :: "string \<Rightarrow> (string \<times> string) option" where
  "lex_number s =
     (let (sg, t) = (case s of c # cs \<Rightarrow> if c = CHR ''-'' then ([c], cs) else ([], s) | [] \<Rightarrow> ([], []))
      in case lex_int_part t of
           None \<Rightarrow> None
         | Some (i, t1) \<Rightarrow>
             (case lex_frac_part t1 of
                None \<Rightarrow> None
              | Some (f, t2) \<Rightarrow>
                  (case lex_exp_part t2 of
                     None \<Rightarrow> None
                   | Some (e, r) \<Rightarrow> Some (sg @ i @ f @ e, r))))"

subsection \<open>Decoding documents\<close>

definition is_space :: "char \<Rightarrow> bool" where
  "is_space c \<longleftrightarrow> char_code c \<in> {32, 9, 10, 13}"

abbreviation skip_space :: "string \<Rightarrow> string" where
  "skip_space \<equiv> dropWhile is_space"

definition lex_literal :: "string \<Rightarrow> (json \<times> string) option" where
  "lex_literal s =
     (if prefix ''true'' s then Some (JBool True, drop 4 s)
      else if prefix ''false'' s then Some (JBool False, drop 5 s)
      else if prefix ''null'' s then Some (JNull, drop 4 s)
      else None)"

text \<open>
  The recursive-descent reading of a value: \<open>f\<close> bounds the length of the run (the input length is
  always enough) and \<open>dep\<close> is the nesting that is still allowed, 10000 at the top.
\<close>

fun parse_value :: "nat \<Rightarrow> nat \<Rightarrow> string \<Rightarrow> (json \<times> string) option"
  and parse_elems :: "nat \<Rightarrow> nat \<Rightarrow> string \<Rightarrow> (json list \<times> string) option"
  and parse_members :: "nat \<Rightarrow> nat \<Rightarrow> string \<Rightarrow> ((string \<times> json) list \<times> string) option" where
  "parse_value 0 dep s = None"
| "parse_value (Suc f) dep s =
     (case skip_space s of
        [] \<Rightarrow> None
      | c # cs \<Rightarrow>
          if c = CHR ''['' then
            (if dep = 0 then None
             else case skip_space cs of
                 [] \<Rightarrow> None
               | d # ds \<Rightarrow>
                   if d = CHR '']'' then Some (JArr [], ds)
                   else map_option (\<lambda>(js, r). (JArr js, r)) (parse_elems f (dep - 1) cs))
          else if c = CHR ''{'' then
            (if dep = 0 then None
             else case skip_space cs of
                 [] \<Rightarrow> None
               | d # ds \<Rightarrow>
                   if d = CHR ''}'' then Some (JObj [], ds)
                   else map_option (\<lambda>(kvs, r). (JObj kvs, r)) (parse_members f (dep - 1) cs))
          else if c = CHR 0x22 then map_option (\<lambda>(s, r). (JStr s, r)) (lex_string cs)
          else if c = CHR ''-'' \<or> is_digit c then
            map_option (\<lambda>(s, r). (JNum s, r)) (lex_number (c # cs))
          else lex_literal (c # cs))"
| "parse_elems 0 dep s = None"
| "parse_elems (Suc f) dep s =
     (case parse_value f dep s of
        None \<Rightarrow> None
      | Some (j, r) \<Rightarrow>
          (case skip_space r of
             [] \<Rightarrow> None
           | d # ds \<Rightarrow>
               if d = CHR '','' then map_option (\<lambda>(js, r'). (j # js, r')) (parse_elems f dep ds)
               else if d = CHR '']'' then Some ([j], ds)
               else None))"
| "parse_members 0 dep s = None"
| "parse_members (Suc f) dep s =
     (case skip_space s of
        [] \<Rightarrow> None
      | q # qs \<Rightarrow>
          if q \<noteq> CHR 0x22 then None
          else case lex_string qs of
              None \<Rightarrow> None
            | Some (k, t) \<Rightarrow>
                (case skip_space t of
                   [] \<Rightarrow> None
                 | cl # v \<Rightarrow>
                     if cl \<noteq> CHR '':'' then None
                     else case parse_value f dep v of
                         None \<Rightarrow> None
                       | Some (j, r) \<Rightarrow>
                           (case skip_space r of
                              [] \<Rightarrow> None
                            | d # ds \<Rightarrow>
                                if d = CHR '','' then
                                  map_option (\<lambda>(kvs, r'). ((k, j) # kvs, r')) (parse_members f dep ds)
                                else if d = CHR ''}'' then Some ([(k, j)], ds)
                                else None)))"

definition max_nesting :: nat where
  "max_nesting = 10000"

definition json_value :: "string \<Rightarrow> (json \<times> string) option" where
  "json_value s = parse_value (Suc (length s)) max_nesting s"

definition json_Unmarshal :: "bytes \<Rightarrow> json option" where
  "json_Unmarshal s =
     (case json_value s of Some (j, r) \<Rightarrow> if skip_space r = [] then Some j else None | None \<Rightarrow> None)"

definition json_Decode :: "bytes \<Rightarrow> json option" where
  "json_Decode s = map_option fst (json_value s)"

subsection \<open>Strings survive the round trip\<close>

lemma rune_disjoint:
  "rune2 a t \<Longrightarrow> \<not> rune3 a u \<and> \<not> rune4 a u" "rune3 a t \<Longrightarrow> \<not> rune4 a u"
  by (auto simp: rune2_def rune3_def rune4_def in_range_def)

lemma rune_len_append:
  assumes "rune_len (c # cs) = Suc n"
  shows "rune_len (c # take n cs @ r) = Suc n"
proof -
  consider (1) "char_code c < 128" "n = 0" | (2) "\<not> char_code c < 128" "rune2 c cs" "n = 1"
    | (3) "\<not> char_code c < 128" "rune3 c cs" "n = 2" | (4) "\<not> char_code c < 128" "rune4 c cs" "n = 3"
    using assms by (simp add: rune_len.simps split: if_splits)
  then show ?thesis
  proof cases
    case 1
    then show ?thesis by (simp add: rune_len.simps)
  next
    case 2
    then have "rune2 c (take n cs @ r)" by (simp add: rune2_def nth_append)
    with 2 show ?thesis by (simp add: rune_len.simps)
  next
    case 3
    then have "rune3 c (take n cs @ r)" by (simp add: rune3_def nth_append)
    with 3 show ?thesis using rune_disjoint(1) by (auto simp: rune_len.simps)
  next
    case 4
    then have "rune4 c (take n cs @ r)" by (simp add: rune4_def nth_append)
    with 4 show ?thesis using rune_disjoint by (auto simp: rune_len.simps)
  qed
qed

lemma rune_len_1: "rune_len (c # cs) = Suc 0 \<longleftrightarrow> char_code c < 128"
  by (simp add: rune_len.simps)

lemma hex_value_hex_char: "d < 16 \<Longrightarrow> hex_value (hex_char d) = Some d"
proof -
  assume "d < 16"
  then consider "d < 10" | "d \<in> {10, 11, 12, 13, 14, 15}" by (auto simp: numeral_eq_Suc less_Suc_eq)
  then show ?thesis
  proof cases
    case 1
    then show ?thesis by (simp add: hex_value_def hex_char_def)
  next
    case 2
    then show ?thesis by (auto simp: hex_value_def hex_char_def ascii_lower_def is_digit_def)
  qed
qed

lemma decode_u_hex:
  assumes "a < 16" "b < 16" "c < 16" "d < 16" and v: "a * 4096 + b * 256 + c * 16 + d = v"
    and "\<not> is_surrogate v"
  shows "decode_u (hex_char a # hex_char b # hex_char c # hex_char d # t) = Some (encode_rune v, t)"
proof -
  have "hex4 [hex_char a, hex_char b, hex_char c, hex_char d] = Some v"
    using assms(1-4) by (simp add: hex4_def hex_value_hex_char v)
  with assms(6) show ?thesis by (simp add: decode_u_def del: encode_rune.simps)
qed

lemma decode_u_escape:
  assumes "r < 65536" and "\<not> is_surrogate r"
  shows "decode_u (hex_char (r div 4096 mod 16) # hex_char (r div 256 mod 16) #
     hex_char (r div 16 mod 16) # hex_char (r mod 16) # t) = Some (encode_rune r, t)"
proof -
  define a b c where "a = r div 16" and "b = a div 16" and "c = b div 16"
  have parts: "r = 16 * a + r mod 16" "a = 16 * b + a mod 16" "b = 16 * c + b mod 16"
    by (simp_all add: a_def b_def c_def)
  have divs: "r div 16 = a" "r div 256 = b" "r div 4096 = c"
    by (simp_all add: a_def b_def c_def flip: div_mult2_eq)
  have "c mod 16 = c" using assms(1) by (simp add: a_def b_def c_def flip: div_mult2_eq)
  with parts have "c mod 16 * 4096 + b mod 16 * 256 + a mod 16 * 16 + r mod 16 = r" by linarith
  then have sum: "r div 4096 mod 16 * 4096 + r div 256 mod 16 * 256 + r div 16 mod 16 * 16 + r mod 16 = r"
    by (simp only: divs)
  show ?thesis by (rule decode_u_hex [OF _ _ _ _ sum assms(2)]) simp_all
qed

lemma lex_string_u_escape:
  assumes "r < 65536" and "\<not> is_surrogate r"
  shows "lex_string (u_escape r @ t) = map_option (\<lambda>(u, r'). (encode_rune r @ u, r')) (lex_string t)"
  using decode_u_escape [OF assms, of t] by (simp add: u_escape_def)

lemma escape_ascii_cases:
  obtains (q) "c = CHR 0x22 \<or> c = CHR 0x5C" | (s) "c \<in> {CHR 0x08, CHR 0x09, CHR 0x0A, CHR 0x0C, CHR 0x0D}"
    | (u) "escape_ascii c = u_escape (char_code c)"
    | (p) "escape_ascii c = [c]" "c \<noteq> CHR 0x22" "c \<noteq> CHR 0x5C" "32 \<le> char_code c"
proof (cases "c = CHR 0x22 \<or> c = CHR 0x5C \<or> c \<in> {CHR 0x08, CHR 0x09, CHR 0x0A, CHR 0x0C, CHR 0x0D}")
  case True
  then show ?thesis using q s by blast
next
  case False
  then show ?thesis
    using u p by (cases "char_code c < 32 \<or> c \<in> {CHR ''<'', CHR ''>'', CHR ''&''}")
      (simp_all add: escape_ascii_def)
qed

lemma lex_string_escape_ascii:
  assumes "char_code c < 128"
  shows "lex_string (escape_ascii c @ t) = map_option (\<lambda>(u, r). (c # u, r)) (lex_string t)"
proof (cases c rule: escape_ascii_cases)
  case q
  then show ?thesis by (auto simp: escape_ascii_def simple_escape_def)
next
  case s
  then show ?thesis by (auto simp: escape_ascii_def simple_escape_def)
next
  case u
  then show ?thesis
    using lex_string_u_escape [of "char_code c" t] assms by (simp add: is_surrogate_def)
next
  case p
  have "rune_len (c # t) = Suc 0" using rune_len_1 assms by simp
  with p show ?thesis by simp
qed

lemma char_eq_of_code: "char_code c = n \<Longrightarrow> c = char_of n"
  by (metis char_of_char)

lemma encode_rune_consts:
  "encode_rune 65533 = utf8_error"
  "encode_rune 8232 = [CHR 0xE2, CHR 0x80, CHR 0xA8]"
  "encode_rune 8233 = [CHR 0xE2, CHR 0x80, CHR 0xA9]"
  by (simp_all add: utf8_error_def char_eq_of_code [symmetric])

lemma lex_string_rune:
  assumes n: "rune_len (c # cs) = Suc n" and "n \<noteq> 0"
  shows "lex_string (escape_rune (c # take n cs) @ t) =
         map_option (\<lambda>(u, r). (c # take n cs @ u, r)) (lex_string t)"
proof (cases "is_line_sep (c # take n cs)")
  case True
  have "n \<le> 3" using n by (simp add: rune_len.simps split: if_splits)
  have "rune3 c cs"
    using n True \<open>n \<noteq> 0\<close>
    by (auto simp: rune_len.simps is_line_sep_def rune2_def rune4_def in_range_def split: if_splits)
  then have "n = 2" using n rune_disjoint(1)
    by (auto simp: rune_len.simps split: if_splits) (auto simp: rune3_def in_range_def)
  moreover obtain x y zs where cs: "cs = x # y # zs"
    using \<open>rune3 c cs\<close> by (cases cs; cases "tl cs") (auto simp: rune3_def)
  ultimately have p: "c # take n cs = [c, x, y]" by (simp add: numeral_eq_Suc)
  then have "c = CHR 0xE2" "x = CHR 0x80" and "y = CHR 0xA8 \<or> y = CHR 0xA9"
    using True by (auto simp: is_line_sep_def dest!: char_eq_of_code) (auto simp: char_eq_of_code [symmetric])
  with p True show ?thesis
    using lex_string_u_escape [of 8232 t] lex_string_u_escape [of 8233 t]
    by (auto simp: escape_rune_def encode_rune_consts is_surrogate_def simp del: encode_rune.simps)
next
  case False
  have "\<not> char_code c < 128" using n \<open>n \<noteq> 0\<close> rune_len_1 [of c cs] by auto
  then have "c \<noteq> CHR 0x22" "c \<noteq> CHR 0x5C" "\<not> char_code c < 32" by auto
  moreover have "n \<le> length cs" using rune_len_le [of "c # cs"] n by simp
  ultimately show ?thesis
    using False rune_len_append [OF n, of t] by (simp add: escape_rune_def min_def)
qed

lemma lex_string_escape:
  "lex_string (escape_string s @ CHR 0x22 # r) = Some (to_valid_utf8 s, r)"
proof (induction s rule: escape_string.induct)
  case 1
  then show ?case by simp
next
  case (2 c cs)
  consider (bad) "rune_len (c # cs) = 0" | (ascii) "rune_len (c # cs) = Suc 0"
    | (multi) n where "rune_len (c # cs) = Suc n" "n \<noteq> 0" by (metis not0_implies_Suc)
  then show ?case
  proof cases
    case bad
    with 2 show ?thesis
      using lex_string_u_escape [of 65533 "escape_string cs @ CHR 0x22 # r"]
      by (simp add: encode_rune_consts is_surrogate_def del: encode_rune.simps)
  next
    case ascii
    then have "lex_string (escape_string cs @ CHR 0x22 # r) = Some (to_valid_utf8 cs, r)"
      using 2 by simp
    moreover have "char_code c < 128" using ascii rune_len_1 by simp
    ultimately show ?thesis
      using ascii lex_string_escape_ascii [of c "escape_string cs @ CHR 0x22 # r"]
      by (simp del: lex_string.simps)
  next
    case multi
    then have "lex_string (escape_string (drop n cs) @ CHR 0x22 # r) = Some (to_valid_utf8 (drop n cs), r)"
      using 2 by simp
    with multi show ?thesis
      using lex_string_rune [OF multi, of "escape_string (drop n cs) @ CHR 0x22 # r"]
      by (simp del: lex_string.simps)
  qed
qed

subsection \<open>Number literals\<close>

text \<open>A text that is one number literal, and the characters that may follow it in a document.\<close>

definition is_number :: "string \<Rightarrow> bool" where
  "is_number s \<longleftrightarrow> lex_number s = Some (s, [])"

definition ends_token :: "string \<Rightarrow> bool" where
  "ends_token r \<longleftrightarrow> r = [] \<or> \<not> is_digit (hd r) \<and> hd r \<notin> {CHR ''.'', CHR ''e'', CHR ''E''}"

lemma take_digits_split: "take_digits s = (ds, r) \<Longrightarrow> s = ds @ r \<and> list_all is_digit ds \<and> (r = [] \<or> \<not> is_digit (hd r))"
  by (induction s arbitrary: ds r) (auto split: if_splits prod.splits)

lemma take_digits_append:
  "list_all is_digit ds \<Longrightarrow> r = [] \<or> \<not> is_digit (hd r) \<Longrightarrow> take_digits (ds @ r) = (ds, r)"
proof (induction ds)
  case Nil
  then show ?case by (cases r) auto
qed auto

lemma take_digits_all: "list_all is_digit ds \<Longrightarrow> take_digits ds = (ds, [])"
  using take_digits_append [of ds "[]"] by simp

lemma ends_token_digit: "ends_token r \<Longrightarrow> r = [] \<or> \<not> is_digit (hd r)"
  by (auto simp: ends_token_def)

text \<open>A literal built from its parts is read whole.\<close>

definition int_part_ok :: "string \<Rightarrow> bool" where
  "int_part_ok i \<longleftrightarrow> i \<noteq> [] \<and> list_all is_digit i \<and> (hd i = CHR ''0'' \<longrightarrow> tl i = [])"

definition exp_part_ok :: "string \<Rightarrow> bool" where
  "exp_part_ok e \<longleftrightarrow> e = [] \<or> (\<exists>sg ds. e = CHR ''e'' # sg # ds \<and> sg \<in> {CHR ''+'', CHR ''-''} \<and>
     ds \<noteq> [] \<and> list_all is_digit ds)"

definition frac_part_ok :: "string \<Rightarrow> bool" where
  "frac_part_ok f \<longleftrightarrow> f = [] \<or> (\<exists>ds. f = CHR ''.'' # ds \<and> ds \<noteq> [] \<and> list_all is_digit ds)"

lemma lex_exp_part_ok: "exp_part_ok e \<Longrightarrow> ends_token r \<Longrightarrow> lex_exp_part (e @ r) = Some (e, r)"
  by (cases r) (auto simp: exp_part_ok_def lex_exp_part_def take_digits_append take_digits_all ends_token_def)

lemma frac_rest_head:
  "exp_part_ok e \<Longrightarrow> ends_token r \<Longrightarrow> e @ r = [] \<or> \<not> is_digit (hd (e @ r)) \<and> hd (e @ r) \<noteq> CHR ''.''"
  by (auto simp: exp_part_ok_def ends_token_def is_digit_def)

lemma lex_frac_part_ok:
  "frac_part_ok f \<Longrightarrow> exp_part_ok e \<Longrightarrow> ends_token r \<Longrightarrow> lex_frac_part (f @ e @ r) = Some (f, e @ r)"
  using frac_rest_head [of e r]
  by (auto simp: frac_part_ok_def lex_frac_part_def take_digits_append take_digits_all split: list.splits)

lemma int_rest_head:
  "frac_part_ok f \<Longrightarrow> exp_part_ok e \<Longrightarrow> ends_token r \<Longrightarrow> f @ e @ r = [] \<or> \<not> is_digit (hd (f @ e @ r))"
  using frac_rest_head [of e r] by (auto simp: frac_part_ok_def is_digit_def)

lemma lex_int_part_ok:
  "int_part_ok i \<Longrightarrow> t = [] \<or> \<not> is_digit (hd t) \<Longrightarrow> lex_int_part (i @ t) = Some (i, t)"
  by (cases i) (auto simp: int_part_ok_def lex_int_part_def take_digits_append)

lemma lex_number_parts:
  assumes "int_part_ok i" and "frac_part_ok f" and "exp_part_ok e" and "ends_token r"
  shows "lex_number (i @ f @ e @ r) = Some (i @ f @ e, r)"
    and "lex_number (CHR ''-'' # i @ f @ e @ r) = Some (CHR ''-'' # i @ f @ e, r)"
proof -
  note steps = lex_int_part_ok [OF assms(1) int_rest_head [OF assms(2-4)]]
    lex_frac_part_ok [OF assms(2-4)] lex_exp_part_ok [OF assms(3,4)]
  obtain c cs where i: "i = c # cs" "c \<noteq> CHR ''-''"
    using assms(1) is_digit_chars(3) by (cases i) (auto simp: int_part_ok_def)
  show "lex_number (i @ f @ e @ r) = Some (i @ f @ e, r)"
    using steps i by (simp add: lex_number_def)
  show "lex_number (CHR ''-'' # i @ f @ e @ r) = Some (CHR ''-'' # i @ f @ e, r)"
    using steps by (simp add: lex_number_def)
qed

text \<open>The parts of the numbers the encoder writes.\<close>

lemma format_nat_int_part: "int_part_ok (format_nat n)"
proof -
  have "n \<noteq> 0 \<Longrightarrow> hd (format_nat n) \<noteq> CHR ''0''"
  proof (induction n rule: format_nat.induct)
    case (1 n)
    show ?case
    proof (cases "n < 10")
      case True
      then have "char_code (digit_char n) = 48 + n" by (rule char_code_digit_char)
      with 1 True show ?thesis by (auto simp: format_nat.simps [of n])
    next
      case False
      with 1 show ?thesis by (simp add: format_nat.simps [of n])
    qed
  qed
  moreover have "format_nat 0 = ''0''"
    by (simp add: format_nat.simps digit_char_def char_eq_of_code [symmetric])
  ultimately show ?thesis
    using format_nat_digits [of n] by (cases "n = 0") (auto simp: int_part_ok_def)
qed

lemma lex_number_format_int:
  assumes "ends_token r"
  shows "lex_number (format_int i @ r) = Some (format_int i, r)"
  using lex_number_parts [OF format_nat_int_part _ _ assms, of "[]" "[]"]
  by (simp add: format_int_def frac_part_ok_def exp_part_ok_def)

lemma fixed_format_parts:
  assumes "D \<noteq> 0 \<or> k = 0"
  obtains i f where "fixed_format D k = i @ f" "int_part_ok i" "frac_part_ok f"
proof -
  define ds where "ds = format_nat D"
  have ds: "int_part_ok ds" "list_all is_digit ds" using format_nat_int_part format_nat_digits by (auto simp: ds_def)
  have zero: "int_part_ok ''0''" by (simp add: int_part_ok_def is_digit_def)
  consider (zero) "0 \<le> k" "D = 0" | (int) "0 \<le> k" "D \<noteq> 0" | (point) "k < 0" "nat (- k) < length ds"
    | (small) "k < 0" "length ds \<le> nat (- k)" by linarith
  then show ?thesis
  proof cases
    case zero
    then show ?thesis
      using that [of "''0''" "[]"] \<open>int_part_ok ''0''\<close> by (simp add: fixed_format_def frac_part_ok_def)
  next
    case int
    have "hd ds \<noteq> CHR ''0''"
      using int ds(1) digits_value_format_nat [of D]
      by (cases ds) (auto simp: int_part_ok_def ds_def digits_value_def digit_value_def)
    then have "int_part_ok (ds @ replicate (nat k) (CHR ''0''))"
      using ds by (auto simp: int_part_ok_def)
    with int show ?thesis
      using that [of "ds @ replicate (nat k) (CHR ''0'')" "[]"]
      by (simp add: fixed_format_def frac_part_ok_def ds_def)
  next
    case point
    define l where "l = length ds - nat (- k)"
    have l: "0 < l" "l < length ds" using point by (auto simp: l_def)
    have "hd ds \<noteq> CHR ''0''"
      using l ds(1) by (cases ds) (auto simp: int_part_ok_def)
    then have "int_part_ok (take l ds)"
      using l ds(2) by (auto simp: int_part_ok_def list_all_iff dest: in_set_takeD)
    moreover have "frac_part_ok (CHR ''.'' # drop l ds)"
      using l ds(2) by (auto simp: frac_part_ok_def list_all_iff dest: in_set_dropD)
    ultimately show ?thesis
      using that [of "take l ds" "CHR ''.'' # drop l ds"] point
      by (simp add: fixed_format_def l_def ds_def Let_def)
  next
    case small
    then show ?thesis
      using that [of "''0''" "CHR ''.'' # replicate (nat (- k) - length ds) (CHR ''0'') @ ds"] zero ds
      by (simp add: fixed_format_def frac_part_ok_def ds_def Let_def)
  qed
qed

lemma exp_format_parts:
  obtains i f e where "exp_format D k = i @ f @ e" "int_part_ok i" "frac_part_ok f" "exp_part_ok e"
proof -
  obtain c ys where ds: "format_nat D = c # ys" by (cases "format_nat D") auto
  have "is_digit c" "list_all is_digit ys" using format_nat_digits [of D] ds by simp_all
  define x where "x = k + int (length (format_nat D)) - 1"
  define es where "es = (if 0 \<le> x \<and> x < 10 then ''0'' else []) @ format_nat (nat \<bar>x\<bar>)"
  define e where "e = CHR ''e'' # (if x < 0 then CHR ''-'' else CHR ''+'') # es"
  have "list_all is_digit es" "es \<noteq> []"
    using format_nat_digits [of "nat \<bar>x\<bar>"] by (auto simp: es_def is_digit_def)
  then have "exp_part_ok e" by (auto simp: exp_part_ok_def e_def)
  moreover have "int_part_ok [c]" using \<open>is_digit c\<close> by (simp add: int_part_ok_def)
  moreover have "frac_part_ok (if ys = [] then [] else CHR ''.'' # ys)"
    using \<open>list_all is_digit ys\<close> by (simp add: frac_part_ok_def)
  moreover have "exp_format D k = [c] @ (if ys = [] then [] else CHR ''.'' # ys) @ e"
    by (simp add: exp_format_def Let_def ds e_def es_def x_def)
  ultimately show ?thesis using that by blast
qed

lemma lex_number_json_float:
  assumes "json_float x = Some s" and r: "ends_token r"
  shows "lex_number (s @ r) = Some (s, r)"
proof -
  obtain D k where dk: "shortest_digits (f_mag x) = (D, k)" by force
  have nz: "D \<noteq> 0 \<or> k = 0" using shortest_digits_reads [OF dk] by auto
  from assms(1) dk obtain b where s: "s = sign_prefix x @ b"
    and b: "b = fixed_format D k \<or> b = exp_format D k"
    by (auto simp: json_float_def Let_def split: if_splits)
  obtain i f e where "b = i @ f @ e" "int_part_ok i" "frac_part_ok f" "exp_part_ok e"
    using b fixed_format_parts [OF nz] exp_format_parts
    by (metis append_Nil2 exp_part_ok_def)
  then show ?thesis
    using lex_number_parts [of i f e r] r by (simp add: s sign_prefix_def)
qed

subsection \<open>Documents survive the round trip\<close>

text \<open>What a decoded document looks like after encoding: the same, with valid UTF-8 strings.\<close>

fun json_sanitize :: "json \<Rightarrow> json" where
  "json_sanitize (JStr s) = JStr (to_valid_utf8 s)"
| "json_sanitize (JArr js) = JArr (map json_sanitize js)"
| "json_sanitize (JObj kvs) = JObj (map (\<lambda>kv. (to_valid_utf8 (fst kv), json_sanitize (snd kv))) kvs)"
| "json_sanitize j = j"

fun json_numbers_ok :: "json \<Rightarrow> bool" where
  "json_numbers_ok (JNum s) \<longleftrightarrow>
     s \<noteq> [] \<and> (hd s = CHR ''-'' \<or> is_digit (hd s)) \<and> (\<forall>r. ends_token r \<longrightarrow> lex_number (s @ r) = Some (s, r))"
| "json_numbers_ok (JArr js) \<longleftrightarrow> (\<forall>j \<in> set js. json_numbers_ok j)"
| "json_numbers_ok (JObj kvs) \<longleftrightarrow> (\<forall>kv \<in> set kvs. json_numbers_ok (snd kv))"
| "json_numbers_ok j \<longleftrightarrow> True"

fun json_depth :: "json \<Rightarrow> nat" where
  "json_depth (JArr js) = Suc (Max (insert 0 (set (map json_depth js))))"
| "json_depth (JObj kvs) = Suc (Max (insert 0 (set (map (\<lambda>kv. json_depth (snd kv)) kvs))))"
| "json_depth j = 0"


lemma ends_token_delims [simp]:
  "ends_token (CHR '','' # r)" "ends_token (CHR '']'' # r)" "ends_token (CHR ''}'' # r)" "ends_token []"
  by (simp_all add: ends_token_def is_digit_def)

lemma json_print_head:
  assumes "json_numbers_ok j"
  obtains c cs where "json_print j = c # cs" "\<not> is_space c" "c \<noteq> CHR '']''" "c \<noteq> CHR ''}''"
proof (cases j)
  case (JNum s)
  then have "s \<noteq> []" "hd s = CHR ''-'' \<or> is_digit (hd s)" using assms by simp_all
  then have "\<not> is_space (hd s) \<and> hd s \<noteq> CHR '']'' \<and> hd s \<noteq> CHR ''}''"
    by (auto simp: is_space_def is_digit_def)
  then show ?thesis using that [of "hd s" "tl s"] JNum \<open>s \<noteq> []\<close> by simp
next
  case (JBool b)
  then show ?thesis using that by (cases b) (auto simp: is_space_def)
qed (use that in \<open>auto simp: quote_string_def is_space_def\<close>)

lemma skip_space_nonspace: "\<not> is_space c \<Longrightarrow> skip_space (c # cs) = c # cs"
  by simp

lemma is_space_delims [simp]:
  "\<not> is_space (CHR '','')" "\<not> is_space (CHR '']'')" "\<not> is_space (CHR ''}'')" "\<not> is_space (CHR '':'')"
  "\<not> is_space (CHR 0x22)" "\<not> is_space (CHR ''['')" "\<not> is_space (CHR ''{'')"
  by (simp_all add: is_space_def)

lemma parse_elems_print:
  assumes "js \<noteq> []"
    and "\<And>j f r. j \<in> set js \<Longrightarrow> length (json_print j) \<le> f \<Longrightarrow> ends_token r \<Longrightarrow>
       parse_value f dep (json_print j @ r) = Some (json_sanitize j, r)"
    and "length (join_with (CHR '','') (map json_print js)) < f"
  shows "parse_elems f dep (join_with (CHR '','') (map json_print js) @ CHR '']'' # r) =
           Some (map json_sanitize js, r)"
  using assms
proof (induction js arbitrary: f)
  case Nil
  then show ?case by simp
next
  case (Cons j js)
  obtain f' where f: "f = Suc f'" using Cons.prems(3) by (cases f) auto
  show ?case
  proof (cases js)
    case Nil
    then show ?thesis using Cons.prems(2) [of j f' "CHR '']'' # r"] Cons.prems(3) f by simp
  next
    case (Cons k ks)
    define rest where "rest = join_with (CHR '','') (map json_print js) @ CHR '']'' # r"
    have "parse_value f' dep (json_print j @ CHR '','' # rest) = Some (json_sanitize j, CHR '','' # rest)"
      using Cons.prems(2) [of j f' "CHR '','' # rest"] Cons.prems(3) f Cons by simp
    moreover have "parse_elems f' dep rest = Some (map json_sanitize js, r)"
      unfolding rest_def using Cons Cons.prems(2,3) f by (intro Cons.IH) auto
    moreover have "join_with (CHR '','') (map json_print (j # js)) @ CHR '']'' # r = json_print j @ CHR '','' # rest"
      using Cons by (simp add: rest_def)
    ultimately show ?thesis using f by (simp del: join_with.simps)
  qed
qed

abbreviation print_member :: "string \<times> json \<Rightarrow> string" where
  "print_member kv \<equiv> quote_string (fst kv) @ '':'' @ json_print (snd kv)"

lemma parse_members_print:
  assumes "kvs \<noteq> []"
    and "\<And>kv f r. kv \<in> set kvs \<Longrightarrow> length (json_print (snd kv)) \<le> f \<Longrightarrow> ends_token r \<Longrightarrow>
       parse_value f dep (json_print (snd kv) @ r) = Some (json_sanitize (snd kv), r)"
    and "length (join_with (CHR '','') (map print_member kvs)) < f"
  shows "parse_members f dep (join_with (CHR '','') (map print_member kvs) @ CHR ''}'' # r) =
           Some (map (\<lambda>kv. (to_valid_utf8 (fst kv), json_sanitize (snd kv))) kvs, r)"
  using assms
proof (induction kvs arbitrary: f)
  case Nil
  then show ?case by simp
next
  case (Cons kv kvs)
  obtain f' where f: "f = Suc f'" using Cons.prems(3) by (cases f) auto
  have key: "lex_string (escape_string (fst kv) @ CHR 0x22 # t) = Some (to_valid_utf8 (fst kv), t)" for t
    by (rule lex_string_escape)
  show ?case
  proof (cases kvs)
    case Nil
    then show ?thesis
      using Cons.prems(2) [of kv f' "CHR ''}'' # r"] Cons.prems(3) f key
      by (simp add: quote_string_def del: lex_string.simps)
  next
    case (Cons k ks)
    define rest where "rest = join_with (CHR '','') (map print_member kvs) @ CHR ''}'' # r"
    have "parse_value f' dep (json_print (snd kv) @ CHR '','' # rest) =
        Some (json_sanitize (snd kv), CHR '','' # rest)"
      using Cons.prems(2) [of kv f' "CHR '','' # rest"] Cons.prems(3) f Cons by simp
    moreover have "parse_members f' dep rest =
        Some (map (\<lambda>kv. (to_valid_utf8 (fst kv), json_sanitize (snd kv))) kvs, r)"
      unfolding rest_def using Cons Cons.prems(2,3) f by (intro Cons.IH) auto
    moreover have "join_with (CHR '','') (map print_member (kv # kvs)) @ CHR ''}'' # r =
        print_member kv @ CHR '','' # rest"
      using Cons by (simp add: rest_def)
    ultimately show ?thesis
      using f key by (simp add: quote_string_def del: join_with.simps lex_string.simps)
  qed
qed

lemma join_with_head: "xs \<noteq> [] \<Longrightarrow> hd xs = c # cs \<Longrightarrow> \<exists>t. join_with sep xs = c # t"
  by (cases "(sep, xs)" rule: join_with.cases) auto

lemma depth_elem:
  "j \<in> set js \<Longrightarrow> json_depth (JArr js) \<le> Suc dep \<Longrightarrow> json_depth j \<le> dep"
  "kv \<in> set kvs \<Longrightarrow> json_depth (JObj kvs) \<le> Suc dep \<Longrightarrow> json_depth (snd kv) \<le> dep"
  by (auto simp: Max_le_iff dest: Max_ge)

lemma parse_value_literals:
  "parse_value (Suc f) dep (''null'' @ r) = Some (JNull, r)"
  "parse_value (Suc f) dep (''true'' @ r) = Some (JBool True, r)"
  "parse_value (Suc f) dep (''false'' @ r) = Some (JBool False, r)"
  by (simp_all add: is_space_def is_digit_def lex_literal_def)

lemma parse_number_print:
  assumes "json_numbers_ok (JNum s)" and "ends_token r"
  shows "parse_value (Suc f) dep (s @ r) = Some (JNum s, r)"
proof -
  obtain c cs where s: "s = c # cs" "\<not> is_space c" using json_print_head [OF assms(1)] by (metis json_print.simps(3))
  have "c \<noteq> CHR ''[''" "c \<noteq> CHR ''{''" "c \<noteq> CHR 0x22" "c = CHR ''-'' \<or> is_digit c"
    using assms(1) s by (auto simp: is_digit_def)
  moreover have "lex_number (c # cs @ r) = Some (s, r)" using assms s by simp
  ultimately show ?thesis using s by simp
qed

lemma parse_array_print:
  assumes "list_all json_numbers_ok js"
    and "js \<noteq> [] \<Longrightarrow> parse_elems f dep (join_with (CHR '','') (map json_print js) @ CHR '']'' # r) =
           Some (map json_sanitize js, r)"
  shows "parse_value (Suc f) (Suc dep) (json_print (JArr js) @ r) = Some (json_sanitize (JArr js), r)"
proof (cases "js = []")
  case False
  obtain c cs where "json_print (hd js) = c # cs" "\<not> is_space c" "c \<noteq> CHR '']''"
    using json_print_head [of "hd js"] assms(1) False by (metis hd_in_set list_all_iff)
  then show ?thesis
    using assms(2) False join_with_head [of "map json_print js" c cs "CHR '',''"] by (auto simp: hd_map)
qed simp

lemma parse_object_print:
  assumes "kvs \<noteq> [] \<Longrightarrow> parse_members f dep (join_with (CHR '','') (map print_member kvs) @ CHR ''}'' # r) =
           Some (map (\<lambda>kv. (to_valid_utf8 (fst kv), json_sanitize (snd kv))) kvs, r)"
  shows "parse_value (Suc f) (Suc dep) (json_print (JObj kvs) @ r) = Some (json_sanitize (JObj kvs), r)"
proof (cases "kvs = []")
  case False
  then show ?thesis
    using assms join_with_head [of "map print_member kvs" "CHR 0x22" _ "CHR '',''"]
    by (fastforce simp: hd_map quote_string_def)
qed simp

lemma json_print_fuel:
  assumes "json_numbers_ok j" and "length (json_print j) \<le> f"
  obtains f' where "f = Suc f'"
  using assms json_print_head [OF assms(1)] by (cases f) auto

lemma parse_value_print:
  "json_numbers_ok j \<Longrightarrow> json_depth j \<le> dep \<Longrightarrow> length (json_print j) \<le> f \<Longrightarrow> ends_token r \<Longrightarrow>
     parse_value f dep (json_print j @ r) = Some (json_sanitize j, r)"
proof (induction j arbitrary: dep f r rule: json_print.induct)
  case 1
  obtain f' where f: "f = Suc f'" using 1(1,3) by (rule json_print_fuel)
  show ?case unfolding f by (simp only: json_print.simps parse_value_literals json_sanitize.simps)
next
  case (2 b)
  obtain f' where f: "f = Suc f'" using 2(1,3) by (rule json_print_fuel)
  show ?case unfolding f
    by (cases b) (simp_all only: json_print.simps parse_value_literals json_sanitize.simps if_True if_False)
next
  case (3 s)
  obtain f' where f: "f = Suc f'" using 3(1,3) by (rule json_print_fuel)
  show ?case unfolding f using parse_number_print [OF 3(1,4)] by (simp only: json_print.simps json_sanitize.simps)
next
  case (4 s)
  then show ?case
    by (cases f) (simp_all add: quote_string_def lex_string_escape del: lex_string.simps)
next
  case (5 js)
  obtain f' d where f: "f = Suc f'" "dep = Suc d" using 5 by (cases f; cases dep) auto
  show ?case unfolding f
    using 5 f depth_elem(1) by (intro parse_array_print parse_elems_print) (auto simp: list_all_iff)
next
  case (6 kvs)
  obtain f' d where f: "f = Suc f'" "dep = Suc d" using 6 by (cases f; cases dep) auto
  show ?case unfolding f
    using 6 f depth_elem(2) by (intro parse_object_print parse_members_print) auto
qed

text \<open>Encoding a document and decoding it again, by either entry point.\<close>

lemma json_value_print:
  assumes "json_numbers_ok j" and "json_depth j \<le> max_nesting" and "ends_token r"
  shows "json_value (json_print j @ r) = Some (json_sanitize j, r)"
  using parse_value_print [OF assms(1,2) _ assms(3), of "Suc (length (json_print j @ r))"]
  by (simp add: json_value_def)

lemma json_Unmarshal_print:
  "json_numbers_ok j \<Longrightarrow> json_depth j \<le> max_nesting \<Longrightarrow> json_Unmarshal (json_print j) = Some (json_sanitize j)"
  using json_value_print [of j "[]"] by (simp add: json_Unmarshal_def)

lemma json_Decode_print:
  "json_numbers_ok j \<Longrightarrow> json_depth j \<le> max_nesting \<Longrightarrow> ends_token r \<Longrightarrow>
     json_Decode (json_print j @ r) = Some (json_sanitize j)"
  using json_value_print [of j r] by (simp add: json_Decode_def)

subsection \<open>The input length is enough fuel\<close>

lemma lex_string_consumes: "lex_string s = Some (u, r) \<Longrightarrow> length r < length s"
proof (induction s arbitrary: u rule: length_induct)
  case (1 s)
  then have IH: "length t < length s \<Longrightarrow> lex_string t = Some (v, r) \<Longrightarrow> length r < length t" for t v
    by blast
  show ?case
  proof (cases s)
    case (Cons c cs)
    show ?thesis
      using 1(2) unfolding Cons
      by (auto split: if_splits list.splits option.splits nat.splits dest!: IH [rotated] simp: Cons)
  qed (use 1(2) in simp)
qed

lemma take_digits_consumes: "take_digits s = (ds, r) \<Longrightarrow> length r + length ds = length s"
  by (drule take_digits_split) auto

lemma lex_int_part_consumes: "lex_int_part s = Some (i, r) \<Longrightarrow> length r < length s"
proof -
  assume a: "lex_int_part s = Some (i, r)"
  obtain ds t where d: "take_digits s = (ds, t)" by force
  with a show ?thesis
    using take_digits_consumes [OF d] by (cases ds) (auto simp: lex_int_part_def split: if_splits)
qed

lemma lex_frac_part_consumes: "lex_frac_part s = Some (i, r) \<Longrightarrow> length r \<le> length s"
  by (auto simp: lex_frac_part_def split: list.splits if_splits prod.splits dest!: take_digits_consumes)

lemma lex_exp_part_consumes: "lex_exp_part s = Some (i, r) \<Longrightarrow> length r \<le> length s"
  by (auto simp: lex_exp_part_def split: list.splits if_splits prod.splits dest!: take_digits_consumes)

lemma lex_number_consumes:
  assumes "lex_number s = Some (u, r)"
  shows "length r < length s"
proof -
  obtain sg t where t: "(case s of c # cs \<Rightarrow> if c = CHR ''-'' then ([c], cs) else ([], s) | [] \<Rightarrow> ([], [])) = (sg, t)"
    by force
  then have "length t \<le> length s" by (auto split: list.splits if_splits)
  with assms show ?thesis
    unfolding lex_number_def t
    by (auto split: option.splits dest!: lex_int_part_consumes lex_frac_part_consumes lex_exp_part_consumes)
qed

lemma lex_literal_consumes: "lex_literal s = Some (j, r) \<Longrightarrow> length r < length s"
  by (auto simp: lex_literal_def prefix_def split: if_splits)

lemma skip_space_length: "skip_space s = c # cs \<Longrightarrow> length cs < length s"
  by (metis length_Cons length_dropWhile_le Suc_le_eq)

lemma skip_space_le: "length (skip_space s) \<le> length s"
  by (rule length_dropWhile_le)

text \<open>What a successful step of each reader went through.\<close>

lemma parse_value_SucE:
  assumes "parse_value (Suc f) dep s = Some (j, r)"
  obtains c cs where "skip_space s = c # cs" "c \<notin> {CHR ''['', CHR ''{''}" "length r \<le> length cs"
      "\<And>g. parse_value (Suc g) dep s = Some (j, r)"
    | cs ds where "skip_space s = CHR ''['' # cs" "dep \<noteq> 0" "skip_space cs = CHR '']'' # ds" "j = JArr []" "r = ds"
    | cs d ds js where "skip_space s = CHR ''['' # cs" "dep \<noteq> 0" "skip_space cs = d # ds" "d \<noteq> CHR '']''"
      "parse_elems f (dep - 1) cs = Some (js, r)" "j = JArr js"
    | cs ds where "skip_space s = CHR ''{'' # cs" "dep \<noteq> 0" "skip_space cs = CHR ''}'' # ds" "j = JObj []" "r = ds"
    | cs d ds kvs where "skip_space s = CHR ''{'' # cs" "dep \<noteq> 0" "skip_space cs = d # ds" "d \<noteq> CHR ''}''"
      "parse_members f (dep - 1) cs = Some (kvs, r)" "j = JObj kvs"
proof (cases "skip_space s")
  case (Cons c cs)
  consider (arr) "c = CHR ''[''" | (obj) "c = CHR ''{''" | (token) "c \<notin> {CHR ''['', CHR ''{''}" by blast
  then show ?thesis
  proof cases
    case token
    have "length r \<le> length cs"
      using assms Cons token lex_string_consumes [of cs] lex_number_consumes [of "c # cs"] lex_literal_consumes [of "c # cs"]
      by (fastforce split: if_splits)
    then show ?thesis using that(1) [OF Cons token] assms Cons token by simp
  qed (use assms Cons that(2-5) in \<open>auto split: list.splits if_splits simp del: dropWhile_eq_Nil_conv\<close>)
qed (use assms in \<open>simp del: dropWhile_eq_Nil_conv\<close>)

lemma parse_elems_SucE:
  assumes "parse_elems (Suc f) dep s = Some (js, r)"
  obtains j r0 d ds where "parse_value f dep s = Some (j, r0)" "skip_space r0 = d # ds" "length ds < length r0"
    "d = CHR '']'' \<and> js = [j] \<and> r = ds \<or> d = CHR '','' \<and> (\<exists>js'. parse_elems f dep ds = Some (js', r) \<and> js = j # js')"
  using assms by (fastforce split: list.splits if_splits option.splits dest: skip_space_length)

lemma parse_members_SucE:
  assumes "parse_members (Suc f) dep s = Some (kvs, r)"
  obtains qs k t v j r0 d ds where "skip_space s = CHR 0x22 # qs" "lex_string qs = Some (k, t)"
    "skip_space t = CHR '':'' # v" "length v < length s" "parse_value f dep v = Some (j, r0)"
    "skip_space r0 = d # ds" "length ds < length r0"
    "d = CHR ''}'' \<and> kvs = [(k, j)] \<and> r = ds \<or>
     d = CHR '','' \<and> (\<exists>kvs'. parse_members f dep ds = Some (kvs', r) \<and> kvs = (k, j) # kvs')"
proof -
  obtain qs k t where q: "skip_space s = CHR 0x22 # qs" "lex_string qs = Some (k, t)"
    using assms by (auto split: list.splits if_splits option.splits)
  obtain v where v: "skip_space t = CHR '':'' # v"
    using assms q by (auto split: list.splits if_splits)
  obtain j r0 d ds where j: "parse_value f dep v = Some (j, r0)" "skip_space r0 = d # ds"
    using assms q v by (auto split: list.splits option.splits)
  have "length v < length s"
    using skip_space_length [OF q(1)] lex_string_consumes [OF q(2)] skip_space_length [OF v] by simp
  then show ?thesis
    using assms q v j by (intro that [OF q v _ j skip_space_length [OF j(2)]]) (auto split: if_splits)
qed

lemma parse_consumes:
  "parse_value f dep s = Some (j, r) \<Longrightarrow> length r < length s"
  "parse_elems f dep s = Some (js, r) \<Longrightarrow> length r < length s"
  "parse_members f dep s = Some (kvs, r) \<Longrightarrow> length r < length s"
proof (induction f arbitrary: dep s j r js kvs)
  case (Suc f)
  { case 1
    then show ?case
      by (cases rule: parse_value_SucE) (auto dest!: skip_space_length Suc.IH(2,3))
  next
    case 2
    then show ?case
      by (cases rule: parse_elems_SucE) (auto dest!: Suc.IH(1,2))
  next
    case 3
    then show ?case
      by (cases rule: parse_members_SucE) (auto dest!: Suc.IH(1,3)) }
qed simp_all

text \<open>
  A run that succeeds with some fuel succeeds, with the same result, with as much fuel as it
  consumes input; so the fuel of \<open>json_value\<close> never cuts a run short.
\<close>

lemma consumed_fuel: "length r < length s \<Longrightarrow> length s \<le> f + length r \<Longrightarrow> \<exists>f'. f = Suc f'"
  by (cases f) auto

lemma parse_value_fuel_step:
  assumes "parse_value (Suc g) dep s = Some (j, r)" and "length s \<le> Suc f + length r"
    and elems: "\<And>cs js. parse_elems g (dep - 1) cs = Some (js, r) \<Longrightarrow> length cs \<le> f + length r \<Longrightarrow>
      parse_elems f (dep - 1) cs = Some (js, r)"
    and members: "\<And>cs kvs. parse_members g (dep - 1) cs = Some (kvs, r) \<Longrightarrow> length cs \<le> f + length r \<Longrightarrow>
      parse_members f (dep - 1) cs = Some (kvs, r)"
  shows "parse_value (Suc f) dep s = Some (j, r)"
  using assms(1)
proof (cases rule: parse_value_SucE)
  case (3 cs d ds js)
  then show ?thesis using elems [OF 3(5)] skip_space_length [OF 3(1)] assms(2) by simp
next
  case (5 cs d ds kvs)
  then show ?thesis using members [OF 5(5)] skip_space_length [OF 5(1)] assms(2) by simp
qed simp_all

lemma parse_elems_fuel_step:
  assumes "parse_elems (Suc g) dep s = Some (js, r)" and "length s \<le> Suc f + length r"
    and "\<And>j r0. parse_value g dep s = Some (j, r0) \<Longrightarrow> length s \<le> f + length r0 \<Longrightarrow>
      parse_value f dep s = Some (j, r0)"
    and "\<And>ds js. parse_elems g dep ds = Some (js, r) \<Longrightarrow> length ds \<le> f + length r \<Longrightarrow>
      parse_elems f dep ds = Some (js, r)"
  shows "parse_elems (Suc f) dep s = Some (js, r)"
  using assms(1)
proof (cases rule: parse_elems_SucE)
  case (1 j r0 d ds)
  have "length r \<le> length ds" using 1(4) by (auto dest: parse_consumes(2))
  then have "parse_value f dep s = Some (j, r0)" using assms(3) [OF 1(1)] 1(3) assms(2) by simp
  then show ?thesis
    using 1 assms(2) assms(4) [of ds] parse_consumes(1) [OF 1(1)] by auto
qed

lemma parse_members_fuel_step:
  assumes "parse_members (Suc g) dep s = Some (kvs, r)" and "length s \<le> Suc f + length r"
    and "\<And>v j r0. parse_value g dep v = Some (j, r0) \<Longrightarrow> length v \<le> f + length r0 \<Longrightarrow>
      parse_value f dep v = Some (j, r0)"
    and "\<And>ds kvs. parse_members g dep ds = Some (kvs, r) \<Longrightarrow> length ds \<le> f + length r \<Longrightarrow>
      parse_members f dep ds = Some (kvs, r)"
  shows "parse_members (Suc f) dep s = Some (kvs, r)"
  using assms(1)
proof (cases rule: parse_members_SucE)
  case (1 qs k t v j r0 d ds)
  have "length r \<le> length ds" using 1(8) by (auto dest: parse_consumes(3))
  then have "parse_value f dep v = Some (j, r0)" using assms(3) [OF 1(5)] 1(4,7) assms(2) by simp
  then show ?thesis
    using 1 assms(2) assms(4) [of ds] parse_consumes(1) [OF 1(5)] by auto
qed

lemma parse_fuel:
  "parse_value g dep s = Some (j, r) \<Longrightarrow> length s \<le> f + length r \<Longrightarrow> parse_value f dep s = Some (j, r)"
  "parse_elems g dep s = Some (js, r) \<Longrightarrow> length s \<le> f + length r \<Longrightarrow> parse_elems f dep s = Some (js, r)"
  "parse_members g dep s = Some (kvs, r) \<Longrightarrow> length s \<le> f + length r \<Longrightarrow> parse_members f dep s = Some (kvs, r)"
proof (induction g arbitrary: dep s j r js kvs f)
  case (Suc g)
  { case 1
    obtain f' where f: "f = Suc f'" using consumed_fuel [OF parse_consumes(1) [OF 1(1)] 1(2)] ..
    from parse_value_fuel_step [OF 1(1) 1(2) [unfolded f]] Suc.IH(2,3) show ?case unfolding f by blast
  next
    case 2
    obtain f' where f: "f = Suc f'" using consumed_fuel [OF parse_consumes(2) [OF 2(1)] 2(2)] ..
    from parse_elems_fuel_step [OF 2(1) 2(2) [unfolded f]] Suc.IH(1,2) show ?case unfolding f by blast
  next
    case 3
    obtain f' where f: "f = Suc f'" using consumed_fuel [OF parse_consumes(3) [OF 3(1)] 3(2)] ..
    from parse_members_fuel_step [OF 3(1) 3(2) [unfolded f]] Suc.IH(1,3) show ?case unfolding f by blast }
qed simp_all

lemma json_value_complete: "parse_value g max_nesting s = Some (j, r) \<Longrightarrow> json_value s = Some (j, r)"
  unfolding json_value_def by (rule parse_fuel(1)) simp_all

subsection \<open>ASCII text\<close>

lemma to_valid_utf8_ascii: "list_all (\<lambda>c. char_code c < 128) s \<Longrightarrow> to_valid_utf8 s = s"
  by (induction s) (simp_all add: rune_len_1 [THEN iffD2])

declare to_valid_utf8.simps(2) [simp del] escape_string.simps(2) [simp del] lex_string.simps(2) [simp del]
  parse_value.simps(2) [simp del] parse_elems.simps(2) [simp del] parse_members.simps(2) [simp del]

end
