(* ===== verification/MetricsModel.thy ===== *)
theory MetricsModel
  imports Json
begin

text \<open>
  The wire model of a metric (\<^verbatim>\<open>src/internal/model/metrics.go\<close>): the struct \<^verbatim>\<open>Metrics\<close> with its two
  pointer fields as options, and what \<^verbatim>\<open>encoding/json\<close> does with it. Encoding follows the struct
  tags: the fields in declaration order, \<^verbatim>\<open>omitempty\<close> on \<open>delta\<close>, \<open>value\<close> and \<open>hash\<close>; a NaN or
  infinite value cannot be encoded. Decoding matches object keys exactly or up to case folding,
  lets the last of several equal keys win, ignores unknown keys, treats \<^verbatim>\<open>null\<close> as absence and
  rejects every value of the wrong type.
\<close>

definition Counter :: string where
  "Counter = ''counter''"

definition Gauge :: string where
  "Gauge = ''gauge''"

record Metrics =
  ID :: string
  MType :: string
  Delta :: "int64 option"
  Value :: "float64 option"
  Hash :: string

definition zero_Metrics :: Metrics where
  "zero_Metrics = \<lparr>ID = [], MType = [], Delta = None, Value = None, Hash = []\<rparr>"

text \<open>The two composite literals the program builds, with the fields it leaves out zero.\<close>

definition gauge_metric :: "string \<Rightarrow> float64 \<Rightarrow> Metrics" where
  "gauge_metric n v = zero_Metrics\<lparr>ID := n, MType := Gauge, Value := Some v\<rparr>"

definition counter_metric :: "string \<Rightarrow> int64 \<Rightarrow> Metrics" where
  "counter_metric n d = zero_Metrics\<lparr>ID := n, MType := Counter, Delta := Some d\<rparr>"

lemma Gauge_Counter [simp]: "Gauge \<noteq> Counter" "Counter \<noteq> Gauge"
  by (simp_all add: Gauge_def Counter_def)

lemma metric_literal_simps [simp]:
  "ID (gauge_metric n v) = n" "MType (gauge_metric n v) = Gauge" "Value (gauge_metric n v) = Some v"
  "Delta (gauge_metric n v) = None" "Hash (gauge_metric n v) = []"
  "ID (counter_metric n d) = n" "MType (counter_metric n d) = Counter"
  "Delta (counter_metric n d) = Some d" "Value (counter_metric n d) = None" "Hash (counter_metric n d) = []"
  by (simp_all add: gauge_metric_def counter_metric_def zero_Metrics_def)

subsection \<open>Encoding\<close>

definition json_value_field :: "float64 option \<Rightarrow> (string \<times> json) list option" where
  "json_value_field v =
     (case v of
        None \<Rightarrow> Some []
      | Some x \<Rightarrow> map_option (\<lambda>s. [(''value'', JNum s)]) (json_float x))"

definition metrics_json :: "Metrics \<Rightarrow> json option" where
  "metrics_json m =
     map_option
       (\<lambda>vs. JObj
          ([(''id'', JStr (ID m)), (''type'', JStr (MType m))] @
           (case Delta m of None \<Rightarrow> [] | Some d \<Rightarrow> [(''delta'', JNum (FormatInt d))]) @
           vs @
           (if Hash m = [] then [] else [(''hash'', JStr (Hash m))])))
       (json_value_field (Value m))"

text \<open>\<^verbatim>\<open>json.Marshal\<close> of one metric and of a non-nil slice of metrics; the error is that of a NaN or an infinity.\<close>

definition json_marshal_error :: goerr where
  "json_marshal_error = LibError ''json: unsupported value''"

definition metrics_Marshal :: "Metrics \<Rightarrow> goerr + bytes" where
  "metrics_Marshal m =
     (case metrics_json m of None \<Rightarrow> Inl json_marshal_error | Some j \<Rightarrow> Inr (json_print j))"

definition metrics_list_Marshal :: "Metrics list \<Rightarrow> goerr + bytes" where
  "metrics_list_Marshal ms =
     (case those (map metrics_json ms) of
        None \<Rightarrow> Inl json_marshal_error
      | Some js \<Rightarrow> Inr (json_print (JArr js)))"

subsection \<open>Decoding\<close>

text \<open>Each field decoder gets the field's current value and gives the new one, or None for a type error.\<close>

fun decode_string :: "json \<Rightarrow> string \<Rightarrow> string option" where
  "decode_string (JStr s) _ = Some s"
| "decode_string JNull cur = Some cur"
| "decode_string _ _ = None"

fun decode_int64_ptr :: "json \<Rightarrow> int64 option option" where
  "decode_int64_ptr JNull = Some None"
| "decode_int64_ptr (JNum s) = (case ParseInt s of Inl _ \<Rightarrow> None | Inr v \<Rightarrow> Some (Some v))"
| "decode_int64_ptr _ = None"

fun decode_float64_ptr :: "json \<Rightarrow> float64 option option" where
  "decode_float64_ptr JNull = Some None"
| "decode_float64_ptr (JNum s) = (case ParseFloat s of Inl _ \<Rightarrow> None | Inr v \<Rightarrow> Some (Some v))"
| "decode_float64_ptr _ = None"

definition field_name :: "string \<Rightarrow> string" where
  "field_name k =
     (if k \<in> {''id'', ''type'', ''delta'', ''value'', ''hash''} then k else fold_case k)"

definition decode_member :: "Metrics \<Rightarrow> string \<Rightarrow> json \<Rightarrow> Metrics option" where
  "decode_member m k j =
     (let n = field_name k
      in if n = ''id'' then map_option (\<lambda>s. m\<lparr>ID := s\<rparr>) (decode_string j (ID m))
         else if n = ''type'' then map_option (\<lambda>s. m\<lparr>MType := s\<rparr>) (decode_string j (MType m))
         else if n = ''delta'' then map_option (\<lambda>d. m\<lparr>Delta := d\<rparr>) (decode_int64_ptr j)
         else if n = ''value'' then map_option (\<lambda>v. m\<lparr>Value := v\<rparr>) (decode_float64_ptr j)
         else if n = ''hash'' then map_option (\<lambda>s. m\<lparr>Hash := s\<rparr>) (decode_string j (Hash m))
         else Some m)"

fun decode_members :: "Metrics \<Rightarrow> (string \<times> json) list \<Rightarrow> Metrics option" where
  "decode_members m [] = Some m"
| "decode_members m ((k, j) # kvs) =
     (case decode_member m k j of None \<Rightarrow> None | Some m' \<Rightarrow> decode_members m' kvs)"

fun metrics_of_json :: "json \<Rightarrow> Metrics option" where
  "metrics_of_json JNull = Some zero_Metrics"
| "metrics_of_json (JObj kvs) = decode_members zero_Metrics kvs"
| "metrics_of_json _ = None"

fun metrics_list_of_json :: "json \<Rightarrow> Metrics list option" where
  "metrics_list_of_json JNull = Some []"
| "metrics_list_of_json (JArr js) = those (map metrics_of_json js)"
| "metrics_list_of_json _ = None"

subsection \<open>Round trip\<close>

definition sanitize_metric :: "Metrics \<Rightarrow> Metrics" where
  "sanitize_metric m =
     m\<lparr>ID := to_valid_utf8 (ID m), MType := to_valid_utf8 (MType m), Hash := to_valid_utf8 (Hash m)\<rparr>"

lemma lex_number_head:
  assumes "\<And>r. ends_token r \<Longrightarrow> lex_number (s @ r) = Some (s, r)"
  shows "s \<noteq> []" "hd s = CHR ''-'' \<or> is_digit (hd s)"
proof -
  have l: "lex_number s = Some (s, [])" using assms [of "[]"] by simp
  then show ne: "s \<noteq> []" using lex_number_consumes by force
  show "hd s = CHR ''-'' \<or> is_digit (hd s)"
  proof (cases s)
    case (Cons c cs)
    show ?thesis
    proof (rule ccontr)
      assume "\<not> ?thesis"
      then have "c \<noteq> CHR ''-''" "take_digits s = ([], s)" using Cons by simp_all
      then show False using l Cons by (simp add: lex_number_def lex_int_part_def)
    qed
  qed (use ne in simp)
qed

lemma json_numbers_ok_JNum:
  "(\<And>r. ends_token r \<Longrightarrow> lex_number (s @ r) = Some (s, r)) \<Longrightarrow> json_numbers_ok (JNum s)"
  using lex_number_head [of s] by simp

lemma json_numbers_FormatInt: "json_numbers_ok (JNum (FormatInt d))"
  by (rule json_numbers_ok_JNum) (simp add: FormatInt_def lex_number_format_int)

lemma json_numbers_float: "json_float x = Some s \<Longrightarrow> json_numbers_ok (JNum s)"
  by (rule json_numbers_ok_JNum) (rule lex_number_json_float)

lemma metrics_json_ok:
  "metrics_json m = Some j \<Longrightarrow> json_numbers_ok j \<and> json_depth j = 1"
  by (auto simp: metrics_json_def json_value_field_def json_numbers_FormatInt
      split: option.splits dest!: json_numbers_float simp del: json_numbers_ok.simps(1))

lemma fold_case_names [simp]:
  "field_name ''id'' = ''id''" "field_name ''type'' = ''type''" "field_name ''delta'' = ''delta''"
  "field_name ''value'' = ''value''" "field_name ''hash'' = ''hash''"
  by (simp_all add: field_name_def)

lemma field_names_valid [simp]:
  "to_valid_utf8 ''id'' = ''id''" "to_valid_utf8 ''type'' = ''type''" "to_valid_utf8 ''delta'' = ''delta''"
  "to_valid_utf8 ''value'' = ''value''" "to_valid_utf8 ''hash'' = ''hash''"
  "to_valid_utf8 Gauge = Gauge" "to_valid_utf8 Counter = Counter"
  by (simp_all add: to_valid_utf8_ascii Gauge_def Counter_def)

lemma metrics_of_json_sanitize:
  assumes "metrics_json m = Some j"
  shows "metrics_of_json (json_sanitize j) = Some (sanitize_metric m)"
proof -
  obtain vs where vs: "json_value_field (Value m) = Some vs"
    using assms by (auto simp: metrics_json_def)
  have v: "decode_members x (map (\<lambda>kv. (to_valid_utf8 (fst kv), json_sanitize (snd kv))) vs @ r) =
      decode_members (case Value m of None \<Rightarrow> x | Some y \<Rightarrow> x\<lparr>Value := Some y\<rparr>) r" for x r
    using vs by (auto simp: json_value_field_def decode_member_def Let_def ParseFloat_json_float split: option.splits)
  show ?thesis
    using assms vs v [of _ "[]"]
    by (cases m; cases "Delta m"; cases "Value m"; cases "Hash m = []")
      (auto simp: metrics_json_def v decode_member_def Let_def sanitize_metric_def zero_Metrics_def)
qed

lemma metrics_json_None: "metrics_json m = None \<longleftrightarrow> (\<exists>v. Value m = Some v \<and> \<not> is_finite v)"
  by (auto simp: metrics_json_def json_value_field_def json_float_None split: option.splits)

lemma metrics_Marshal_cases:
  obtains (err) v where "Value m = Some v" "\<not> is_finite v" "metrics_Marshal m = Inl json_marshal_error"
  | (ok) j where "metrics_json m = Some j" "metrics_Marshal m = Inr (json_print j)"
  using metrics_json_None [of m] by (cases "metrics_json m") (auto simp: metrics_Marshal_def)

lemma those_Some_iff: "those xs = Some ys \<longleftrightarrow> xs = map Some ys"
proof (induction xs arbitrary: ys)
  case (Cons x xs)
  then show ?case by (cases ys) (auto split: option.splits)
qed auto

lemma those_None_iff: "those xs = None \<longleftrightarrow> None \<in> set xs"
  by (induction xs) (auto split: option.splits)

lemma those_map_Some: "(\<And>x. x \<in> set xs \<Longrightarrow> f x = Some (g x)) \<Longrightarrow> those (map f xs) = Some (map g xs)"
  by (simp add: those_Some_iff)

lemma metrics_list_json_ok:
  assumes "those (map metrics_json ms) = Some js"
  shows "json_numbers_ok (JArr js)" "json_depth (JArr js) \<le> max_nesting"
    "those (map metrics_of_json (map json_sanitize js)) = Some (map sanitize_metric ms)"
proof -
  have js: "length js = length ms" "\<And>i. i < length ms \<Longrightarrow> metrics_json (ms ! i) = Some (js ! i)"
    using assms by (auto simp: those_Some_iff dest: map_eq_imp_length_eq) (metis nth_map map_eq_imp_length_eq)
  then have ok: "json_numbers_ok j \<and> json_depth j = 1" if "j \<in> set js" for j
    using that metrics_json_ok by (metis in_set_conv_nth)
  then show "json_numbers_ok (JArr js)" by simp
  have "\<forall>j \<in> set js. json_depth j \<le> 9999" using ok by simp
  then show "json_depth (JArr js) \<le> max_nesting" by (simp add: max_nesting_def)
  show "those (map metrics_of_json (map json_sanitize js)) = Some (map sanitize_metric ms)"
    unfolding those_Some_iff using js metrics_of_json_sanitize by (auto intro!: nth_equalityI)
qed

text \<open>One metric, decoded from its own encoding by a request handler or a client.\<close>

lemma metrics_Marshal_decode:
  assumes "metrics_Marshal m = Inr bs" and "ends_token r"
  shows "Option.bind (json_Decode (bs @ r)) metrics_of_json = Some (sanitize_metric m)"
proof (cases rule: metrics_Marshal_cases [of m])
  case (ok j)
  then have "json_Decode (bs @ r) = Some (json_sanitize j)"
    using assms metrics_json_ok [OF ok(1)] by (simp add: json_Decode_print max_nesting_def)
  then show ?thesis using metrics_of_json_sanitize [OF ok(1)] by simp
qed (use assms(1) in simp)

text \<open>A batch, by either entry point of the decoder.\<close>

lemma metrics_list_Marshal_decode:
  assumes "metrics_list_Marshal ms = Inr bs"
  shows "Option.bind (json_Unmarshal bs) metrics_list_of_json = Some (map sanitize_metric ms)"
    and "ends_token r \<Longrightarrow> Option.bind (json_Decode (bs @ r)) metrics_list_of_json = Some (map sanitize_metric ms)"
proof -
  obtain js where js: "those (map metrics_json ms) = Some js" and bs: "bs = json_print (JArr js)"
    using assms by (auto simp: metrics_list_Marshal_def split: option.splits)
  note ok = metrics_list_json_ok [OF js]
  show "Option.bind (json_Unmarshal bs) metrics_list_of_json = Some (map sanitize_metric ms)"
    using json_Unmarshal_print [OF ok(1,2)] ok(3) bs by (simp add: comp_def)
  show "ends_token r \<Longrightarrow> Option.bind (json_Decode (bs @ r)) metrics_list_of_json = Some (map sanitize_metric ms)"
    using json_Decode_print [OF ok(1,2), of r] ok(3) bs by (simp add: comp_def)
qed

lemma metrics_list_Marshal_error:
  "metrics_list_Marshal ms = Inl e \<longleftrightarrow>
     e = json_marshal_error \<and> (\<exists>m \<in> set ms. \<exists>v. Value m = Some v \<and> \<not> is_finite v)"
  by (auto simp: metrics_list_Marshal_def those_None_iff metrics_json_None image_iff split: option.splits)
     (metis metrics_json_None option.simps(3) those_None_iff image_eqI list.set_map)+

lemma sanitize_metric_id [simp]: "utf8_valid (ID m) \<Longrightarrow> utf8_valid (MType m) \<Longrightarrow> utf8_valid (Hash m) \<Longrightarrow> sanitize_metric m = m"
  by (cases m) (simp add: sanitize_metric_def utf8_valid_def)

lemma sanitize_literals [simp]:
  "sanitize_metric (gauge_metric n v) = gauge_metric (to_valid_utf8 n) v"
  "sanitize_metric (counter_metric n d) = counter_metric (to_valid_utf8 n) d"
  by (simp_all add: sanitize_metric_def gauge_metric_def counter_metric_def zero_Metrics_def)

end
