(* ===== verification/Storage.thy ===== *)
theory Storage
  imports MetricsModel
begin

text \<open>
  The interface \<^verbatim>\<open>MetricsStorage\<close> between the metrics service and its storages
  (\<^verbatim>\<open>src/internal/server/service/metrics.go\<close>), and the contract the clients of a storage rely on.

  An interface is a record of operations on a state \<open>'s\<close>; every operation gives its results and
  the new state. The \<^verbatim>\<open>context\<close> arguments are left out: their only effect is an error result of a
  storage that does input and output. A batch update can panic (a \<^verbatim>\<open>nil\<close> pointer is followed when
  a metric has no value), so its result is an \<open>outcome\<close>.

  The contract is stated against an abstract view, the two maps a client can observe: locale
  \<open>metrics_storage\<close> says what a call that succeeds does to the view, locale \<open>reliable_storage\<close>
  that calls do succeed.
\<close>

type_synonym gauge_map = "string \<rightharpoonup> float64"
type_synonym counter_map = "string \<rightharpoonup> int64"
type_synonym 's Snapshotter = "'s \<Rightarrow> (goerr + gauge_map \<times> counter_map) \<times> 's"

record 's MetricsStorage =
  UpdateGauge :: "string \<Rightarrow> float64 \<Rightarrow> 's \<Rightarrow> goerr option \<times> 's"
  UpdateCounter :: "string \<Rightarrow> int64 \<Rightarrow> 's \<Rightarrow> (goerr + int64) \<times> 's"
  UpdateMetrics :: "Metrics list \<Rightarrow> 's \<Rightarrow> goerr option outcome \<times> 's"
  GetGauge :: "string \<Rightarrow> 's \<Rightarrow> (goerr + float64) \<times> 's"
  GetCounter :: "string \<Rightarrow> 's \<Rightarrow> (goerr + int64) \<times> 's"
  Snapshot :: "'s Snapshotter"

text \<open>The same storage seen from a world that has another component \<open>'f\<close> beside it.\<close>

definition lift_storage :: "'s MetricsStorage \<Rightarrow> ('s \<times> 'f) MetricsStorage" where
  "lift_storage st =
     \<lparr>UpdateGauge = (\<lambda>n v (s, f). case UpdateGauge st n v s of (r, s') \<Rightarrow> (r, s', f)),
      UpdateCounter = (\<lambda>n d (s, f). case UpdateCounter st n d s of (r, s') \<Rightarrow> (r, s', f)),
      UpdateMetrics = (\<lambda>ms (s, f). case UpdateMetrics st ms s of (r, s') \<Rightarrow> (r, s', f)),
      GetGauge = (\<lambda>n (s, f). case GetGauge st n s of (r, s') \<Rightarrow> (r, s', f)),
      GetCounter = (\<lambda>n (s, f). case GetCounter st n s of (r, s') \<Rightarrow> (r, s', f)),
      Snapshot = (\<lambda>(s, f). case Snapshot st s of (r, s') \<Rightarrow> (r, s', f))\<rparr>"

lemma lift_storage_sel:
  "UpdateGauge (lift_storage st) n v w = (fst (UpdateGauge st n v (fst w)), snd (UpdateGauge st n v (fst w)), snd w)"
  "UpdateCounter (lift_storage st) n d w = (fst (UpdateCounter st n d (fst w)), snd (UpdateCounter st n d (fst w)), snd w)"
  "UpdateMetrics (lift_storage st) ms w = (fst (UpdateMetrics st ms (fst w)), snd (UpdateMetrics st ms (fst w)), snd w)"
  "GetGauge (lift_storage st) n w = (fst (GetGauge st n (fst w)), snd (GetGauge st n (fst w)), snd w)"
  "GetCounter (lift_storage st) n w = (fst (GetCounter st n (fst w)), snd (GetCounter st n (fst w)), snd w)"
  "Snapshot (lift_storage st) w = (fst (Snapshot st (fst w)), snd (Snapshot st (fst w)), snd w)"
  by (cases w; simp add: lift_storage_def split: prod.splits)+

subsection \<open>The abstract view\<close>

record metrics_view =
  vgauges :: gauge_map
  vcounters :: counter_map

definition view_gauge :: "string \<Rightarrow> float64 \<Rightarrow> metrics_view \<Rightarrow> metrics_view" where
  "view_gauge n v w = w\<lparr>vgauges := (vgauges w)(n \<mapsto> v)\<rparr>"

definition counter_total :: "counter_map \<Rightarrow> string \<Rightarrow> int64" where
  "counter_total m n = (case m n of None \<Rightarrow> 0 | Some v \<Rightarrow> v)"

definition view_counter :: "string \<Rightarrow> int64 \<Rightarrow> metrics_view \<Rightarrow> metrics_view" where
  "view_counter n d w = w\<lparr>vcounters := (vcounters w)(n \<mapsto> counter_total (vcounters w) n + d)\<rparr>"

definition complete_metric :: "Metrics \<Rightarrow> bool" where
  "complete_metric m \<longleftrightarrow>
     MType m = Gauge \<and> Value m \<noteq> None \<or> MType m = Counter \<and> Delta m \<noteq> None"

definition view_metric :: "Metrics \<Rightarrow> metrics_view \<Rightarrow> metrics_view" where
  "view_metric m w =
     (if MType m = Gauge then view_gauge (ID m) (the (Value m)) w
      else if MType m = Counter then view_counter (ID m) (the (Delta m)) w
      else w)"

definition view_metrics :: "Metrics list \<Rightarrow> metrics_view \<Rightarrow> metrics_view" where
  "view_metrics ms w = fold view_metric ms w"

lemma complete_metric_literals [simp]:
  "complete_metric (gauge_metric n v)" "complete_metric (counter_metric n d)"
  by (simp_all add: complete_metric_def)

lemma view_sel [simp]:
  "vgauges (view_gauge n v w) = (vgauges w)(n \<mapsto> v)" "vcounters (view_gauge n v w) = vcounters w"
  "vgauges (view_counter n d w) = vgauges w"
  "vcounters (view_counter n d w) = (vcounters w)(n \<mapsto> counter_total (vcounters w) n + d)"
  by (simp_all add: view_gauge_def view_counter_def)

lemma view_metric_literals [simp]:
  "view_metric (gauge_metric n v) w = view_gauge n v w"
  "view_metric (counter_metric n d) w = view_counter n d w"
  by (simp_all add: view_metric_def)

lemma view_metrics_simps [simp]:
  "view_metrics [] w = w" "view_metrics (m # ms) w = view_metrics ms (view_metric m w)"
  "view_metrics (ms @ ms') w = view_metrics ms' (view_metrics ms w)"
  by (simp_all add: view_metrics_def)

text \<open>What a sequence of updates leaves in one counter and in one gauge.\<close>

definition counter_deltas :: "string \<Rightarrow> Metrics list \<Rightarrow> int64 list" where
  "counter_deltas n ms =
     map (\<lambda>m. the (Delta m)) (filter (\<lambda>m. MType m = Counter \<and> ID m = n) ms)"

definition gauge_values :: "string \<Rightarrow> Metrics list \<Rightarrow> float64 list" where
  "gauge_values n ms =
     map (\<lambda>m. the (Value m)) (filter (\<lambda>m. MType m = Gauge \<and> ID m = n) ms)"

lemma view_metric_counter:
  "vcounters (view_metric m w) n =
     (if MType m = Counter \<and> ID m = n then Some (counter_total (vcounters w) n + the (Delta m))
      else vcounters w n)"
  by (auto simp: view_metric_def)

lemma view_metrics_counter:
  "vcounters (view_metrics ms w) n =
     (if counter_deltas n ms = [] then vcounters w n
      else Some (counter_total (vcounters w) n + sum_list (counter_deltas n ms)))"
proof (induction ms arbitrary: w)
  case (Cons m ms)
  then show ?case
    by (auto simp: view_metric_counter counter_deltas_def counter_total_def add.assoc)
qed (simp add: counter_deltas_def)

lemma view_metrics_gauge:
  "vgauges (view_metrics ms w) n =
     (if gauge_values n ms = [] then vgauges w n else Some (last (gauge_values n ms)))"
proof (induction ms arbitrary: w)
  case (Cons m ms)
  then show ?case by (auto simp: view_metric_def gauge_values_def)
qed (simp add: gauge_values_def)

lemma view_metric_dom:
  "finite (dom (vgauges (view_metric m w))) \<longleftrightarrow> finite (dom (vgauges w))"
  "finite (dom (vcounters (view_metric m w))) \<longleftrightarrow> finite (dom (vcounters w))"
  by (auto simp: view_metric_def)

lemma view_metrics_dom:
  "finite (dom (vgauges (view_metrics ms w))) \<longleftrightarrow> finite (dom (vgauges w))"
  "finite (dom (vcounters (view_metrics ms w))) \<longleftrightarrow> finite (dom (vcounters w))"
  by (induction ms arbitrary: w) (simp_all add: view_metric_dom)

subsection \<open>The contract\<close>

locale metrics_storage =
  fixes st :: "'s MetricsStorage"
    and view :: "'s \<Rightarrow> metrics_view"
    and invar :: "'s \<Rightarrow> bool"
  assumes UpdateGauge_invar: "invar s \<Longrightarrow> UpdateGauge st n v s = (eo, s') \<Longrightarrow> invar s'"
    and UpdateGauge_ok:
      "invar s \<Longrightarrow> UpdateGauge st n v s = (None, s') \<Longrightarrow> view s' = view_gauge n v (view s)"
    and UpdateCounter_invar: "invar s \<Longrightarrow> UpdateCounter st n d s = (r, s') \<Longrightarrow> invar s'"
    and UpdateCounter_ok:
      "invar s \<Longrightarrow> UpdateCounter st n d s = (Inr t, s') \<Longrightarrow>
         view s' = view_counter n d (view s) \<and> vcounters (view s') n = Some t"
    and UpdateMetrics_invar:
      "invar s \<Longrightarrow> list_all complete_metric ms \<Longrightarrow> UpdateMetrics st ms s = (ro, s') \<Longrightarrow> invar s' \<and> returns ro"
    and UpdateMetrics_ok:
      "invar s \<Longrightarrow> list_all complete_metric ms \<Longrightarrow> UpdateMetrics st ms s = (Return None, s') \<Longrightarrow>
         view s' = view_metrics ms (view s)"
    and GetGauge_keeps: "invar s \<Longrightarrow> GetGauge st n s = (rg, s') \<Longrightarrow> invar s' \<and> view s' = view s"
    and GetGauge_ok: "invar s \<Longrightarrow> GetGauge st n s = (Inr v, s') \<Longrightarrow> vgauges (view s) n = Some v"
    and GetGauge_missing:
      "invar s \<Longrightarrow> GetGauge st n s = (Inl e, s') \<Longrightarrow> errors_Is e ErrMetricNotFound \<Longrightarrow> vgauges (view s) n = None"
    and GetCounter_keeps: "invar s \<Longrightarrow> GetCounter st n s = (r, s') \<Longrightarrow> invar s' \<and> view s' = view s"
    and GetCounter_ok: "invar s \<Longrightarrow> GetCounter st n s = (Inr t, s') \<Longrightarrow> vcounters (view s) n = Some t"
    and GetCounter_missing:
      "invar s \<Longrightarrow> GetCounter st n s = (Inl e, s') \<Longrightarrow> errors_Is e ErrMetricNotFound \<Longrightarrow> vcounters (view s) n = None"
    and Snapshot_keeps: "invar s \<Longrightarrow> Snapshot st s = (rs, s') \<Longrightarrow> invar s' \<and> view s' = view s"
    and Snapshot_ok:
      "invar s \<Longrightarrow> Snapshot st s = (Inr (g, c), s') \<Longrightarrow> g = vgauges (view s) \<and> c = vcounters (view s)"
    and view_finite: "invar s \<Longrightarrow> finite (dom (vgauges (view s))) \<and> finite (dom (vcounters (view s)))"
begin

text \<open>A value written with success is the value read next.\<close>

lemma gauge_read_back:
  assumes "invar s" and "UpdateGauge st n v s = (None, s1)" and "GetGauge st n s1 = (Inr x, s2)"
  shows "x = v"
  using assms UpdateGauge_ok [OF assms(1,2)] GetGauge_ok [OF UpdateGauge_invar [OF assms(1,2)] assms(3)]
  by simp

lemma gauge_not_missing:
  assumes "invar s" and "UpdateGauge st n v s = (None, s1)" and "GetGauge st n s1 = (Inl e, s2)"
  shows "\<not> errors_Is e ErrMetricNotFound"
  using assms UpdateGauge_ok [OF assms(1,2)] GetGauge_missing [OF UpdateGauge_invar [OF assms(1,2)] assms(3)]
  by auto

lemma counter_read_back:
  assumes "invar s" and "UpdateCounter st n d s = (Inr t, s1)" and "GetCounter st n s1 = (Inr x, s2)"
  shows "x = t" and "t = counter_total (vcounters (view s)) n + d"
  using UpdateCounter_ok [OF assms(1,2)] GetCounter_ok [OF UpdateCounter_invar [OF assms(1,2)] assms(3)]
  by simp_all

text \<open>The contract holds for the same storage in a larger world.\<close>

lemma lift_metrics_storage:
  "metrics_storage (lift_storage st) (\<lambda>w. view (fst w)) (\<lambda>w. invar (fst w))"
  by unfold_locales
    (force simp: lift_storage_sel prod_eq_iff dest: UpdateGauge_invar UpdateGauge_ok UpdateCounter_invar
      UpdateCounter_ok UpdateMetrics_invar UpdateMetrics_ok GetGauge_keeps GetGauge_ok GetGauge_missing
      GetCounter_keeps GetCounter_ok GetCounter_missing Snapshot_keeps Snapshot_ok view_finite)+

end

text \<open>A storage that keeps its promises without ever failing.\<close>

locale reliable_storage = metrics_storage +
  assumes UpdateGauge_total: "invar s \<Longrightarrow> fst (UpdateGauge st n v s) = None"
    and UpdateCounter_total: "invar s \<Longrightarrow> \<exists>t. fst (UpdateCounter st n d s) = Inr t"
    and UpdateMetrics_total:
      "invar s \<Longrightarrow> list_all complete_metric ms \<Longrightarrow> fst (UpdateMetrics st ms s) = Return None"
    and GetGauge_total: "invar s \<Longrightarrow> fst (GetGauge st n s) = Inl e \<Longrightarrow> e = ErrMetricNotFound"
    and GetCounter_total: "invar s \<Longrightarrow> fst (GetCounter st n s) = Inl e \<Longrightarrow> e = ErrMetricNotFound"
    and Snapshot_total: "invar s \<Longrightarrow> \<exists>g c. fst (Snapshot st s) = Inr (g, c)"
begin

lemma UpdateGauge_eq:
  assumes "invar s"
  obtains s' where "UpdateGauge st n v s = (None, s')" "invar s'" "view s' = view_gauge n v (view s)"
  using UpdateGauge_total [OF assms, of n v] UpdateGauge_ok [OF assms, of n v]
    UpdateGauge_invar [OF assms, of n v]
  by (cases "UpdateGauge st n v s") auto

lemma UpdateCounter_eq:
  assumes "invar s"
  obtains s' where "UpdateCounter st n d s = (Inr (counter_total (vcounters (view s)) n + d), s')"
    "invar s'" "view s' = view_counter n d (view s)"
  using UpdateCounter_total [OF assms, of n d] UpdateCounter_ok [OF assms, of n d]
    UpdateCounter_invar [OF assms, of n d]
  by (cases "UpdateCounter st n d s") force

lemma UpdateMetrics_eq:
  assumes "invar s" and "list_all complete_metric ms"
  obtains s' where "UpdateMetrics st ms s = (Return None, s')" "invar s'" "view s' = view_metrics ms (view s)"
  using UpdateMetrics_total [OF assms] UpdateMetrics_ok [OF assms] UpdateMetrics_invar [OF assms]
  by (cases "UpdateMetrics st ms s") auto

lemma GetGauge_eq:
  assumes "invar s"
  obtains s' where
    "GetGauge st n s = ((case vgauges (view s) n of None \<Rightarrow> Inl ErrMetricNotFound | Some v \<Rightarrow> Inr v), s')"
    "invar s'" "view s' = view s"
proof -
  obtain r s' where g: "GetGauge st n s = (r, s')" by force
  show ?thesis
    using that [of s'] g GetGauge_keeps [OF assms g] GetGauge_ok [OF assms, of n] GetGauge_missing [OF assms, of n]
      GetGauge_total [OF assms, of n]
    by (cases r) force+
qed

lemma GetCounter_eq:
  assumes "invar s"
  obtains s' where
    "GetCounter st n s = ((case vcounters (view s) n of None \<Rightarrow> Inl ErrMetricNotFound | Some t \<Rightarrow> Inr t), s')"
    "invar s'" "view s' = view s"
proof -
  obtain r s' where g: "GetCounter st n s = (r, s')" by force
  show ?thesis
    using that [of s'] g GetCounter_keeps [OF assms g] GetCounter_ok [OF assms, of n] GetCounter_missing [OF assms, of n]
      GetCounter_total [OF assms, of n]
    by (cases r) force+
qed

lemma Snapshot_eq:
  assumes "invar s"
  obtains s' where "Snapshot st s = (Inr (vgauges (view s), vcounters (view s)), s')" "invar s'" "view s' = view s"
proof -
  from Snapshot_total [OF assms] obtain g c s' where g: "Snapshot st s = (Inr (g, c), s')"
    by (metis prod.collapse)
  then show ?thesis using that [of s'] Snapshot_ok [OF assms g] Snapshot_keeps [OF assms g] by simp
qed

lemma lift_reliable_storage:
  "reliable_storage (lift_storage st) (\<lambda>w. view (fst w)) (\<lambda>w. invar (fst w))"
  by (intro reliable_storage.intro lift_metrics_storage reliable_storage_axioms.intro)
    (simp_all add: lift_storage_sel UpdateGauge_total UpdateCounter_total UpdateMetrics_total
      GetGauge_total GetCounter_total Snapshot_total)

end

subsection \<open>Iteration orders\<close>

text \<open>
  The order in which a \<^verbatim>\<open>range\<close> loop visits a map is a parameter of every operation that has such
  a loop; \<open>fair_order\<close> says that it visits each entry of a finite map exactly once.
\<close>

type_synonym 'v range_order = "(string \<rightharpoonup> 'v) \<Rightarrow> (string \<times> 'v) list"

definition fair_order :: "'v range_order \<Rightarrow> bool" where
  "fair_order ord \<longleftrightarrow> (\<forall>m. finite (dom m) \<longrightarrow> enumerates (ord m) m)"

definition copy_map :: "(string \<times> 'v) list \<Rightarrow> (string \<rightharpoonup> 'v)" where
  "copy_map kvs = fold (\<lambda>(k, v) m. m(k \<mapsto> v)) kvs Map.empty"

lemma copy_map_enumerates: "enumerates kvs m \<Longrightarrow> copy_map kvs = m"
  using fold_upd_map_of [of kvs Map.empty] by (simp add: copy_map_def enumerates_def)

end
