(* ===== verification/MemStorage.thy ===== *)
theory MemStorage
  imports Storage
begin

text \<open>
  The in-memory storage (\<^verbatim>\<open>src/internal/repository/memstorage.go\<close>). Every method of the code holds
  the storage's lock from its first to its last statement, so a method is one atomic step on the
  record of the two maps. The storage meets both contracts, and the total it keeps of a counter
  does not depend on the order in which concurrent increments are serialised.
\<close>

record MemStorage =
  gauges :: gauge_map
  counters :: counter_map

definition NewMemStorage :: MemStorage where
  "NewMemStorage = \<lparr>gauges = Map.empty, counters = Map.empty\<rparr>"

definition MemStorage_UpdateGauge :: "string \<Rightarrow> float64 \<Rightarrow> MemStorage \<Rightarrow> goerr option \<times> MemStorage" where
  "MemStorage_UpdateGauge metricName value m =
     (None, m\<lparr>gauges := (gauges m)(metricName \<mapsto> value)\<rparr>)"

text \<open>Reading a missing key of a Go map gives the zero value, and \<open>+\<close> wraps.\<close>

definition MemStorage_UpdateCounter :: "string \<Rightarrow> int64 \<Rightarrow> MemStorage \<Rightarrow> (goerr + int64) \<times> MemStorage" where
  "MemStorage_UpdateCounter metricName delta m =
     (let m' = m\<lparr>counters := (counters m)(metricName \<mapsto> counter_total (counters m) metricName + delta)\<rparr>
      in (Inr (counter_total (counters m') metricName), m'))"

definition nil_pointer :: string where
  "nil_pointer = ''invalid memory address or nil pointer dereference''"

text \<open>The loop of \<open>UpdateMetrics\<close>; a panic leaves the updates made so far and releases the lock.\<close>

fun MemStorage_UpdateMetrics :: "Metrics list \<Rightarrow> MemStorage \<Rightarrow> goerr option outcome \<times> MemStorage" where
  "MemStorage_UpdateMetrics [] m = (Return None, m)"
| "MemStorage_UpdateMetrics (metric # metrics) m =
     (if MType metric = Gauge then
        (case Value metric of
           None \<Rightarrow> (Panic nil_pointer, m)
         | Some v \<Rightarrow> MemStorage_UpdateMetrics metrics (m\<lparr>gauges := (gauges m)(ID metric \<mapsto> v)\<rparr>))
      else if MType metric = Counter then
        (case Delta metric of
           None \<Rightarrow> (Panic nil_pointer, m)
         | Some d \<Rightarrow>
             MemStorage_UpdateMetrics metrics
               (m\<lparr>counters := (counters m)(ID metric \<mapsto> counter_total (counters m) (ID metric) + d)\<rparr>))
      else MemStorage_UpdateMetrics metrics m)"

definition MemStorage_GetGauge :: "string \<Rightarrow> MemStorage \<Rightarrow> goerr + float64" where
  "MemStorage_GetGauge metricName m =
     (case gauges m metricName of None \<Rightarrow> Inl ErrMetricNotFound | Some value \<Rightarrow> Inr value)"

definition MemStorage_GetCounter :: "string \<Rightarrow> MemStorage \<Rightarrow> goerr + int64" where
  "MemStorage_GetCounter metricName m =
     (case counters m metricName of None \<Rightarrow> Inl ErrMetricNotFound | Some t \<Rightarrow> Inr t)"

text \<open>
  The two copying loops, for the entries \<open>gs\<close> and \<open>cs\<close> in the order they are visited. The copy
  does not depend on that order, so the interface's \<open>Snapshot\<close> is the pair of maps.
\<close>

definition MemStorage_Snapshot ::
    "(string \<times> float64) list \<Rightarrow> (string \<times> int64) list \<Rightarrow> (goerr + gauge_map \<times> counter_map)" where
  "MemStorage_Snapshot gs cs = Inr (copy_map gs, copy_map cs)"

definition MemStorage_SetGauge :: "string \<Rightarrow> float64 \<Rightarrow> MemStorage \<Rightarrow> MemStorage" where
  "MemStorage_SetGauge metricName value m = m\<lparr>gauges := (gauges m)(metricName \<mapsto> value)\<rparr>"

definition MemStorage_SetCounter :: "string \<Rightarrow> int64 \<Rightarrow> MemStorage \<Rightarrow> MemStorage" where
  "MemStorage_SetCounter metricName delta m = m\<lparr>counters := (counters m)(metricName \<mapsto> delta)\<rparr>"

definition mem_storage :: "MemStorage MetricsStorage" where
  "mem_storage =
     \<lparr>UpdateGauge = MemStorage_UpdateGauge, UpdateCounter = MemStorage_UpdateCounter,
      UpdateMetrics = MemStorage_UpdateMetrics,
      GetGauge = (\<lambda>n m. (MemStorage_GetGauge n m, m)),
      GetCounter = (\<lambda>n m. (MemStorage_GetCounter n m, m)),
      Snapshot = (\<lambda>m. (Inr (gauges m, counters m), m))\<rparr>"

subsection \<open>The contract\<close>

definition mem_view :: "MemStorage \<Rightarrow> metrics_view" where
  "mem_view m = \<lparr>vgauges = gauges m, vcounters = counters m\<rparr>"

definition mem_invar :: "MemStorage \<Rightarrow> bool" where
  "mem_invar m \<longleftrightarrow> finite (dom (gauges m)) \<and> finite (dom (counters m))"

lemma mem_view_sel [simp]: "vgauges (mem_view m) = gauges m" "vcounters (mem_view m) = counters m"
  by (simp_all add: mem_view_def)

lemma NewMemStorage_simps [simp]:
  "gauges NewMemStorage = Map.empty" "counters NewMemStorage = Map.empty" "mem_invar NewMemStorage"
  by (simp_all add: NewMemStorage_def mem_invar_def)

lemma mem_storage_sel [simp, iface_simps]:
  "UpdateGauge mem_storage = MemStorage_UpdateGauge"
  "UpdateCounter mem_storage = MemStorage_UpdateCounter"
  "UpdateMetrics mem_storage = MemStorage_UpdateMetrics"
  "GetGauge mem_storage = (\<lambda>n m. (MemStorage_GetGauge n m, m))"
  "GetCounter mem_storage = (\<lambda>n m. (MemStorage_GetCounter n m, m))"
  "Snapshot mem_storage = (\<lambda>m. (Inr (gauges m, counters m), m))"
  by (simp_all add: mem_storage_def)

lemma mem_UpdateGauge_view: "mem_view (snd (MemStorage_UpdateGauge n v m)) = view_gauge n v (mem_view m)"
  by (simp add: MemStorage_UpdateGauge_def mem_view_def view_gauge_def)

lemma mem_UpdateCounter_view: "mem_view (snd (MemStorage_UpdateCounter n d m)) = view_counter n d (mem_view m)"
  by (simp add: MemStorage_UpdateCounter_def Let_def mem_view_def view_counter_def)

lemma mem_UpdateMetrics_complete:
  "list_all complete_metric ms \<Longrightarrow>
     \<exists>m'. MemStorage_UpdateMetrics ms m = (Return None, m') \<and> mem_view m' = view_metrics ms (mem_view m)"
proof (induction ms arbitrary: m)
  case (Cons x xs)
  then show ?case
    using Cons.IH [of "m\<lparr>gauges := (gauges m)(ID x \<mapsto> the (Value x))\<rparr>"]
      Cons.IH [of "m\<lparr>counters := (counters m)(ID x \<mapsto> counter_total (counters m) (ID x) + the (Delta x))\<rparr>"]
    by (auto simp: complete_metric_def view_metric_def mem_view_def view_gauge_def view_counter_def
        split: option.splits)
qed simp

lemma mem_invar_view:
  "mem_invar m \<longleftrightarrow> finite (dom (vgauges (mem_view m))) \<and> finite (dom (vcounters (mem_view m)))"
  by (simp add: mem_invar_def)

interpretation mem: reliable_storage mem_storage mem_view mem_invar
proof
  fix s :: MemStorage and ms ro s'
  assume inv: "mem_invar s" and ms: "list_all complete_metric ms"
  from mem_UpdateMetrics_complete [OF ms] obtain m' where
    m': "MemStorage_UpdateMetrics ms s = (Return None, m')" "mem_view m' = view_metrics ms (mem_view s)"
    by blast
  { assume "UpdateMetrics mem_storage ms s = (ro, s')"
    with m' inv show "mem_invar s' \<and> returns ro"
      by (auto simp: mem_invar_view view_metrics_dom simp del: mem_view_sel) }
  { assume "UpdateMetrics mem_storage ms s = (Return None, s')"
    with m' show "mem_view s' = view_metrics ms (mem_view s)" by simp }
  show "fst (UpdateMetrics mem_storage ms s) = Return None" using m' by simp
qed (auto simp: MemStorage_UpdateGauge_def MemStorage_UpdateCounter_def MemStorage_GetGauge_def
    MemStorage_GetCounter_def mem_invar_def mem_view_def view_gauge_def view_counter_def
    counter_total_def Let_def split: option.splits if_splits)

lemma MemStorage_Snapshot_copy:
  "enumerates gs (gauges m) \<Longrightarrow> enumerates cs (counters m) \<Longrightarrow>
     MemStorage_Snapshot gs cs = fst (Snapshot mem_storage m)"
  by (simp add: MemStorage_Snapshot_def copy_map_enumerates)

interpretation mem_lifted: reliable_storage
  "lift_storage mem_storage :: (MemStorage \<times> 'f) MetricsStorage" "\<lambda>w. mem_view (fst w)" "\<lambda>w. mem_invar (fst w)"
  by (rule mem.lift_reliable_storage)

subsection \<open>Properties\<close>

lemma mem_UpdateMetrics_counters:
  assumes "list_all complete_metric ms"
  shows "counters (snd (MemStorage_UpdateMetrics ms m)) n =
    (if counter_deltas n ms = [] then counters m n
     else Some (counter_total (counters m) n + sum_list (counter_deltas n ms)))"
  using mem_UpdateMetrics_complete [OF assms, of m] view_metrics_counter [of ms "mem_view m" n]
  by (metis mem_view_sel(2) snd_conv)

text \<open>
  C3: A batch of complete metrics is applied without an error or a panic; afterwards each counter
  holds its old total plus the sum of its increments in the batch, modulo \<open>2^64\<close>, each gauge the
  last value the batch gives it, and everything the batch does not name is unchanged.
\<close>

theorem mem_UpdateMetrics_correct:
  assumes "list_all complete_metric ms"
  shows "\<exists>m'. MemStorage_UpdateMetrics ms m = (Return None, m') \<and>
    (\<forall>n. counters m' n =
       (if counter_deltas n ms = [] then counters m n
        else Some (counter_total (counters m) n + sum_list (counter_deltas n ms)))) \<and>
    (\<forall>n. gauges m' n =
       (if gauge_values n ms = [] then gauges m n else Some (last (gauge_values n ms))))"
  using mem_UpdateMetrics_complete [OF assms, of m] view_metrics_counter [of ms "mem_view m"]
    view_metrics_gauge [of ms "mem_view m"]
  by (metis mem_view_sel)

theorem mem_UpdateMetrics_correct_witness:
  "list_all complete_metric [counter_metric ''c'' 2, gauge_metric ''g'' float_NaN, counter_metric ''c'' 3] \<and>
   (\<exists>m'. MemStorage_UpdateMetrics [counter_metric ''c'' 2, gauge_metric ''g'' float_NaN, counter_metric ''c'' 3]
       NewMemStorage = (Return None, m') \<and> counters m' ''c'' = Some 5 \<and> gauges m' ''g'' = Some float_NaN)"
  using mem_UpdateMetrics_correct
    [of "[counter_metric ''c'' 2, gauge_metric ''g'' float_NaN, counter_metric ''c'' 3]" NewMemStorage]
  by (auto simp: counter_deltas_def gauge_values_def counter_total_def)

text \<open>
  C15: Two clients' increments commute: applying the same complete metrics in any other order
  leaves the same counters, whatever wraps around on the way.
\<close>

theorem mem_counters_order_independent:
  assumes "list_all complete_metric ms" and "mset ms' = mset ms"
  shows "counters (snd (MemStorage_UpdateMetrics ms' m)) = counters (snd (MemStorage_UpdateMetrics ms m))"
proof
  fix n
  have ms': "list_all complete_metric ms'"
    using assms by (metis list.pred_set set_mset_mset)
  have "mset (counter_deltas n ms') = mset (counter_deltas n ms)"
    unfolding counter_deltas_def using assms(2) by (simp add: mset_filter)
  then have "sum_list (counter_deltas n ms') = sum_list (counter_deltas n ms)"
    and "counter_deltas n ms' = [] \<longleftrightarrow> counter_deltas n ms = []"
    by (auto intro: sum_list_perm_word)
  then show "counters (snd (MemStorage_UpdateMetrics ms' m)) n = counters (snd (MemStorage_UpdateMetrics ms m)) n"
    using mem_UpdateMetrics_counters [OF ms'] mem_UpdateMetrics_counters [OF assms(1)] by simp
qed

theorem mem_counters_order_independent_witness:
  "list_all complete_metric [counter_metric ''a'' 1, counter_metric ''b'' 2, counter_metric ''a'' 5] \<and>
   counters (snd (MemStorage_UpdateMetrics [counter_metric ''a'' 5, counter_metric ''a'' 1, counter_metric ''b'' 2] NewMemStorage)) =
   counters (snd (MemStorage_UpdateMetrics [counter_metric ''a'' 1, counter_metric ''b'' 2, counter_metric ''a'' 5] NewMemStorage))"
  using mem_counters_order_independent
    [of "[counter_metric ''a'' 1, counter_metric ''b'' 2, counter_metric ''a'' 5]"
      "[counter_metric ''a'' 5, counter_metric ''a'' 1, counter_metric ''b'' 2]" NewMemStorage]
  by simp

text \<open>
  A batch panics exactly when it has a gauge without a value or a counter without a delta; it
  never returns an error, so the callers' validation is what protects the storage.
\<close>

theorem mem_UpdateMetrics_panics_iff:
  "fst (MemStorage_UpdateMetrics ms m) =
     (if \<exists>x \<in> set ms. MType x = Gauge \<and> Value x = None \<or> MType x = Counter \<and> Delta x = None
      then Panic nil_pointer else Return None)"
  by (induction ms arbitrary: m) (auto split: option.splits)

end
