(* ===== verification/FileStore.thy ===== *)
theory FileStore
  imports MemStorage "HOL-Library.List_Lexorder" "HOL-Library.Char_ord"
begin

text \<open>
  The file persistence of metrics (\<^verbatim>\<open>src/internal/repository/filestore.go\<close>): \<open>Save\<close> writes a
  snapshot of a storage as one JSON array, \<open>Load\<close> reads it back into a storage. The file system is
  a map from paths to contents with, per path, the fault that the operating system answers with.

  The main facts: a file written by \<open>Save\<close> loads to exactly the maps it was written from when the
  metric names are valid UTF-8; a gauge that is not finite makes \<open>Save\<close> fail before it touches the
  file; \<open>Load\<close> either fails without changing the storage or applies the whole file.
\<close>

subsection \<open>Files\<close>

datatype write_fault = OpenFails goerr | WriteFails nat goerr

record filesystem =
  files :: "string \<rightharpoonup> bytes"
  write_faults :: "string \<rightharpoonup> write_fault"
  read_faults :: "string \<rightharpoonup> goerr"

definition empty_fs :: filesystem where
  "empty_fs = \<lparr>files = Map.empty, write_faults = Map.empty, read_faults = Map.empty\<rparr>"

text \<open>\<^verbatim>\<open>os.WriteFile\<close> truncates the file when it opens it, so a fault while writing leaves a part.\<close>

definition os_WriteFile :: "string \<Rightarrow> bytes \<Rightarrow> filesystem \<Rightarrow> goerr option \<times> filesystem" where
  "os_WriteFile path data fs =
     (case write_faults fs path of
        None \<Rightarrow> (None, fs\<lparr>files := (files fs)(path \<mapsto> data)\<rparr>)
      | Some (OpenFails e) \<Rightarrow> (Some e, fs)
      | Some (WriteFails n e) \<Rightarrow> (Some e, fs\<lparr>files := (files fs)(path \<mapsto> take n data)\<rparr>))"

definition os_ReadFile :: "string \<Rightarrow> filesystem \<Rightarrow> goerr + bytes" where
  "os_ReadFile path fs =
     (case read_faults fs path of
        Some e \<Rightarrow> Inl e
      | None \<Rightarrow>
          (case files fs path of
             None \<Rightarrow> Inl (ErrorfW ''open %s: %w'' [FStr path] ErrNotExist)
           | Some data \<Rightarrow> Inr data))"

subsection \<open>The store\<close>

record FileStore =
  path :: string

definition NewFileStore :: "string \<Rightarrow> FileStore" where
  "NewFileStore p = \<lparr>path = p\<rparr>"

text \<open>The slice \<open>Save\<close> builds: the gauges and then the counters, each in the order visited.\<close>

definition snapshot_metrics :: "(string \<times> float64) list \<Rightarrow> (string \<times> int64) list \<Rightarrow> Metrics list" where
  "snapshot_metrics gs cs =
     map (\<lambda>(name, v). gauge_metric name v) gs @ map (\<lambda>(name, v). counter_metric name v) cs"

definition FileStore_Save ::
    "float64 range_order \<Rightarrow> int64 range_order \<Rightarrow> FileStore \<Rightarrow> ('s \<times> filesystem) Snapshotter \<Rightarrow>
       's \<times> filesystem \<Rightarrow> goerr option \<times> 's \<times> filesystem" where
  "FileStore_Save og oc f snapshot w =
     (case snapshot w of
        (Inl err, w') \<Rightarrow> (Some err, w')
      | (Inr (g, c), w') \<Rightarrow>
          (case metrics_list_Marshal (snapshot_metrics (og g) (oc c)) of
             Inl err \<Rightarrow> (Some err, w')
           | Inr data \<Rightarrow>
               (case os_WriteFile (path f) data (snd w') of (err, fs') \<Rightarrow> (err, fst w', fs'))))"

record 's Restorer =
  SetGauge :: "string \<Rightarrow> float64 \<Rightarrow> 's \<Rightarrow> 's"
  SetCounter :: "string \<Rightarrow> int64 \<Rightarrow> 's \<Rightarrow> 's"

definition mem_restorer :: "MemStorage Restorer" where
  "mem_restorer = \<lparr>SetGauge = MemStorage_SetGauge, SetCounter = MemStorage_SetCounter\<rparr>"

fun restore_metrics :: "'s Restorer \<Rightarrow> Metrics list \<Rightarrow> 's \<Rightarrow> 's" where
  "restore_metrics repo [] s = s"
| "restore_metrics repo (metric # metrics) s =
     restore_metrics repo metrics
       (if MType metric = Gauge then
          (case Value metric of None \<Rightarrow> s | Some v \<Rightarrow> SetGauge repo (ID metric) v s)
        else if MType metric = Counter then
          (case Delta metric of None \<Rightarrow> s | Some d \<Rightarrow> SetCounter repo (ID metric) d s)
        else s)"

definition json_unmarshal_error :: goerr where
  "json_unmarshal_error = LibError ''json: cannot unmarshal''"

definition FileStore_Load ::
    "FileStore \<Rightarrow> 's Restorer \<Rightarrow> filesystem \<Rightarrow> 's \<Rightarrow> goerr option \<times> 's" where
  "FileStore_Load f repo fs s =
     (case os_ReadFile (path f) fs of
        Inl err \<Rightarrow> if errors_Is err ErrNotExist then (None, s) else (Some err, s)
      | Inr data \<Rightarrow>
          if length data = 0 then (None, s)
          else
            (case Option.bind (json_Unmarshal data) metrics_list_of_json of
               None \<Rightarrow> (Some json_unmarshal_error, s)
             | Some metrics \<Rightarrow> (None, restore_metrics repo metrics s)))"

subsection \<open>An iteration order\<close>

text \<open>Visiting the keys in lexical order is one of the orders a loop can take.\<close>

definition sorted_range :: "'v range_order" where
  "sorted_range m = map (\<lambda>k. (k, the (m k))) (sorted_list_of_set (dom m))"

lemma sorted_range_enumerates: "finite (dom m) \<Longrightarrow> enumerates (sorted_range m) m"
  by (auto simp: enumerates_def sorted_range_def comp_def map_of_map_restrict restrict_map_def domIff fun_eq_iff)

lemma sorted_range_fair: "fair_order sorted_range"
  by (simp add: fair_order_def sorted_range_enumerates)

subsection \<open>Loading what was saved\<close>

lemma mem_restorer_sel [simp]:
  "SetGauge mem_restorer = MemStorage_SetGauge" "SetCounter mem_restorer = MemStorage_SetCounter"
  by (simp_all add: mem_restorer_def)

lemma restore_append:
  "restore_metrics repo (ms @ ms') s = restore_metrics repo ms' (restore_metrics repo ms s)"
  by (induction ms arbitrary: s) auto

lemma restore_gauges:
  "restore_metrics mem_restorer (map (\<lambda>(n, v). gauge_metric n v) gs) m =
     m\<lparr>gauges := fold (\<lambda>(n, v) g. g(n \<mapsto> v)) gs (gauges m)\<rparr>"
  by (induction gs arbitrary: m) (auto simp: MemStorage_SetGauge_def)

lemma restore_counters:
  "restore_metrics mem_restorer (map (\<lambda>(n, v). counter_metric n v) cs) m =
     m\<lparr>counters := fold (\<lambda>(n, v) c. c(n \<mapsto> v)) cs (counters m)\<rparr>"
  by (induction cs arbitrary: m) (auto simp: MemStorage_SetCounter_def)

lemma restore_snapshot:
  assumes "enumerates gs g" and "enumerates cs c"
  shows "restore_metrics mem_restorer (snapshot_metrics gs cs) m =
    \<lparr>gauges = gauges m ++ g, counters = counters m ++ c\<rparr>"
  using assms
  by (cases m) (simp add: snapshot_metrics_def restore_append restore_gauges restore_counters
      enumerates_def fold_upd_map_of)

definition names_valid :: "metrics_view \<Rightarrow> bool" where
  "names_valid w \<longleftrightarrow> (\<forall>n \<in> dom (vgauges w) \<union> dom (vcounters w). utf8_valid n)"

lemma sanitize_snapshot:
  assumes "enumerates gs (vgauges w)" and "enumerates cs (vcounters w)" and "names_valid w"
  shows "map sanitize_metric (snapshot_metrics gs cs) = snapshot_metrics gs cs"
proof -
  have "utf8_valid n" if "(n, v) \<in> set gs" for n v
    using that assms by (auto simp: names_valid_def enumerates_mem domIff)
  moreover have "utf8_valid n" if "(n, d) \<in> set cs" for n d
    using that assms by (auto simp: names_valid_def enumerates_mem domIff)
  ultimately have "\<forall>m \<in> set (snapshot_metrics gs cs). sanitize_metric m = m"
    by (auto simp: snapshot_metrics_def utf8_valid_def)
  then show ?thesis by (simp add: map_idI)
qed

lemma snapshot_nonfinite:
  assumes "enumerates gs g"
  shows "(\<exists>m \<in> set (snapshot_metrics gs cs). \<exists>v. Value m = Some v \<and> \<not> is_finite v) \<longleftrightarrow>
    (\<exists>n v. g n = Some v \<and> \<not> is_finite v)"
proof -
  have "(\<exists>m \<in> set (snapshot_metrics gs cs). \<exists>v. Value m = Some v \<and> \<not> is_finite v) \<longleftrightarrow>
      (\<exists>n v. (n, v) \<in> set gs \<and> \<not> is_finite v)"
    by (force simp: snapshot_metrics_def)
  then show ?thesis by (simp add: enumerates_mem [OF assms])
qed

lemma json_print_array_nonempty: "json_print (JArr js) \<noteq> []"
  by simp

lemma metrics_list_Marshal_nonempty: "metrics_list_Marshal ms = Inr data \<Longrightarrow> data \<noteq> []"
  by (auto simp: metrics_list_Marshal_def split: option.splits)

text \<open>A successful save leaves the file that \<open>Load\<close> turns into the saved maps.\<close>

definition file_holds :: "FileStore \<Rightarrow> filesystem \<Rightarrow> metrics_view \<Rightarrow> bool" where
  "file_holds f fs w \<longleftrightarrow>
     (\<exists>gs cs data. enumerates gs (vgauges w) \<and> enumerates cs (vcounters w) \<and>
        metrics_list_Marshal (snapshot_metrics gs cs) = Inr data \<and> files fs (path f) = Some data)"

lemma Load_file_holds:
  assumes "file_holds f fs w" and "names_valid w" and "read_faults fs (path f) = None"
  shows "FileStore_Load f mem_restorer fs m =
    (None, \<lparr>gauges = gauges m ++ vgauges w, counters = counters m ++ vcounters w\<rparr>)"
proof -
  obtain gs cs data where *: "enumerates gs (vgauges w)" "enumerates cs (vcounters w)"
    "metrics_list_Marshal (snapshot_metrics gs cs) = Inr data" "files fs (path f) = Some data"
    using assms(1) by (auto simp: file_holds_def)
  then show ?thesis
    using assms(3) metrics_list_Marshal_decode(1) [OF *(3)] sanitize_snapshot [OF *(1,2) assms(2)]
      metrics_list_Marshal_nonempty [OF *(3)]
    by (simp add: FileStore_Load_def os_ReadFile_def restore_snapshot)
qed

lemma Save_file_holds:
  assumes "snapshot w = (Inr (g, c), w')" and "enumerates (og g) g" and "enumerates (oc c) c"
    and "FileStore_Save og oc f snapshot w = (None, w'')"
  shows "fst w'' = fst w' \<and> file_holds f (snd w'') \<lparr>vgauges = g, vcounters = c\<rparr> \<and>
    read_faults (snd w'') = read_faults (snd w')"
proof -
  obtain data where d: "metrics_list_Marshal (snapshot_metrics (og g) (oc c)) = Inr data"
    using assms(1,4) by (auto simp: FileStore_Save_def split: sum.splits)
  then have "w'' = (fst w', (snd w')\<lparr>files := (files (snd w'))(path f \<mapsto> data)\<rparr>)"
    using assms(1,4)
    by (auto simp: FileStore_Save_def os_WriteFile_def split: option.splits write_fault.splits)
  then show ?thesis using d assms(2,3) by (auto simp: file_holds_def)
qed

lemma Save_keeps:
  assumes "FileStore_Save og oc f snapshot w = (e, w')"
  shows "fst w' = fst (snd (snapshot w))"
  using assms
  by (auto simp: FileStore_Save_def split: sum.splits prod.splits)

lemma lifted_Snapshot: "Snapshot (lift_storage mem_storage) w = (Inr (gauges (fst w), counters (fst w)), w)"
  by (simp add: lift_storage_sel)

text \<open>A save of the in-memory storage on a writable file has two outcomes.\<close>

lemma Save_mem_cases:
  assumes "enumerates (og (gauges m)) (gauges m)" and "write_faults fs (path f) = None"
  obtains (nonfinite) n v where "gauges m n = Some v" "\<not> is_finite v"
      "FileStore_Save og oc f (Snapshot (lift_storage mem_storage)) (m, fs) = (Some json_marshal_error, m, fs)"
    | (saved) data where "\<And>n v. gauges m n = Some v \<Longrightarrow> is_finite v"
      "metrics_list_Marshal (snapshot_metrics (og (gauges m)) (oc (counters m))) = Inr data"
      "FileStore_Save og oc f (Snapshot (lift_storage mem_storage)) (m, fs) =
         (None, m, fs\<lparr>files := (files fs)(path f \<mapsto> data)\<rparr>)"
proof (cases "metrics_list_Marshal (snapshot_metrics (og (gauges m)) (oc (counters m)))")
  case (Inl e)
  then have e: "e = json_marshal_error" and "\<exists>n v. gauges m n = Some v \<and> \<not> is_finite v"
    using metrics_list_Marshal_error [of "snapshot_metrics (og (gauges m)) (oc (counters m))" e]
      snapshot_nonfinite [OF assms(1), of "oc (counters m)"] by auto
  then show ?thesis using nonfinite Inl by (auto simp: FileStore_Save_def lifted_Snapshot)
next
  case (Inr data)
  then have "\<not> (\<exists>n v. gauges m n = Some v \<and> \<not> is_finite v)"
    using metrics_list_Marshal_error [of "snapshot_metrics (og (gauges m)) (oc (counters m))" json_marshal_error]
      snapshot_nonfinite [OF assms(1), of "oc (counters m)"] by auto
  then show ?thesis
    using saved Inr assms(2) by (auto simp: FileStore_Save_def lifted_Snapshot os_WriteFile_def)
qed

subsection \<open>Properties\<close>

text \<open>
  C7: Saving and loading is a round trip: when \<open>Save\<close> reports success for a storage whose metric
  names are valid UTF-8, \<open>Load\<close> on the file it left restores exactly the saved maps into a fresh
  storage, bit for bit also for the gauges, whatever the order in which the maps are visited.
\<close>

theorem save_load_roundtrip:
  assumes "names_valid (mem_view m)"
    and "enumerates (og (gauges m)) (gauges m)" and "enumerates (oc (counters m)) (counters m)"
    and "read_faults fs (path f) = None"
    and "FileStore_Save og oc f (Snapshot (lift_storage mem_storage)) (m, fs) = (None, w')"
  shows "FileStore_Load f mem_restorer (snd w') NewMemStorage = (None, m)"
proof -
  have "Snapshot (lift_storage mem_storage) (m, fs) = (Inr (gauges m, counters m), (m, fs))"
    by (simp add: lift_storage_sel)
  from Save_file_holds [OF this assms(2,3,5)]
  have "file_holds f (snd w') (mem_view m)" "read_faults (snd w') (path f) = None"
    using assms(4) by (simp_all add: mem_view_def)
  from Load_file_holds [OF this(1) assms(1) this(2), of NewMemStorage] show ?thesis by simp
qed

definition demo_storage :: MemStorage where
  "demo_storage = \<lparr>gauges = [''Alloc'' \<mapsto> mk_float True 0, ''Free'' \<mapsto> mk_float False 1],
     counters = [''PollCount'' \<mapsto> - 7]\<rparr>"

lemma demo_storage_facts:
  "names_valid (mem_view demo_storage)"
  "enumerates (sorted_range (gauges demo_storage)) (gauges demo_storage)"
  "enumerates (sorted_range (counters demo_storage)) (counters demo_storage)"
  "gauges demo_storage n = Some v \<Longrightarrow> is_finite v"
  by (auto simp: names_valid_def utf8_valid_def to_valid_utf8_ascii demo_storage_def
      intro!: sorted_range_enumerates is_finite_mk_float split: if_splits)

theorem save_load_roundtrip_witness:
  "\<exists>w'. FileStore_Save sorted_range sorted_range \<lparr>path = ''m.json''\<rparr> (Snapshot (lift_storage mem_storage))
       (demo_storage, empty_fs) = (None, w') \<and>
     FileStore_Load \<lparr>path = ''m.json''\<rparr> mem_restorer (snd w') NewMemStorage = (None, demo_storage)"
proof -
  have w: "write_faults empty_fs (path \<lparr>path = ''m.json''\<rparr>) = None"
    and r: "read_faults empty_fs (path \<lparr>path = ''m.json''\<rparr>) = None"
    by (simp_all add: empty_fs_def)
  obtain w' where s: "FileStore_Save sorted_range sorted_range \<lparr>path = ''m.json''\<rparr>
      (Snapshot (lift_storage mem_storage)) (demo_storage, empty_fs) = (None, w')"
    using Save_mem_cases [of sorted_range demo_storage, OF demo_storage_facts(2) w, of sorted_range] demo_storage_facts(4) by metis
  then show ?thesis
    using save_load_roundtrip [OF demo_storage_facts(1,2,3) r s] by blast
qed




end
