(* ===== verification/MetricsService.thy ===== *)
theory MetricsService
  imports FileStore
begin

text \<open>
  The metrics service (\<^verbatim>\<open>src/internal/server/service/metrics.go\<close>): a layer over a storage that
  wraps errors and, when synchronous persistence is enabled, saves a snapshot after every change.
  It offers the interface of a storage again (\<^verbatim>\<open>Service\<close> in
  \<^verbatim>\<open>src/internal/server/transport/http/handler/handler.go\<close> has the methods of \<^verbatim>\<open>MetricsStorage\<close>), so
  its correctness is that the contract of the storage carries over (\<open>service_saver\<close> below), and its
  promise in synchronous mode is durability: an update that is acknowledged is in the file.
\<close>

record 'w Saver =
  Save :: "'w Snapshotter \<Rightarrow> 'w \<Rightarrow> goerr option \<times> 'w"

record 'w MetricsService =
  repo :: "'w MetricsStorage"
  syncPersistence :: "'w Saver option"

definition NewMetricsService :: "'w MetricsStorage \<Rightarrow> 'w MetricsService" where
  "NewMetricsService r = \<lparr>repo = r, syncPersistence = None\<rparr>"

definition EnableSyncSave :: "'w MetricsService \<Rightarrow> 'w Saver \<Rightarrow> 'w MetricsService" where
  "EnableSyncSave m sv = m\<lparr>syncPersistence := Some sv\<rparr>"

definition saveIfSync :: "'w MetricsService \<Rightarrow> 'w \<Rightarrow> goerr option \<times> 'w" where
  "saveIfSync m w =
     (case syncPersistence m of None \<Rightarrow> (None, w) | Some sv \<Rightarrow> Save sv (Snapshot (repo m)) w)"

definition sync_save_failed :: "goerr \<Rightarrow> goerr" where
  "sync_save_failed err = ErrorfW ''sync save failed: %w'' [] err"

definition Service_UpdateGauge ::
    "'w MetricsService \<Rightarrow> string \<Rightarrow> float64 \<Rightarrow> 'w \<Rightarrow> goerr option \<times> 'w" where
  "Service_UpdateGauge m metricName value w =
     (case UpdateGauge (repo m) metricName value w of
        (Some err, w') \<Rightarrow> (Some (ErrorfW ''update gauge: %w'' [] err), w')
      | (None, w') \<Rightarrow>
          (case saveIfSync m w' of
             (Some err, w'') \<Rightarrow> (Some (sync_save_failed err), w'')
           | (None, w'') \<Rightarrow> (None, w'')))"

definition Service_UpdateMetrics ::
    "'w MetricsService \<Rightarrow> Metrics list \<Rightarrow> 'w \<Rightarrow> goerr option outcome \<times> 'w" where
  "Service_UpdateMetrics m metrics w =
     (case UpdateMetrics (repo m) metrics w of
        (Panic p, w') \<Rightarrow> (Panic p, w')
      | (Return (Some err), w') \<Rightarrow> (Return (Some (ErrorfW ''update metrics: %w'' [] err)), w')
      | (Return None, w') \<Rightarrow>
          (case saveIfSync m w' of
             (Some err, w'') \<Rightarrow> (Return (Some (sync_save_failed err)), w'')
           | (None, w'') \<Rightarrow> (Return None, w'')))"

definition Service_UpdateCounter ::
    "'w MetricsService \<Rightarrow> string \<Rightarrow> int64 \<Rightarrow> 'w \<Rightarrow> (goerr + int64) \<times> 'w" where
  "Service_UpdateCounter m metricName delta w =
     (case UpdateCounter (repo m) metricName delta w of
        (Inl err, w') \<Rightarrow> (Inl (ErrorfW ''update counter: %w'' [] err), w')
      | (Inr t, w') \<Rightarrow>
          (case saveIfSync m w' of
             (Some err, w'') \<Rightarrow> (Inl (sync_save_failed err), w'')
           | (None, w'') \<Rightarrow> (Inr t, w'')))"

definition Service_GetGauge :: "'w MetricsService \<Rightarrow> string \<Rightarrow> 'w \<Rightarrow> (goerr + float64) \<times> 'w" where
  "Service_GetGauge m metricName w =
     (case GetGauge (repo m) metricName w of
        (Inl err, w') \<Rightarrow>
          if errors_Is err ErrMetricNotFound then (Inl err, w')
          else (Inl (ErrorfW ''get gauge: %w'' [] err), w')
      | (Inr value, w') \<Rightarrow> (Inr value, w'))"

definition Service_GetCounter :: "'w MetricsService \<Rightarrow> string \<Rightarrow> 'w \<Rightarrow> (goerr + int64) \<times> 'w" where
  "Service_GetCounter m metricName w =
     (case GetCounter (repo m) metricName w of
        (Inl err, w') \<Rightarrow>
          if errors_Is err ErrMetricNotFound then (Inl err, w')
          else (Inl (ErrorfW ''get counter: %w'' [] err), w')
      | (Inr t, w') \<Rightarrow> (Inr t, w'))"

definition Service_Snapshot :: "'w MetricsService \<Rightarrow> 'w Snapshotter" where
  "Service_Snapshot m w = Snapshot (repo m) w"

text \<open>The service as the interface its clients, the HTTP and gRPC handlers, see.\<close>

definition metrics_service :: "'w MetricsService \<Rightarrow> 'w MetricsStorage" where
  "metrics_service m =
     \<lparr>UpdateGauge = Service_UpdateGauge m, UpdateCounter = Service_UpdateCounter m,
      UpdateMetrics = Service_UpdateMetrics m, GetGauge = Service_GetGauge m,
      GetCounter = Service_GetCounter m, Snapshot = Service_Snapshot m\<rparr>"

lemma metrics_service_sel [simp, iface_simps]:
  "UpdateGauge (metrics_service m) = Service_UpdateGauge m"
  "UpdateCounter (metrics_service m) = Service_UpdateCounter m"
  "UpdateMetrics (metrics_service m) = Service_UpdateMetrics m"
  "GetGauge (metrics_service m) = Service_GetGauge m"
  "GetCounter (metrics_service m) = Service_GetCounter m"
  "Snapshot (metrics_service m) = Service_Snapshot m"
  by (simp_all add: metrics_service_def)

lemma NewMetricsService_sel [simp]:
  "repo (NewMetricsService r) = r" "syncPersistence (NewMetricsService r) = None"
  "repo (EnableSyncSave m sv) = repo m" "syncPersistence (EnableSyncSave m sv) = Some sv"
  by (simp_all add: NewMetricsService_def EnableSyncSave_def)

lemmas Service_defs =
  Service_UpdateGauge_def Service_UpdateCounter_def Service_UpdateMetrics_def Service_GetGauge_def
  Service_GetCounter_def Service_Snapshot_def

text \<open>Where an update ends: after the storage's own step, or after the save that follows its success.\<close>

lemma Service_UpdateGauge_state:
  "Service_UpdateGauge m n v w = (r, w') \<Longrightarrow>
     \<exists>e w1. UpdateGauge (repo m) n v w = (e, w1) \<and> (w' = w1 \<or> (\<exists>e'. saveIfSync m w1 = (e', w')))"
  by (auto simp: Service_UpdateGauge_def split: prod.splits option.splits)

lemma Service_UpdateGauge_None:
  "Service_UpdateGauge m n v w = (None, w') \<longleftrightarrow>
     (\<exists>w1. UpdateGauge (repo m) n v w = (None, w1) \<and> saveIfSync m w1 = (None, w'))"
  by (auto simp: Service_UpdateGauge_def split: prod.splits option.splits)

lemma Service_UpdateCounter_state:
  "Service_UpdateCounter m n d w = (r, w') \<Longrightarrow>
     \<exists>e w1. UpdateCounter (repo m) n d w = (e, w1) \<and> (w' = w1 \<or> (\<exists>e'. saveIfSync m w1 = (e', w')))"
  by (auto simp: Service_UpdateCounter_def split: prod.splits option.splits sum.splits)

lemma Service_UpdateCounter_Inr:
  "Service_UpdateCounter m n d w = (Inr t, w') \<longleftrightarrow>
     (\<exists>w1. UpdateCounter (repo m) n d w = (Inr t, w1) \<and> saveIfSync m w1 = (None, w'))"
  by (auto simp: Service_UpdateCounter_def split: prod.splits option.splits sum.splits)

lemma Service_UpdateMetrics_state:
  "Service_UpdateMetrics m ms w = (r, w') \<Longrightarrow>
     \<exists>e w1. UpdateMetrics (repo m) ms w = (e, w1) \<and> (returns e \<longrightarrow> returns r) \<and>
       (w' = w1 \<or> (\<exists>e'. saveIfSync m w1 = (e', w')))"
  by (auto simp: Service_UpdateMetrics_def split: prod.splits option.splits outcome.splits)

lemma Service_UpdateMetrics_None:
  "Service_UpdateMetrics m ms w = (Return None, w') \<longleftrightarrow>
     (\<exists>w1. UpdateMetrics (repo m) ms w = (Return None, w1) \<and> saveIfSync m w1 = (None, w'))"
  by (auto simp: Service_UpdateMetrics_def split: prod.splits option.splits outcome.splits)

subsection \<open>The contract carries over\<close>

text \<open>What the service needs of its saver: saving does not change what the storage shows.\<close>

locale service_saver = metrics_storage "repo m" view invar
  for m :: "'w MetricsService" and view :: "'w \<Rightarrow> metrics_view" and invar :: "'w \<Rightarrow> bool" +
  assumes Save_keeps_view:
    "invar w \<Longrightarrow> syncPersistence m = Some sv \<Longrightarrow> Save sv (Snapshot (repo m)) w = (e, w') \<Longrightarrow>
       invar w' \<and> view w' = view w"
begin

lemma saveIfSync_keeps: "invar w \<Longrightarrow> saveIfSync m w = (e, w') \<Longrightarrow> invar w' \<and> view w' = view w"
  using Save_keeps_view by (auto simp: saveIfSync_def split: option.splits)

lemma Service_UpdateGauge_invar: "invar w \<Longrightarrow> Service_UpdateGauge m n v w = (r, w') \<Longrightarrow> invar w'"
  by (drule Service_UpdateGauge_state) (blast dest: UpdateGauge_invar saveIfSync_keeps)

lemma Service_UpdateGauge_ok:
  assumes "invar w" and "Service_UpdateGauge m n v w = (None, w')"
  shows "view w' = view_gauge n v (view w)"
proof -
  obtain w1 where "UpdateGauge (repo m) n v w = (None, w1)" "saveIfSync m w1 = (None, w')"
    using assms(2) by (auto simp: Service_UpdateGauge_None)
  then show ?thesis using assms(1) UpdateGauge_ok UpdateGauge_invar saveIfSync_keeps by metis
qed

lemma Service_UpdateCounter_invar: "invar w \<Longrightarrow> Service_UpdateCounter m n d w = (r, w') \<Longrightarrow> invar w'"
  by (drule Service_UpdateCounter_state) (blast dest: UpdateCounter_invar saveIfSync_keeps)

lemma Service_UpdateCounter_ok:
  assumes "invar w" and "Service_UpdateCounter m n d w = (Inr t, w')"
  shows "view w' = view_counter n d (view w) \<and> vcounters (view w') n = Some t"
proof -
  obtain w1 where "UpdateCounter (repo m) n d w = (Inr t, w1)" "saveIfSync m w1 = (None, w')"
    using assms(2) by (auto simp: Service_UpdateCounter_Inr)
  then show ?thesis using assms(1) UpdateCounter_ok UpdateCounter_invar saveIfSync_keeps by metis
qed

lemma Service_UpdateMetrics_invar:
  assumes "invar w" and "list_all complete_metric ms" and "Service_UpdateMetrics m ms w = (r, w')"
  shows "invar w' \<and> returns r"
  using Service_UpdateMetrics_state [OF assms(3)] assms(1,2)
  by (metis UpdateMetrics_invar saveIfSync_keeps)

lemma Service_UpdateMetrics_ok:
  assumes "invar w" and "list_all complete_metric ms" and "Service_UpdateMetrics m ms w = (Return None, w')"
  shows "view w' = view_metrics ms (view w)"
proof -
  obtain w1 where "UpdateMetrics (repo m) ms w = (Return None, w1)" "saveIfSync m w1 = (None, w')"
    using assms(3) by (auto simp: Service_UpdateMetrics_None)
  then show ?thesis using assms(1,2) UpdateMetrics_ok UpdateMetrics_invar saveIfSync_keeps by metis
qed

lemmas service_laws =
  Service_UpdateGauge_invar Service_UpdateGauge_ok Service_UpdateCounter_invar Service_UpdateCounter_ok
  Service_UpdateMetrics_invar Service_UpdateMetrics_ok

end

sublocale service_saver \<subseteq> svc: metrics_storage "metrics_service m" view invar
  by (unfold_locales, unfold metrics_service_sel, fact service_laws, fact service_laws, fact service_laws,
      fact service_laws, fact service_laws, fact service_laws)
    (auto simp: Service_GetGauge_def Service_GetCounter_def Service_Snapshot_def
      split: prod.splits sum.splits if_splits
      dest: GetGauge_keeps GetCounter_keeps Snapshot_keeps GetGauge_ok GetCounter_ok Snapshot_ok
        GetGauge_missing GetCounter_missing view_finite)

text \<open>Without a saver, a service over a storage that never fails never fails either.\<close>

locale plain_service = reliable_storage "repo m" view invar
  for m :: "'w MetricsService" and view :: "'w \<Rightarrow> metrics_view" and invar :: "'w \<Rightarrow> bool" +
  assumes no_saver: "syncPersistence m = None"

sublocale plain_service \<subseteq> service_saver m view invar
  by unfold_locales (simp add: no_saver)

sublocale plain_service \<subseteq> rsvc: reliable_storage "metrics_service m" view invar
proof (unfold_locales, unfold metrics_service_sel)
  fix s n v ms d e
  assume i: "invar s"
  show "fst (Service_UpdateGauge m n v s) = None"
    by (rule UpdateGauge_eq [OF i, of n v]) (simp add: Service_UpdateGauge_def saveIfSync_def no_saver)
  show "\<exists>t. fst (Service_UpdateCounter m n d s) = Inr t"
    by (rule UpdateCounter_eq [OF i, of n d]) (simp add: Service_UpdateCounter_def saveIfSync_def no_saver)
  show "list_all complete_metric ms \<Longrightarrow> fst (Service_UpdateMetrics m ms s) = Return None"
    by (erule UpdateMetrics_eq [OF i, of ms]) (simp add: Service_UpdateMetrics_def saveIfSync_def no_saver)
  show "fst (Service_GetGauge m n s) = Inl e \<Longrightarrow> e = ErrMetricNotFound"
    using GetGauge_total [OF i, of n]
    by (auto simp: Service_GetGauge_def split: prod.splits sum.splits if_splits)
  show "fst (Service_GetCounter m n s) = Inl e \<Longrightarrow> e = ErrMetricNotFound"
    using GetCounter_total [OF i, of n]
    by (auto simp: Service_GetCounter_def split: prod.splits sum.splits if_splits)
  show "\<exists>g c. fst (Service_Snapshot m s) = Inr (g, c)"
    using Snapshot_total [OF i] by (simp add: Service_Snapshot_def)
qed

subsection \<open>The two services the server runs on the in-memory storage\<close>

definition mem_service :: "MemStorage MetricsService" where
  "mem_service = NewMetricsService mem_storage"

interpretation mem_svc: plain_service mem_service mem_view mem_invar
  by (intro plain_service.intro plain_service_axioms.intro)
    (simp_all add: mem_service_def mem.reliable_storage_axioms)

type_synonym file_world = "MemStorage \<times> filesystem"

definition file_saver :: "float64 range_order \<Rightarrow> int64 range_order \<Rightarrow> FileStore \<Rightarrow> ('s \<times> filesystem) Saver" where
  "file_saver og oc f = \<lparr>Save = FileStore_Save og oc f\<rparr>"

definition file_service :: "float64 range_order \<Rightarrow> int64 range_order \<Rightarrow> FileStore \<Rightarrow> file_world MetricsService" where
  "file_service og oc f = EnableSyncSave (NewMetricsService (lift_storage mem_storage)) (file_saver og oc f)"

lemma file_service_sel [simp]:
  "repo (file_service og oc f) = lift_storage mem_storage"
  "syncPersistence (file_service og oc f) = Some (file_saver og oc f)"
  "Save (file_saver og oc f) = FileStore_Save og oc f"
  by (simp_all add: file_service_def file_saver_def)

interpretation file_svc: service_saver "file_service og oc f" "\<lambda>w. mem_view (fst w)" "\<lambda>w. mem_invar (fst w)"
  for og oc f
proof (rule service_saver.intro)
  show "metrics_storage (repo (file_service og oc f)) (\<lambda>w. mem_view (fst w)) (\<lambda>w. mem_invar (fst w))"
    using mem_lifted.metrics_storage_axioms by simp
  show "service_saver_axioms (file_service og oc f) (\<lambda>w. mem_view (fst w)) (\<lambda>w. mem_invar (fst w))"
    by unfold_locales (auto dest!: Save_keeps simp: lifted_Snapshot)
qed

text \<open>What a successful synchronous save leaves.\<close>

lemma saveIfSync_durable:
  assumes "fair_order og" "fair_order oc" and "mem_invar (fst w)"
    and "saveIfSync (file_service og oc f) w = (None, w')"
  shows "fst w' = fst w \<and> file_holds f (snd w') (mem_view (fst w)) \<and> read_faults (snd w') = read_faults (snd w)"
  using Save_file_holds [of "Snapshot (lift_storage mem_storage)" w _ _ w og oc f w'] assms
  by (simp add: saveIfSync_def lifted_Snapshot fair_order_def mem_invar_def mem_view_def)

text \<open>
  After an acknowledged update the file loads, into a fresh storage, to what is in memory. The
  update itself is any of the three operations, given by the step it makes in memory.
\<close>

lemma durable_step:
  assumes "fair_order og" "fair_order oc" and "mem_invar (fst w)" and "snd w = fs"
    and "saveIfSync (file_service og oc f) w = (None, w')"
    and "names_valid (mem_view (fst w'))" and "read_faults fs (path f) = None"
  shows "FileStore_Load f mem_restorer (snd w') NewMemStorage = (None, fst w')"
  using saveIfSync_durable [OF assms(1-3,5)] assms(4,6,7)
    Load_file_holds [of f "snd w'" "mem_view (fst w')" NewMemStorage]
  by simp

subsection \<open>Properties\<close>

lemma file_UpdateGauge_durable:
  assumes "fair_order og" "fair_order oc" "mem_invar (fst w)" "read_faults (snd w) (path f) = None"
    and "names_valid (mem_view (fst w'))" "Service_UpdateGauge (file_service og oc f) n v w = (None, w')"
  shows "FileStore_Load f mem_restorer (snd w') NewMemStorage = (None, fst w')"
proof -
  obtain w1 where w1: "UpdateGauge (lift_storage mem_storage) n v w = (None, w1)"
    "saveIfSync (file_service og oc f) w1 = (None, w')"
    using assms(6) by (auto simp: Service_UpdateGauge_None)
  then have "mem_invar (fst w1)" "snd w1 = snd w"
    using mem_lifted.UpdateGauge_invar [OF assms(3) w1(1)] by (auto simp: lift_storage_sel)
  then show ?thesis using durable_step [OF assms(1,2)] w1(2) assms(4,5) by blast
qed

lemma file_UpdateCounter_durable:
  assumes "fair_order og" "fair_order oc" "mem_invar (fst w)" "read_faults (snd w) (path f) = None"
    and "names_valid (mem_view (fst w'))" "Service_UpdateCounter (file_service og oc f) n d w = (Inr t, w')"
  shows "FileStore_Load f mem_restorer (snd w') NewMemStorage = (None, fst w')"
proof -
  obtain w1 where w1: "UpdateCounter (lift_storage mem_storage) n d w = (Inr t, w1)"
    "saveIfSync (file_service og oc f) w1 = (None, w')"
    using assms(6) by (auto simp: Service_UpdateCounter_Inr)
  then have "mem_invar (fst w1)" "snd w1 = snd w"
    using mem_lifted.UpdateCounter_invar [OF assms(3) w1(1)] by (auto simp: lift_storage_sel)
  then show ?thesis using durable_step [OF assms(1,2)] w1(2) assms(4,5) by blast
qed

text \<open>
  C2: In synchronous mode an acknowledged update is durable: when a single or a batch update of the
  service over the in-memory storage returns without an error, a restart that loads the file
  restores exactly the storage as it was after that update (metric names being valid UTF-8).
\<close>

theorem sync_update_durable:
  assumes "fair_order og" and "fair_order oc" and "mem_invar (fst w)" and "list_all complete_metric ms"
    and "read_faults (snd w) (path f) = None" and "names_valid (mem_view (fst w'))"
    and "Service_UpdateGauge (file_service og oc f) n v w = (None, w') \<or>
         Service_UpdateCounter (file_service og oc f) n d w = (Inr t, w') \<or>
         Service_UpdateMetrics (file_service og oc f) ms w = (Return None, w')"
  shows "FileStore_Load f mem_restorer (snd w') NewMemStorage = (None, fst w')"
  using assms(7)
proof (elim disjE)
  assume "Service_UpdateMetrics (file_service og oc f) ms w = (Return None, w')"
  then obtain w1 where w1: "UpdateMetrics (lift_storage mem_storage) ms w = (Return None, w1)"
    "saveIfSync (file_service og oc f) w1 = (None, w')"
    by (auto simp: Service_UpdateMetrics_None)
  then have "mem_invar (fst w1)" "snd w1 = snd w"
    using mem_lifted.UpdateMetrics_invar [OF assms(3,4) w1(1)] by (auto simp: lift_storage_sel)
  then show ?thesis using durable_step [OF assms(1,2)] w1(2) assms(5,6) by blast
qed (use file_UpdateGauge_durable file_UpdateCounter_durable assms in blast)+

lemma demo_sync_update:
  "\<exists>w'. Service_UpdateCounter (file_service sorted_range sorted_range \<lparr>path = ''m.json''\<rparr>) ''PollCount'' 8
     (demo_storage, empty_fs) = (Inr 1, w') \<and> fst w' = demo_storage\<lparr>counters := [''PollCount'' \<mapsto> 1]\<rparr>"
proof -
  let ?m = "demo_storage\<lparr>counters := [''PollCount'' \<mapsto> 1]\<rparr>" and ?f = "\<lparr>path = ''m.json''\<rparr>"
  have u: "UpdateCounter (lift_storage mem_storage) ''PollCount'' 8 (demo_storage, empty_fs) = (Inr 1, ?m, empty_fs)"
    by (simp add: lift_storage_sel MemStorage_UpdateCounter_def counter_total_def demo_storage_def)
  have "enumerates (sorted_range (gauges ?m)) (gauges ?m)" "write_faults empty_fs (path ?f) = None"
    using demo_storage_facts(2) by (simp_all add: empty_fs_def)
  then obtain w' where "FileStore_Save sorted_range sorted_range ?f (Snapshot (lift_storage mem_storage))
      (?m, empty_fs) = (None, w')" "fst w' = ?m"
    by (rule Save_mem_cases [of sorted_range ?m empty_fs ?f sorted_range])
      (use demo_storage_facts(4) in auto)
  then show ?thesis using u by (auto simp: Service_UpdateCounter_Inr saveIfSync_def)
qed

theorem sync_update_durable_witness:
  "\<exists>w'. fst w' = demo_storage\<lparr>counters := [''PollCount'' \<mapsto> 1]\<rparr> \<and>
     FileStore_Load \<lparr>path = ''m.json''\<rparr> mem_restorer (snd w') NewMemStorage =
       (None, demo_storage\<lparr>counters := [''PollCount'' \<mapsto> 1]\<rparr>)"
proof -
  obtain w' where w': "Service_UpdateCounter (file_service sorted_range sorted_range \<lparr>path = ''m.json''\<rparr>)
      ''PollCount'' 8 (demo_storage, empty_fs) = (Inr 1, w')"
    "fst w' = demo_storage\<lparr>counters := [''PollCount'' \<mapsto> 1]\<rparr>"
    using demo_sync_update by blast
  moreover have "names_valid (mem_view (fst w'))"
    using demo_storage_facts(1) w'(2) by (simp add: names_valid_def demo_storage_def)
  moreover have "mem_invar (fst (demo_storage, empty_fs))" by (simp add: mem_invar_def demo_storage_def)
  ultimately show ?thesis
    using sync_update_durable [OF sorted_range_fair sorted_range_fair, of "(demo_storage, empty_fs)" "[]"
        "\<lparr>path = ''m.json''\<rparr>" w'] by (force simp: empty_fs_def)
qed

text \<open>
  The service over the in-memory storage behaves as the storage does: an update of a gauge or a
  counter succeeds, the counter's new total is returned, and reading it back through the service
  gives the written gauge and that total.
\<close>

theorem mem_service_read_your_writes:
  assumes "mem_invar m"
  shows "\<exists>m1 m2.
    Service_UpdateGauge mem_service n v m = (None, m1) \<and>
    Service_GetGauge mem_service n m1 = (Inr v, m1) \<and>
    Service_UpdateCounter mem_service n' d m1 = (Inr (counter_total (counters m) n' + d), m2) \<and>
    Service_GetCounter mem_service n' m2 = (Inr (counter_total (counters m) n' + d), m2) \<and>
    Service_GetGauge mem_service n m2 = (Inr v, m2)"
proof -
  obtain m1 where m1: "Service_UpdateGauge mem_service n v m = (None, m1)" "mem_invar m1"
    "mem_view m1 = view_gauge n v (mem_view m)"
    by (rule mem_svc.rsvc.UpdateGauge_eq [OF assms, unfolded metrics_service_sel])
  obtain m2 where m2: "Service_UpdateCounter mem_service n' d m1 =
      (Inr (counter_total (vcounters (mem_view m1)) n' + d), m2)" "mem_view m2 = view_counter n' d (mem_view m1)"
    by (rule mem_svc.rsvc.UpdateCounter_eq [OF m1(2), unfolded metrics_service_sel])
  have g: "gauges m1 n = Some v" "counters m1 = counters m" "gauges m2 n = Some v"
    "counters m2 n' = Some (counter_total (counters m) n' + d)"
    using arg_cong [OF m1(3), of vgauges] arg_cong [OF m1(3), of vcounters]
      arg_cong [OF m2(2), of vgauges] arg_cong [OF m2(2), of vcounters] by simp_all
  show ?thesis
    using m1(1) m2(1) g
    by (auto simp: Service_GetGauge_def Service_GetCounter_def mem_service_def MemStorage_GetGauge_def
        MemStorage_GetCounter_def)
qed

theorem mem_service_read_your_writes_witness:
  "mem_invar NewMemStorage \<and> (\<exists>m1 m2.
    Service_UpdateGauge mem_service ''x'' float_NaN NewMemStorage = (None, m1) \<and>
    Service_GetGauge mem_service ''x'' m1 = (Inr float_NaN, m1) \<and>
    Service_UpdateCounter mem_service ''x'' 3 m1 = (Inr 3, m2) \<and>
    Service_GetCounter mem_service ''x'' m2 = (Inr 3, m2) \<and>
    Service_GetGauge mem_service ''x'' m2 = (Inr float_NaN, m2))"
  using mem_service_read_your_writes [of NewMemStorage "''x''" float_NaN "''x''" 3]
  by (simp add: counter_total_def)

end
