(* ===== verification/AgentService.thy ===== *)
theory AgentService
  imports MetricsService
begin

text \<open>
  The reporting service of the agent (\<^verbatim>\<open>src/internal/agent/service/\<close>): it polls runtime and system
  metrics into its storage, counts the polls since the last report, turns the storage into a batch
  and hands it to a sender, giving the polls back when sending fails.

  The state is the storage, the world the sender works on, and the atomic counter
  \<open>pollSinceReport\<close>. What the Go runtime, the random generator and gopsutil measure are arguments.
  The context arguments are left out; a cancelled context shows as an error of storage or sender.
\<close>

record Report =
  RMetrics :: "Metrics list"
  PollCount :: int64

record ('s, 'n) agent_world =
  ag_repo :: 's
  ag_net :: 'n
  pollSinceReport :: int64

type_synonym 'n MetricsSender = "Metrics list \<Rightarrow> 'n \<Rightarrow> goerr option \<times> 'n"

record ('s, 'n) ReportingService =
  as_repo :: "'s MetricsStorage"
  as_sender :: "'n MetricsSender"

definition ReportingService_New :: "'s MetricsStorage \<Rightarrow> 'n MetricsSender \<Rightarrow> ('s, 'n) ReportingService" where
  "ReportingService_New r s = \<lparr>as_repo = r, as_sender = s\<rparr>"

subsection \<open>Polling\<close>

text \<open>An error of the storage is logged and the gauge is skipped.\<close>

definition updateGauge ::
    "('s, 'n) ReportingService \<Rightarrow> string \<Rightarrow> float64 \<Rightarrow> ('s, 'n) agent_world \<Rightarrow> ('s, 'n) agent_world" where
  "updateGauge s name value w = w\<lparr>ag_repo := snd (UpdateGauge (as_repo s) name value (ag_repo w))\<rparr>"

definition update_gauges ::
    "('s, 'n) ReportingService \<Rightarrow> (string \<times> float64) list \<Rightarrow> ('s, 'n) agent_world \<Rightarrow> ('s, 'n) agent_world" where
  "update_gauges s gs w = fold (\<lambda>(n, v). updateGauge s n v) gs w"

text \<open>
  The fields of \<^verbatim>\<open>runtime.MemStats\<close> that are reported: unsigned integers of 64 bits, two of 32 bits, and
  one fraction. The conversion of an integer rounds to the nearest float.
\<close>

type_synonym uint64 = "64 word"
type_synonym uint32 = "32 word"

abbreviation float64_of_uint :: "'a::len word \<Rightarrow> float64" where
  "float64_of_uint n \<equiv> float64_of_nat (unat n)"

record MemStats =
  Alloc :: uint64
  BuckHashSys :: uint64
  Frees :: uint64
  GCCPUFraction :: float64
  GCSys :: uint64
  HeapAlloc :: uint64
  HeapIdle :: uint64
  HeapInuse :: uint64
  HeapObjects :: uint64
  HeapReleased :: uint64
  HeapSys :: uint64
  LastGC :: uint64
  Lookups :: uint64
  MCacheInuse :: uint64
  MCacheSys :: uint64
  MSpanInuse :: uint64
  MSpanSys :: uint64
  Mallocs :: uint64
  NextGC :: uint64
  NumForcedGC :: uint32
  NumGC :: uint32
  OtherSys :: uint64
  PauseTotalNs :: uint64
  StackInuse :: uint64
  StackSys :: uint64
  Sys :: uint64
  TotalAlloc :: uint64

definition runtime_gauges :: "MemStats \<Rightarrow> float64 \<Rightarrow> (string \<times> float64) list" where
  "runtime_gauges ms rnd =
     [(''Alloc'', float64_of_uint (Alloc ms)), (''BuckHashSys'', float64_of_uint (BuckHashSys ms)),
      (''Frees'', float64_of_uint (Frees ms)), (''GCCPUFraction'', GCCPUFraction ms),
      (''GCSys'', float64_of_uint (GCSys ms)), (''HeapAlloc'', float64_of_uint (HeapAlloc ms)),
      (''HeapIdle'', float64_of_uint (HeapIdle ms)), (''HeapInuse'', float64_of_uint (HeapInuse ms)),
      (''HeapObjects'', float64_of_uint (HeapObjects ms)), (''HeapReleased'', float64_of_uint (HeapReleased ms)),
      (''HeapSys'', float64_of_uint (HeapSys ms)), (''LastGC'', float64_of_uint (LastGC ms)),
      (''Lookups'', float64_of_uint (Lookups ms)), (''MCacheInuse'', float64_of_uint (MCacheInuse ms)),
      (''MCacheSys'', float64_of_uint (MCacheSys ms)), (''MSpanInuse'', float64_of_uint (MSpanInuse ms)),
      (''MSpanSys'', float64_of_uint (MSpanSys ms)), (''Mallocs'', float64_of_uint (Mallocs ms)),
      (''NextGC'', float64_of_uint (NextGC ms)), (''NumForcedGC'', float64_of_uint (NumForcedGC ms)),
      (''NumGC'', float64_of_uint (NumGC ms)), (''OtherSys'', float64_of_uint (OtherSys ms)),
      (''PauseTotalNs'', float64_of_uint (PauseTotalNs ms)), (''StackInuse'', float64_of_uint (StackInuse ms)),
      (''StackSys'', float64_of_uint (StackSys ms)), (''Sys'', float64_of_uint (Sys ms)),
      (''TotalAlloc'', float64_of_uint (TotalAlloc ms)), (''RandomValue'', rnd)]"

definition add_polls :: "int64 \<Rightarrow> ('s, 'n) agent_world \<Rightarrow> ('s, 'n) agent_world" where
  "add_polls d w = w\<lparr>pollSinceReport := pollSinceReport w + d\<rparr>"

definition PollRuntime ::
    "('s, 'n) ReportingService \<Rightarrow> MemStats \<Rightarrow> float64 \<Rightarrow> ('s, 'n) agent_world \<Rightarrow> ('s, 'n) agent_world" where
  "PollRuntime s ms rnd w = add_polls 1 (update_gauges s (runtime_gauges ms rnd) w)"

text \<open>The results of \<^verbatim>\<open>mem.VirtualMemory\<close> (total and free) and of \<^verbatim>\<open>cpu.Percent\<close> are arguments.\<close>

definition cpu_gauges :: "float64 list \<Rightarrow> (string \<times> float64) list" where
  "cpu_gauges ps = map (\<lambda>(i, p). (''CPUutilization'' @ format_nat (i + 1), p)) (enumerate 0 ps)"

definition PollSystem ::
    "('s, 'n) ReportingService \<Rightarrow> goerr + uint64 \<times> uint64 \<Rightarrow> goerr + float64 list \<Rightarrow> ('s, 'n) agent_world \<Rightarrow> ('s, 'n) agent_world" where
  "PollSystem s vm cpu w =
     (case vm of
        Inl _ \<Rightarrow> w
      | Inr (tot, free) \<Rightarrow>
          let w1 = update_gauges s [(''TotalMemory'', float64_of_uint tot), (''FreeMemory'', float64_of_uint free)] w
          in case cpu of Inl _ \<Rightarrow> w1 | Inr ps \<Rightarrow> update_gauges s (cpu_gauges ps) w1)"

subsection \<open>Reports\<close>

definition batch_metrics :: "(string \<times> float64) list \<Rightarrow> int64 \<Rightarrow> Metrics list" where
  "batch_metrics gs pollCount =
     map (\<lambda>(name, v). gauge_metric name v) gs @ [counter_metric ''PollCount'' pollCount]"

definition buildMetricsBatch ::
    "float64 range_order \<Rightarrow> ('s, 'n) ReportingService \<Rightarrow> int64 \<Rightarrow> ('s, 'n) agent_world \<Rightarrow>
       (goerr + Metrics list) \<times> ('s, 'n) agent_world" where
  "buildMetricsBatch og s pollCount w =
     (case Snapshot (as_repo s) (ag_repo w) of
        (Inl err, r) \<Rightarrow> (Inl (ErrorfW ''snapshot metrics: %w'' [] err), w\<lparr>ag_repo := r\<rparr>)
      | (Inr (g, _), r) \<Rightarrow> (Inr (batch_metrics (og g) pollCount), w\<lparr>ag_repo := r\<rparr>))"

text \<open>The result is an error, or nothing to report, or a report.\<close>

definition prepareReport ::
    "float64 range_order \<Rightarrow> ('s, 'n) ReportingService \<Rightarrow> bool \<Rightarrow> ('s, 'n) agent_world \<Rightarrow>
       (goerr + Report option) \<times> ('s, 'n) agent_world" where
  "prepareReport og s skipWithoutPolls w =
     (let pollCount = pollSinceReport w; w0 = w\<lparr>pollSinceReport := 0\<rparr>
      in if skipWithoutPolls \<and> pollCount = 0 then (Inr None, w0)
         else case buildMetricsBatch og s pollCount w0 of
             (Inl err, w1) \<Rightarrow> (Inl err, add_polls pollCount w1)
           | (Inr metrics, w1) \<Rightarrow>
               if metrics = [] then (Inr None, add_polls pollCount w1)
               else (Inr (Some \<lparr>RMetrics = metrics, PollCount = pollCount\<rparr>), w1))"

definition PreparePeriodicReport ::
    "float64 range_order \<Rightarrow> ('s, 'n) ReportingService \<Rightarrow> ('s, 'n) agent_world \<Rightarrow>
       (goerr + Report option) \<times> ('s, 'n) agent_world" where
  "PreparePeriodicReport og s w = prepareReport og s True w"

text \<open>The final report; without one the zero value of the struct is returned.\<close>

definition zero_Report :: Report where
  "zero_Report = \<lparr>RMetrics = [], PollCount = 0\<rparr>"

definition prepareFinalReport ::
    "float64 range_order \<Rightarrow> ('s, 'n) ReportingService \<Rightarrow> ('s, 'n) agent_world \<Rightarrow> (goerr + Report) \<times> ('s, 'n) agent_world" where
  "prepareFinalReport og s w =
     (case prepareReport og s False w of
        (Inl err, w') \<Rightarrow> (Inl err, w')
      | (Inr None, w') \<Rightarrow> (Inr zero_Report, w')
      | (Inr (Some rep), w') \<Rightarrow> (Inr rep, w'))"

definition Restore :: "Report \<Rightarrow> ('s, 'n) agent_world \<Rightarrow> ('s, 'n) agent_world" where
  "Restore rep w = add_polls (PollCount rep) w"

definition Send ::
    "('s, 'n) ReportingService \<Rightarrow> Report \<Rightarrow> ('s, 'n) agent_world \<Rightarrow> goerr option \<times> ('s, 'n) agent_world" where
  "Send s rep w =
     (case as_sender s (RMetrics rep) (ag_net w) of
        (Some err, net) \<Rightarrow> (Some err, Restore rep (w\<lparr>ag_net := net\<rparr>))
      | (None, net) \<Rightarrow> (None, w\<lparr>ag_net := net\<rparr>))"

definition Flush ::
    "float64 range_order \<Rightarrow> ('s, 'n) ReportingService \<Rightarrow> ('s, 'n) agent_world \<Rightarrow> goerr option \<times> ('s, 'n) agent_world" where
  "Flush og s w =
     (case prepareFinalReport og s w of
        (Inl err, w') \<Rightarrow> (Some (ErrorfW ''build final metrics batch: %w'' [] err), w')
      | (Inr rep, w') \<Rightarrow>
          (case Send s rep w' of
             (Some err, w'') \<Rightarrow> (Some (ErrorfW ''send final metrics batch: %w'' [] err), w'')
           | (None, w'') \<Rightarrow> (None, w'')))"

subsection \<open>Lemmas\<close>

lemma batch_metrics_nonempty [simp]: "batch_metrics gs d \<noteq> []"
  by (simp add: batch_metrics_def)

lemma batch_metrics_complete: "list_all complete_metric (batch_metrics gs d)"
  by (auto simp: batch_metrics_def list_all_iff)

lemma batch_counter_deltas:
  "counter_deltas n (batch_metrics gs d) = (if n = ''PollCount'' then [d] else [])"
proof -
  have "filter (\<lambda>m. MType m = Counter \<and> ID m = n) (map (\<lambda>(name, v). gauge_metric name v) gs) = []"
    by (auto simp: filter_empty_conv)
  then show ?thesis by (simp add: counter_deltas_def batch_metrics_def)
qed

lemma updateGauge_sel [simp]:
  "pollSinceReport (updateGauge s n v w) = pollSinceReport w" "ag_net (updateGauge s n v w) = ag_net w"
  by (simp_all add: updateGauge_def)

lemma update_gauges_sel [simp]:
  "pollSinceReport (update_gauges s gs w) = pollSinceReport w" "ag_net (update_gauges s gs w) = ag_net w"
  by (induction gs arbitrary: w) (auto simp: update_gauges_def split: prod.splits)

text \<open>The agent's storage is the in-memory one; what a list of gauge updates leaves in it.\<close>

definition mem_reporting :: "'n MetricsSender \<Rightarrow> (MemStorage, 'n) ReportingService" where
  "mem_reporting sd = ReportingService_New mem_storage sd"

lemma mem_reporting_sel [simp]: "as_repo (mem_reporting sd) = mem_storage" "as_sender (mem_reporting sd) = sd"
  by (simp_all add: mem_reporting_def ReportingService_New_def)

lemma mem_update_gauges:
  "gauges (ag_repo (update_gauges (mem_reporting sd) gs w)) = fold (\<lambda>(n, v) g. g(n \<mapsto> v)) gs (gauges (ag_repo w))"
  "counters (ag_repo (update_gauges (mem_reporting sd) gs w)) = counters (ag_repo w)"
  by (induction gs arbitrary: w)
    (auto simp: update_gauges_def updateGauge_def MemStorage_UpdateGauge_def split: prod.splits)

text \<open>Preparing a report on a storage whose snapshot succeeds or fails.\<close>

lemma prepareReport_cases:
  obtains (none) "skip" "pollSinceReport w = 0" "prepareReport og s skip w = (Inr None, w\<lparr>pollSinceReport := 0\<rparr>)"
  | (err) e w' where "prepareReport og s skip w = (Inl e, w')" "pollSinceReport w' = pollSinceReport w" "ag_net w' = ag_net w"
  | (ok) gs r' where "prepareReport og s skip w =
      (Inr (Some \<lparr>RMetrics = batch_metrics gs (pollSinceReport w), PollCount = pollSinceReport w\<rparr>),
       w\<lparr>ag_repo := r', pollSinceReport := 0\<rparr>)"
      "\<exists>g c. Snapshot (as_repo s) (ag_repo w) = (Inr (g, c), r') \<and> gs = og g"
proof (cases "skip \<and> pollSinceReport w = 0")
  case True
  then show ?thesis using none by (simp add: prepareReport_def)
next
  case False
  obtain x r' where x: "Snapshot (as_repo s) (ag_repo w) = (x, r')" by force
  show ?thesis
  proof (cases x)
    case (Inl e)
    then show ?thesis
      using False x err by (auto simp: prepareReport_def buildMetricsBatch_def add_polls_def Let_def)
  next
    case (Inr gc)
    then show ?thesis
      using False x ok by (cases gc) (auto simp: prepareReport_def buildMetricsBatch_def Let_def)
  qed
qed

subsection \<open>Properties\<close>

lemma view_gauge_list:
  "vgauges (view_metrics (map (\<lambda>(name, v). gauge_metric name v) gs) vw) = fold (\<lambda>(n, v) g. g(n \<mapsto> v)) gs (vgauges vw)"
  by (induction gs arbitrary: vw) (auto simp: view_gauge_def)

lemma view_batch_metrics:
  assumes "distinct (map fst gs)"
  shows "vgauges (view_metrics (batch_metrics gs d) vw) = vgauges vw ++ map_of gs"
    and "vcounters (view_metrics (batch_metrics gs d) vw) n =
      (if n = ''PollCount'' then Some (counter_total (vcounters vw) n + d) else vcounters vw n)"
  using fold_upd_map_of [OF assms, of "vgauges vw"]
  by (simp_all add: view_metrics_counter batch_counter_deltas)
    (simp add: batch_metrics_def view_gauge_list)

definition report_polls :: "goerr + Report option \<Rightarrow> int64" where
  "report_polls res = (case res of Inr (Some rep) \<Rightarrow> PollCount rep | _ \<Rightarrow> 0)"

text \<open>
  No poll is lost or counted twice between the counter and a report: what
  \<open>prepareReport\<close> takes out of the counter is the poll count of the report it returns, an error
  leaves the counter as it was, and sending puts back exactly the count of a report that failed.
  Every prepared report carries only complete metrics and its poll count as the one counter.
\<close>

theorem report_polls_conserved:
  assumes "prepareReport og s skip w = (res, w')"
  shows "pollSinceReport w = pollSinceReport w' + report_polls res \<and>
    (\<forall>rep. res = Inr (Some rep) \<longrightarrow> list_all complete_metric (RMetrics rep) \<and>
       counter_deltas ''PollCount'' (RMetrics rep) = [PollCount rep]) \<and>
    (\<forall>rep e w''. Send s rep w' = (e, w'') \<longrightarrow>
       pollSinceReport w'' = pollSinceReport w' + (if e = None then 0 else PollCount rep))"
proof -
  have s: "pollSinceReport w'' = pollSinceReport w' + (if e = None then 0 else PollCount rep)"
    if "Send s rep w' = (e, w'')" for rep e w''
    using that by (auto simp: Send_def Restore_def add_polls_def split: prod.splits option.splits)
  show ?thesis
    using assms s by (cases rule: prepareReport_cases [where skip = skip and w = w and og = og and s = s])
      (auto simp: report_polls_def batch_metrics_complete batch_counter_deltas)
qed

definition demo_agent :: "(MemStorage, unit) agent_world" where
  "demo_agent = \<lparr>ag_repo = NewMemStorage\<lparr>gauges := [''Alloc'' \<mapsto> float_NaN]\<rparr>, ag_net = (), pollSinceReport = 4\<rparr>"

definition deaf_sender :: "unit MetricsSender" where
  "deaf_sender = (\<lambda>ms u. (Some (NetError ''connection refused''), u))"

theorem report_polls_conserved_witness:
  "\<exists>rep w' e w''. prepareReport sorted_range (mem_reporting deaf_sender) True demo_agent = (Inr (Some rep), w') \<and>
     pollSinceReport w' = 0 \<and> PollCount rep = 4 \<and> counter_deltas ''PollCount'' (RMetrics rep) = [4] \<and>
     Send (mem_reporting deaf_sender) rep w' = (Some e, w'') \<and> pollSinceReport w'' = 4"
proof -
  let ?rep = "\<lparr>RMetrics = batch_metrics (sorted_range [''Alloc'' \<mapsto> float_NaN]) 4, PollCount = 4\<rparr>"
  let ?w = "demo_agent\<lparr>pollSinceReport := 0\<rparr>"
  have p: "prepareReport sorted_range (mem_reporting deaf_sender) True demo_agent = (Inr (Some ?rep), ?w)"
    by (simp add: prepareReport_def buildMetricsBatch_def demo_agent_def Let_def)
  have s: "Send (mem_reporting deaf_sender) ?rep ?w = (Some (NetError ''connection refused''), Restore ?rep ?w)"
    by (simp add: Send_def deaf_sender_def demo_agent_def)
  show ?thesis
    using p s report_polls_conserved [OF p] by (fastforce simp: report_polls_def demo_agent_def)
qed

text \<open>
  A report carries the agent's state to the server: applied to the server's storage, the
  batch that a successful \<open>prepareReport\<close> returns overwrites the gauges of the server with all
  gauges of the agent, adds the counted polls to its counter \<open>PollCount\<close> (modulo \<open>2^64\<close>), and
  touches no other counter.
\<close>

theorem agent_report_transfers:
  assumes "fair_order og" "finite (dom (gauges (ag_repo w)))"
    and "prepareReport og (mem_reporting sd) skip w = (Inr (Some rep), w')"
  shows "\<exists>srv'. MemStorage_UpdateMetrics (RMetrics rep) srv = (Return None, srv') \<and>
    gauges srv' = gauges srv ++ gauges (ag_repo w) \<and>
    (\<forall>n. counters srv' n =
       (if n = ''PollCount'' then Some (counter_total (counters srv) n + pollSinceReport w) else counters srv n))"
proof -
  have en: "enumerates (og (gauges (ag_repo w))) (gauges (ag_repo w))"
    using assms(1,2) by (simp add: fair_order_def)
  have rep: "RMetrics rep = batch_metrics (og (gauges (ag_repo w))) (pollSinceReport w)"
    using assms(3) by (cases rule: prepareReport_cases [where skip = skip and w = w and og = og and s = "mem_reporting sd"]) auto
  from mem_UpdateMetrics_complete [OF batch_metrics_complete, of "og (gauges (ag_repo w))" "pollSinceReport w" srv]
  obtain srv' where srv': "MemStorage_UpdateMetrics (RMetrics rep) srv = (Return None, srv')"
      "mem_view srv' = view_metrics (RMetrics rep) (mem_view srv)"
    by (auto simp: rep)
  have "distinct (map fst (og (gauges (ag_repo w))))" "map_of (og (gauges (ag_repo w))) = gauges (ag_repo w)"
    using en by (simp_all add: enumerates_def)
  then show ?thesis
    using srv' view_batch_metrics [of "og (gauges (ag_repo w))" "pollSinceReport w" "mem_view srv"]
    by (metis mem_view_sel rep)
qed

theorem agent_report_transfers_witness:
  "\<exists>rep w' srv'. prepareReport sorted_range (mem_reporting deaf_sender) True demo_agent = (Inr (Some rep), w') \<and>
     MemStorage_UpdateMetrics (RMetrics rep) (NewMemStorage\<lparr>counters := [''PollCount'' \<mapsto> 3]\<rparr>) = (Return None, srv') \<and>
     counters srv' ''PollCount'' = Some 7 \<and> gauges srv' = [''Alloc'' \<mapsto> float_NaN]"
proof -
  obtain rep w' where p: "prepareReport sorted_range (mem_reporting deaf_sender) True demo_agent = (Inr (Some rep), w')"
    by (auto simp: prepareReport_def buildMetricsBatch_def demo_agent_def Let_def)
  have "finite (dom (gauges (ag_repo demo_agent)))" by (simp add: demo_agent_def)
  from agent_report_transfers [OF sorted_range_fair this p, of "NewMemStorage\<lparr>counters := [''PollCount'' \<mapsto> 3]\<rparr>"] p
  show ?thesis by (fastforce simp: demo_agent_def counter_total_def)
qed

text \<open>
  A poll of the runtime overwrites its 28 gauges, each with the measured value, leaves every
  other gauge, all counters and the sender alone, and counts as exactly one poll; so the poll
  counter after \<open>k\<close> polls has grown by \<open>k\<close>, modulo \<open>2^64\<close>.
\<close>

theorem PollRuntime_exact:
  "gauges (ag_repo (PollRuntime (mem_reporting sd) ms rnd w)) = gauges (ag_repo w) ++ map_of (runtime_gauges ms rnd)
   \<and> length (runtime_gauges ms rnd) = 28 \<and> distinct (map fst (runtime_gauges ms rnd))
   \<and> counters (ag_repo (PollRuntime (mem_reporting sd) ms rnd w)) = counters (ag_repo w)
   \<and> ag_net (PollRuntime (mem_reporting sd) ms rnd w) = ag_net w
   \<and> pollSinceReport (fold (\<lambda>(m, x). PollRuntime (mem_reporting sd) m x) runs w) = pollSinceReport w + of_nat (length runs)"
proof -
  have d: "distinct (map fst (runtime_gauges ms rnd))" "length (runtime_gauges ms rnd) = 28"
    by (simp_all add: runtime_gauges_def)
  have n: "pollSinceReport (fold (\<lambda>(m, x). PollRuntime (mem_reporting sd) m x) runs w) = pollSinceReport w + of_nat (length runs)"
    by (induction runs arbitrary: w) (auto simp: PollRuntime_def add_polls_def)
  show ?thesis
    using fold_upd_map_of [OF d(1), of "gauges (ag_repo w)"] d n
    by (auto simp: PollRuntime_def add_polls_def mem_update_gauges)
qed

text \<open>
  The final flush empties the poll counter exactly when it succeeds: on success the sender has
  accepted a batch holding all gauges and the whole poll count; on failure the counter is what it
  was before, so the polls can still be reported.
\<close>

theorem Flush_all_or_nothing:
  assumes "Flush og (mem_reporting sd) w = (e, w')"
  shows "ag_repo w' = ag_repo w \<and>
    (\<exists>err net'. sd (batch_metrics (og (gauges (ag_repo w))) (pollSinceReport w)) (ag_net w) = (err, net') \<and> ag_net w' = net' \<and>
       (e = None \<longleftrightarrow> err = None) \<and>
       pollSinceReport w' = (if e = None then 0 else pollSinceReport w))"
  using assms
  by (auto simp: Flush_def prepareFinalReport_def prepareReport_def buildMetricsBatch_def Send_def Restore_def
      add_polls_def Let_def split: prod.splits option.splits)

theorem Flush_all_or_nothing_witness:
  "pollSinceReport (snd (Flush sorted_range (mem_reporting deaf_sender) demo_agent)) = 4 \<and>
   pollSinceReport (snd (Flush sorted_range (mem_reporting (\<lambda>ms u. (None, u))) demo_agent)) = 0"
  using Flush_all_or_nothing [of sorted_range deaf_sender demo_agent, OF prod.collapse [symmetric]]
    Flush_all_or_nothing [of sorted_range "\<lambda>ms u. (None, u)" demo_agent, OF prod.collapse [symmetric]]
  by (auto simp: deaf_sender_def demo_agent_def)

end
