(* ===== verification/ConfigSources.thy ===== *)
theory ConfigSources
  imports FileStore
begin

text \<open>
  What the two configuration packages read from: the command line (package \<^verbatim>\<open>flag\<close>), the environment
  (\<^verbatim>\<open>env.go\<close> of both packages), a JSON file, and durations (\<^verbatim>\<open>time.ParseDuration\<close>). Integers are
  64-bit, as on the platforms the program is built for.

  The main facts: a printed number of seconds is read back as that number; the value a flag gets is
  that of its last occurrence.
\<close>

subsection \<open>Integers in any base\<close>

text \<open>\<^verbatim>\<open>strconv.ParseInt(s, 0, 64)\<close>, which reads integer flags: the prefix selects the base and underscores may separate digits.\<close>

definition base_digit :: "char \<Rightarrow> nat option" where
  "base_digit c =
     (let l = ascii_lower c
      in if is_digit c then Some (digit_value c)
         else if 97 \<le> char_code l \<and> char_code l \<le> 122 then Some (char_code l - 87)
         else None)"

fun base_digits :: "nat \<Rightarrow> nat \<Rightarrow> string \<Rightarrow> strconv_error + nat" where
  "base_digits b n [] = Inr n"
| "base_digits b n (c # cs) =
     (if c = CHR ''_'' then base_digits b n cs
      else case base_digit c of
          None \<Rightarrow> Inl ErrSyntax
        | Some d \<Rightarrow>
            if b \<le> d then Inl ErrSyntax
            else if 2 ^ 64 \<le> b * n + d then Inl ErrRange
            else base_digits b (b * n + d) cs)"

definition split_base :: "string \<Rightarrow> nat \<times> string" where
  "split_base s =
     (if s ! 0 \<noteq> CHR ''0'' then (10, s)
      else if 3 \<le> length s \<and> ascii_lower (s ! 1) = CHR ''b'' then (2, drop 2 s)
      else if 3 \<le> length s \<and> ascii_lower (s ! 1) = CHR ''o'' then (8, drop 2 s)
      else if 3 \<le> length s \<and> ascii_lower (s ! 1) = CHR ''x'' then (16, drop 2 s)
      else (8, tl s))"

definition ParseUint_base0 :: "string \<Rightarrow> strconv_error + nat" where
  "ParseUint_base0 s =
     (if s = [] then Inl ErrSyntax
      else case split_base s of (b, t) \<Rightarrow>
        (case base_digits b 0 t of
           Inl e \<Rightarrow> Inl e
         | Inr n \<Rightarrow> if CHR ''_'' \<in> set t \<and> \<not> underscoreOK s then Inl ErrSyntax else Inr n))"

definition ParseInt_base0 :: "string \<Rightarrow> strconv_error + int64" where
  "ParseInt_base0 s =
     (case split_sign s of (neg, ds) \<Rightarrow>
        (case ParseUint_base0 ds of
           Inl e \<Rightarrow> Inl e
         | Inr un \<Rightarrow>
             if \<not> neg \<and> 2 ^ 63 \<le> un then Inl ErrRange
             else if neg \<and> 2 ^ 63 < un then Inl ErrRange
             else Inr (if neg then word_of_int (- int un) else word_of_int (int un))))"

subsection \<open>Package flag\<close>

datatype flag_kind = StringFlag | IntFlag | BoolFlag

datatype flag_value = FlagString string | FlagInt int64 | FlagBool bool

type_synonym flag_set = "string \<rightharpoonup> flag_kind"

definition flag_error :: "string \<Rightarrow> goerr" where
  "flag_error name = LibError (''flag: '' @ name)"

fun set_flag :: "flag_kind \<Rightarrow> string \<Rightarrow> flag_value option" where
  "set_flag StringFlag v = Some (FlagString v)"
| "set_flag IntFlag v = (case ParseInt_base0 v of Inl _ \<Rightarrow> None | Inr i \<Rightarrow> Some (FlagInt i))"
| "set_flag BoolFlag v = (case ParseBool v of Inl _ \<Rightarrow> None | Inr b \<Rightarrow> Some (FlagBool b))"

text \<open>One argument: not a flag (parsing stops), a malformed flag, or a name with an optional value.\<close>

datatype flag_arg = NoFlag | BadFlag | FlagArg string "string option"

definition split_flag :: "string \<Rightarrow> flag_arg" where
  "split_flag s =
     (if length s < 2 \<or> s ! 0 \<noteq> CHR ''-'' then NoFlag
      else if s = ''--'' then NoFlag
      else
        let name = drop (if s ! 1 = CHR ''-'' then 2 else 1) s
        in if name = [] \<or> hd name = CHR ''-'' \<or> hd name = CHR ''='' then BadFlag
           else
             let key = takeWhile (\<lambda>c. c \<noteq> CHR ''='') name; rest = drop (length key) name
             in FlagArg key (if rest = [] then None else Some (tl rest)))"

text \<open>
  \<^verbatim>\<open>FlagSet.Parse\<close>: the assignments to the flag variables in the order they are made. Parsing ends
  without an error at the first argument that is not a flag.
\<close>

fun FlagSet_Parse :: "flag_set \<Rightarrow> string list \<Rightarrow> goerr + (string \<times> flag_value) list" where
  "FlagSet_Parse formal [] = Inr []"
| "FlagSet_Parse formal (s # args) =
     (case split_flag s of
        NoFlag \<Rightarrow> Inr []
      | BadFlag \<Rightarrow> Inl (flag_error ''bad flag syntax'')
      | FlagArg name given \<Rightarrow>
          (case formal name of
             None \<Rightarrow> Inl (if name \<in> {''help'', ''h''} then LibError ''flag: help requested'' else flag_error name)
           | Some kind \<Rightarrow>
               (case (given, kind, args) of
                  (Some v, _, _) \<Rightarrow>
                    (case set_flag kind v of
                       None \<Rightarrow> Inl (flag_error name)
                     | Some x \<Rightarrow> map_sum id ((#) (name, x)) (FlagSet_Parse formal args))
                | (None, BoolFlag, _) \<Rightarrow>
                    map_sum id ((#) (name, FlagBool True)) (FlagSet_Parse formal args)
                | (None, _, []) \<Rightarrow> Inl (flag_error name)
                | (None, _, v # args') \<Rightarrow>
                    (case set_flag kind v of
                       None \<Rightarrow> Inl (flag_error name)
                     | Some x \<Rightarrow> map_sum id ((#) (name, x)) (FlagSet_Parse formal args')))))"

text \<open>The value of a flag variable after parsing, and whether \<^verbatim>\<open>flags.Visit\<close> sees the flag.\<close>

definition flag_set_value :: "(string \<times> flag_value) list \<Rightarrow> string set \<Rightarrow> flag_value option" where
  "flag_set_value asg names = (case filter (\<lambda>a. fst a \<in> names) asg of [] \<Rightarrow> None | as \<Rightarrow> Some (snd (last as)))"

definition flag_string :: "(string \<times> flag_value) list \<Rightarrow> string set \<Rightarrow> string \<Rightarrow> string" where
  "flag_string asg names def =
     (case flag_set_value asg names of Some (FlagString s) \<Rightarrow> s | _ \<Rightarrow> def)"

definition flag_int :: "(string \<times> flag_value) list \<Rightarrow> string \<Rightarrow> int64 \<Rightarrow> int64" where
  "flag_int asg name def =
     (case flag_set_value asg {name} of Some (FlagInt i) \<Rightarrow> i | _ \<Rightarrow> def)"

definition flag_bool :: "(string \<times> flag_value) list \<Rightarrow> string \<Rightarrow> bool \<Rightarrow> bool" where
  "flag_bool asg name def =
     (case flag_set_value asg {name} of Some (FlagBool b) \<Rightarrow> b | _ \<Rightarrow> def)"

definition visited :: "(string \<times> flag_value) list \<Rightarrow> string \<Rightarrow> bool" where
  "visited asg name \<longleftrightarrow> name \<in> fst ` set asg"

subsection \<open>The environment\<close>

type_synonym lookupEnvFunc = "string \<Rightarrow> string option"

definition env_error :: "string \<Rightarrow> string \<Rightarrow> goerr" where
  "env_error name v = ErrorfW ''parse environment variable %s=%q: %w'' [FStr name, FStr v] (LibError ''strconv'')"

text \<open>The result is an error, no value, or the value.\<close>

definition getEnvInt :: "lookupEnvFunc \<Rightarrow> string \<Rightarrow> goerr + int64 option" where
  "getEnvInt lookupEnv name =
     (case lookupEnv name of
        Some value \<Rightarrow>
          (case Atoi value of Inl _ \<Rightarrow> Inl (env_error name value) | Inr parsed \<Rightarrow> Inr (Some parsed))
      | None \<Rightarrow> Inr None)"

definition getEnvBool :: "lookupEnvFunc \<Rightarrow> string \<Rightarrow> goerr + bool option" where
  "getEnvBool lookupEnv name =
     (case lookupEnv name of
        Some value \<Rightarrow>
          (case ParseBool value of Inl _ \<Rightarrow> Inl (env_error name value) | Inr parsed \<Rightarrow> Inr (Some parsed))
      | None \<Rightarrow> Inr None)"

subsection \<open>JSON members\<close>

fun decode_string_ptr :: "json \<Rightarrow> string option option" where
  "decode_string_ptr JNull = Some None"
| "decode_string_ptr (JStr s) = Some (Some s)"
| "decode_string_ptr _ = None"

fun decode_bool_ptr :: "json \<Rightarrow> bool option option" where
  "decode_bool_ptr JNull = Some None"
| "decode_bool_ptr (JBool b) = Some (Some b)"
| "decode_bool_ptr _ = None"

text \<open>Decoding an object into a struct, member by member; null leaves the struct as it is.\<close>

fun decode_fields :: "(string \<Rightarrow> json \<Rightarrow> 'c \<Rightarrow> 'c option) \<Rightarrow> (string \<times> json) list \<Rightarrow> 'c \<Rightarrow> 'c option" where
  "decode_fields f [] c = Some c"
| "decode_fields f ((k, j) # kvs) c =
     (case f (fold_case k) j c of None \<Rightarrow> None | Some c' \<Rightarrow> decode_fields f kvs c')"

fun decode_struct :: "(string \<Rightarrow> json \<Rightarrow> 'c \<Rightarrow> 'c option) \<Rightarrow> json \<Rightarrow> 'c \<Rightarrow> 'c option" where
  "decode_struct f JNull c = Some c"
| "decode_struct f (JObj kvs) c = decode_fields f kvs c"
| "decode_struct f _ c = None"

subsection \<open>Durations\<close>

text \<open>
  \<^verbatim>\<open>time.ParseDuration\<close>: a sequence of decimal numbers with units, in nanoseconds. The integer part
  is exact and fails on overflow; the fraction of a number goes through \<^verbatim>\<open>float64\<close> arithmetic.
\<close>

definition duration_Second :: int where
  "duration_Second = 1000000000"

fun leadingInt :: "nat \<Rightarrow> string \<Rightarrow> (nat \<times> string) option" where
  "leadingInt x [] = Some (x, [])"
| "leadingInt x (c # cs) =
     (if \<not> is_digit c then Some (x, c # cs)
      else if 2 ^ 63 div 10 < x then None
      else let y = x * 10 + digit_value c in if 2 ^ 63 < y then None else leadingInt y cs)"

text \<open>The digits after the point: the number, how many of them count, and the rest; digits past the overflow are skipped.\<close>

fun leadingFraction :: "nat \<Rightarrow> nat \<Rightarrow> bool \<Rightarrow> string \<Rightarrow> nat \<times> nat \<times> string" where
  "leadingFraction x k ovf [] = (x, k, [])"
| "leadingFraction x k ovf (c # cs) =
     (if \<not> is_digit c then (x, k, c # cs)
      else if ovf then leadingFraction x k True cs
      else if (2 ^ 63 - 1) div 10 < x then leadingFraction x k True cs
      else let y = x * 10 + digit_value c
           in if 2 ^ 63 < y then leadingFraction x k True cs else leadingFraction y (Suc k) False cs)"

definition unitMap :: "string \<rightharpoonup> nat" where
  "unitMap = map_of
     [(''ns'', 1), (''us'', 1000), ([CHR 0xC2, CHR 0xB5, CHR ''s''], 1000), ([CHR 0xCE, CHR 0xBC, CHR ''s''], 1000),
      (''ms'', 1000000), (''s'', 1000000000), (''m'', 60000000000), (''h'', 3600000000000)]"

text \<open>\<^verbatim>\<open>uint64(float64(f) * (float64(unit) / scale))\<close>, each operation rounded to the nearest double.\<close>

definition fraction_part :: "nat \<Rightarrow> nat \<Rightarrow> nat \<Rightarrow> nat" where
  "fraction_part f unit k =
     (case (mag_ratio (round_mag f 1), mag_ratio (round_mag unit 1), mag_ratio (round_mag (10 ^ k) 1)) of
        ((fn, fd), (un, ud), (sn, sd)) \<Rightarrow>
          (case mag_ratio (round_mag (un * sd) (ud * sn)) of
             (qn, qd) \<Rightarrow> (case mag_ratio (round_mag (fn * qn) (fd * qd)) of (n, d) \<Rightarrow> n div d)))"

definition is_unit_char :: "char \<Rightarrow> bool" where
  "is_unit_char c \<longleftrightarrow> c \<noteq> CHR ''.'' \<and> \<not> is_digit c"

text \<open>One number with its unit: the nanoseconds and the rest of the text.\<close>

definition duration_item :: "string \<Rightarrow> (nat \<times> string) option" where
  "duration_item s =
     (if s = [] \<or> \<not> (hd s = CHR ''.'' \<or> is_digit (hd s)) then None
      else case leadingInt 0 s of
          None \<Rightarrow> None
        | Some (v, s1) \<Rightarrow>
            let pre = length s1 \<noteq> length s;
                dot = (s1 \<noteq> [] \<and> hd s1 = CHR ''.'');
                (f, k, s2) = (if dot then leadingFraction 0 0 False (tl s1) else (0, 0, s1));
                post = (dot \<and> length s2 \<noteq> length (tl s1));
                u = takeWhile is_unit_char s2; s3 = dropWhile is_unit_char s2
            in if \<not> pre \<and> \<not> post then None
               else case unitMap u of
                   None \<Rightarrow> None
                 | Some unit \<Rightarrow>
                     if 2 ^ 63 div unit < v then None
                     else
                       let w = v * unit + (if 0 < f then fraction_part f unit k else 0)
                       in if 0 < f \<and> 2 ^ 63 < w then None else Some (w, s3))"

lemma length_leadingInt: "leadingInt x s = Some (v, r) \<Longrightarrow> length r \<le> length s"
  by (induction x s rule: leadingInt.induct) (auto simp: Let_def split: if_splits)

lemma length_leadingFraction: "leadingFraction x k ovf s = (f, k', r) \<Longrightarrow> length r \<le> length s"
  by (induction x k ovf s rule: leadingFraction.induct) (auto simp: Let_def split: if_splits)

lemma duration_item_decreases:
  assumes "duration_item s = Some (w, r)"
  shows "length r < length s"
proof -
  obtain v s1 where v: "leadingInt 0 s = Some (v, s1)" and s: "s \<noteq> []"
    using assms by (auto simp: duration_item_def split: if_splits option.splits)
  define dot where "dot = (s1 \<noteq> [] \<and> hd s1 = CHR ''.'')"
  obtain f k s2 where f: "(if dot then leadingFraction 0 0 False (tl s1) else (0, 0, s1)) = (f, k, s2)"
    by (metis prod_cases3)
  obtain unit where u: "unitMap (takeWhile is_unit_char s2) = Some unit" and r: "r = dropWhile is_unit_char s2"
    using assms v f by (auto simp: duration_item_def dot_def [symmetric] Let_def split: if_splits option.splits)
  have "length s1 \<le> length s" by (rule length_leadingInt [OF v])
  moreover have "length s2 \<le> length s1"
    using f length_leadingFraction [of 0 0 False "tl s1" f k s2] by (auto split: if_splits)
  moreover have "takeWhile is_unit_char s2 \<noteq> []"
    using u by (auto simp: unitMap_def)
  then have "length r < length s2"
    unfolding r by (metis add_less_cancel_right append_Nil length_append length_greater_0_conv less_add_same_cancel2
        takeWhile_dropWhile_id)
  ultimately show ?thesis by simp
qed

function duration_loop :: "nat \<Rightarrow> string \<Rightarrow> nat option" where
  "duration_loop d s =
     (if s = [] then Some d
      else case duration_item s of
          None \<Rightarrow> None
        | Some (v, r) \<Rightarrow> if 2 ^ 63 < d + v then None else duration_loop (d + v) r)"
  by pat_completeness auto

termination
  by (relation "measure (\<lambda>(d, s). length s)") (auto dest: duration_item_decreases)

declare duration_loop.simps [simp del]

definition ParseDuration :: "string \<Rightarrow> int option" where
  "ParseDuration s =
     (case split_sign s of (neg, t) \<Rightarrow>
        if t = ''0'' then Some 0
        else if t = [] then None
        else case duration_loop 0 t of
            None \<Rightarrow> None
          | Some d \<Rightarrow> if neg then Some (- int d) else if 2 ^ 63 - 1 < d then None else Some (int d))"

text \<open>A duration of whole seconds, as both packages read intervals; division truncates towards zero.\<close>

definition whole_seconds :: "string \<Rightarrow> string \<Rightarrow> goerr + int64" where
  "whole_seconds name value =
     (case ParseDuration value of
        None \<Rightarrow> Inl (ErrorfW ''parse %s %q: %w'' [FStr name, FStr value] (LibError ''time: invalid duration''))
      | Some d \<Rightarrow>
          if d mod duration_Second \<noteq> 0
          then Inl (Errorf ''parse %s %q: duration must contain whole seconds'' [FStr name, FStr value])
          else Inr (word_of_int (d div duration_Second)))"

subsection \<open>Which source wins\<close>

named_theorems config_simps \<open>conditional assignments to the fields of a configuration\<close>

text \<open>Assigning a field of a configuration when a pointer is not nil, or a variable is set.\<close>

definition set_ptr :: "'a option \<Rightarrow> ('a \<Rightarrow> 'c \<Rightarrow> 'c) \<Rightarrow> 'c \<Rightarrow> 'c" where
  "set_ptr p f c = (case p of None \<Rightarrow> c | Some v \<Rightarrow> f v c)"

text \<open>The first source that gives a value wins; the sources are listed from the strongest.\<close>

fun first_of :: "'a option list \<Rightarrow> 'a \<Rightarrow> 'a" where
  "first_of [] d = d"
| "first_of (Some v # vs) d = v"
| "first_of (None # vs) d = first_of vs d"

lemma first_of_nest [simp]: "first_of ps (first_of qs d) = first_of (ps @ qs) d"
  by (induction ps d rule: first_of.induct) simp_all

definition env_int :: "lookupEnvFunc \<Rightarrow> string \<Rightarrow> int64 option" where
  "env_int lookupEnv name = (case getEnvInt lookupEnv name of Inr v \<Rightarrow> v | Inl _ \<Rightarrow> None)"

definition env_bool :: "lookupEnvFunc \<Rightarrow> string \<Rightarrow> bool option" where
  "env_bool lookupEnv name = (case getEnvBool lookupEnv name of Inr v \<Rightarrow> v | Inl _ \<Rightarrow> None)"

definition file_seconds :: "string \<Rightarrow> string option \<Rightarrow> int64 option" where
  "file_seconds name v = (case map_option (whole_seconds name) v of Some (Inr n) \<Rightarrow> Some n | _ \<Rightarrow> None)"

definition flag_given :: "(string \<times> flag_value) list \<Rightarrow> string \<Rightarrow> 'a \<Rightarrow> 'a option" where
  "flag_given asg name v = (if visited asg name then Some v else None)"

text \<open>The path of the configuration file: the variable \<^verbatim>\<open>CONFIG\<close>, else the last of the two flags.\<close>

definition config_path :: "lookupEnvFunc \<Rightarrow> (string \<times> flag_value) list \<Rightarrow> string" where
  "config_path env asg = first_of [env ''CONFIG''] (flag_string asg {''c'', ''config''} [])"

lemma config_path_case:
  "(case env ''CONFIG'' of None \<Rightarrow> flag_string asg {''c'', ''config''} [] | Some value \<Rightarrow> value) = config_path env asg"
  by (simp add: config_path_def split: option.splits)

subsection \<open>Lemmas\<close>

lemma leadingInt_digits:
  assumes "list_all is_digit ds" "foldl (\<lambda>n c. 10 * n + digit_value c) x ds \<le> 2 ^ 63"
    and "rest = [] \<or> \<not> is_digit (hd rest)"
  shows "leadingInt x (ds @ rest) = Some (foldl (\<lambda>n c. 10 * n + digit_value c) x ds, rest)"
  using assms
proof (induction ds arbitrary: x)
  case Nil
  then show ?case by (cases rest) auto
next
  case (Cons c ds)
  have "10 * x + digit_value c \<le> 2 ^ 63"
    using foldl_digits_mono [of "10 * x + digit_value c" ds] Cons.prems(2) by simp
  with Cons show ?case by (simp add: mult.commute)
qed

lemma duration_item_seconds:
  assumes "n * 1000000000 < 2 ^ 63"
  shows "duration_item (format_nat n @ ''s'') = Some (n * 1000000000, [])"
proof -
  have d: "list_all is_digit (format_nat n)" by (rule format_nat_digits)
  then have h: "is_digit (hd (format_nat n @ ''s''))"
    by (cases "format_nat n") auto
  have v: "foldl (\<lambda>n c. 10 * n + digit_value c) 0 (format_nat n) = n"
    using digits_value_format_nat [of n] by (simp add: digits_value_def)
  have "leadingInt 0 (format_nat n @ ''s'') = Some (n, ''s'')"
    using leadingInt_digits [OF d, of 0 "''s''"] assms v by (simp add: is_digit_def)
  with h assms show ?thesis
    by (simp add: duration_item_def unitMap_def is_unit_char_def is_digit_def div_less_iff_less_mult)
qed

lemma ParseDuration_seconds:
  assumes "n * 1000000000 < 2 ^ 63"
  shows "ParseDuration (format_nat n @ ''s'') = Some (int n * duration_Second)"
proof -
  have s: "split_sign (format_nat n @ ''s'') = (False, format_nat n @ ''s'')"
    using format_nat_digits [of n] by (cases "format_nat n") (auto dest: is_digit_not_sign)
  have "format_nat n @ ''s'' \<noteq> ''0''"
    using format_nat_nonempty [of n] by (cases "format_nat n") auto
  moreover have "duration_loop 0 (format_nat n @ ''s'') = Some (n * 1000000000)"
    using assms duration_item_seconds [OF assms] by (simp add: duration_loop.simps [of 0] duration_loop.simps [of "n * 1000000000"])
  ultimately show ?thesis using assms s by (simp add: ParseDuration_def duration_Second_def)
qed

lemma whole_seconds_printed:
  assumes "n * 1000000000 < 2 ^ 63"
  shows "whole_seconds name (format_nat n @ ''s'') = Inr (of_nat n)"
  using ParseDuration_seconds [OF assms] by (simp add: whole_seconds_def duration_Second_def)

text \<open>What the flags leave in a variable depends only on its own assignments.\<close>

lemma flag_set_value_unvisited: "\<not> visited asg name \<Longrightarrow> flag_set_value asg {name} = None"
proof -
  assume "\<not> visited asg name"
  then have "filter (\<lambda>a. fst a \<in> {name}) asg = []" by (auto simp: filter_empty_conv visited_def)
  then show ?thesis by (simp add: flag_set_value_def)
qed

end
