(* ===== verification/AgentConfig.thy ===== *)
theory AgentConfig
  imports ConfigSources
begin

text \<open>
  The agent's configuration (\<^verbatim>\<open>src/internal/agent/config/\<close>): defaults, overridden by a JSON file, by
  flags and by environment variables, then validated. The functions that fill a configuration through
  a pointer return it together with the error, as it is when they return.

  The main facts: which source wins for each field, that an accepted configuration is usable by
  \<^verbatim>\<open>agent.New\<close>, and that intervals survive being printed as durations.
\<close>

type_synonym Transport = string

definition TransportGRPC :: Transport where
  "TransportGRPC = ''grpc''"

definition TransportHTTP :: Transport where
  "TransportHTTP = ''http''"

record AgentConfig =
  ac_ServerAddr :: string
  ac_Transport :: Transport
  ac_PollIntervalInSec :: int64
  ac_ReportIntervalInSec :: int64
  ac_RateLimit :: int64
  ac_Key :: string
  ac_CryptoKey :: string
  ac_GRPCTLSCA :: string

definition defaultAgentConfig :: AgentConfig where
  "defaultAgentConfig =
     \<lparr>ac_ServerAddr = ''localhost:50051'', ac_Transport = TransportGRPC, ac_PollIntervalInSec = 2,
      ac_ReportIntervalInSec = 10, ac_RateLimit = 5, ac_Key = [], ac_CryptoKey = [], ac_GRPCTLSCA = []\<rparr>"

subsection \<open>The file\<close>

record agentFileConfig =
  af_Address :: "string option"
  af_Transport :: "string option"
  af_PollInterval :: "string option"
  af_ReportInterval :: "string option"
  af_RateLimit :: "int64 option"
  af_Key :: "string option"
  af_CryptoKey :: "string option"
  af_GRPCTLSCA :: "string option"

definition zero_agentFileConfig :: agentFileConfig where
  "zero_agentFileConfig =
     \<lparr>af_Address = None, af_Transport = None, af_PollInterval = None, af_ReportInterval = None,
      af_RateLimit = None, af_Key = None, af_CryptoKey = None, af_GRPCTLSCA = None\<rparr>"

definition agentFile_field :: "string \<Rightarrow> json \<Rightarrow> agentFileConfig \<Rightarrow> agentFileConfig option" where
  "agentFile_field n j c =
     (if n = ''address'' then map_option (\<lambda>v. c\<lparr>af_Address := v\<rparr>) (decode_string_ptr j)
      else if n = ''transport'' then map_option (\<lambda>v. c\<lparr>af_Transport := v\<rparr>) (decode_string_ptr j)
      else if n = ''poll_interval'' then map_option (\<lambda>v. c\<lparr>af_PollInterval := v\<rparr>) (decode_string_ptr j)
      else if n = ''report_interval'' then map_option (\<lambda>v. c\<lparr>af_ReportInterval := v\<rparr>) (decode_string_ptr j)
      else if n = ''rate_limit'' then map_option (\<lambda>v. c\<lparr>af_RateLimit := v\<rparr>) (decode_int64_ptr j)
      else if n = ''key'' then map_option (\<lambda>v. c\<lparr>af_Key := v\<rparr>) (decode_string_ptr j)
      else if n = ''crypto_key'' then map_option (\<lambda>v. c\<lparr>af_CryptoKey := v\<rparr>) (decode_string_ptr j)
      else if n = ''grpc_tls_ca'' then map_option (\<lambda>v. c\<lparr>af_GRPCTLSCA := v\<rparr>) (decode_string_ptr j)
      else Some c)"

definition parseAgentDurationInSeconds :: "string \<Rightarrow> string \<Rightarrow> goerr + int64" where
  "parseAgentDurationInSeconds name value = whole_seconds name value"

definition applyAgentFile :: "agentFileConfig \<Rightarrow> AgentConfig \<Rightarrow> AgentConfig \<times> goerr option" where
  "applyAgentFile fileCfg cfg =
     (let cfg = set_ptr (af_Address fileCfg) (\<lambda>v c. c\<lparr>ac_ServerAddr := v\<rparr>) cfg;
          cfg = set_ptr (af_Transport fileCfg) (\<lambda>v c. c\<lparr>ac_Transport := v\<rparr>) cfg
      in case map_option (parseAgentDurationInSeconds ''poll_interval'') (af_PollInterval fileCfg) of
           Some (Inl err) \<Rightarrow> (cfg, Some err)
         | poll \<Rightarrow>
             let cfg = (case poll of Some (Inr n) \<Rightarrow> cfg\<lparr>ac_PollIntervalInSec := n\<rparr> | _ \<Rightarrow> cfg)
             in case map_option (parseAgentDurationInSeconds ''report_interval'') (af_ReportInterval fileCfg) of
                  Some (Inl err) \<Rightarrow> (cfg, Some err)
                | report \<Rightarrow>
                    let cfg = (case report of Some (Inr n) \<Rightarrow> cfg\<lparr>ac_ReportIntervalInSec := n\<rparr> | _ \<Rightarrow> cfg);
                        cfg = set_ptr (af_RateLimit fileCfg) (\<lambda>v c. c\<lparr>ac_RateLimit := v\<rparr>) cfg;
                        cfg = set_ptr (af_Key fileCfg) (\<lambda>v c. c\<lparr>ac_Key := v\<rparr>) cfg;
                        cfg = set_ptr (af_CryptoKey fileCfg) (\<lambda>v c. c\<lparr>ac_CryptoKey := v\<rparr>) cfg;
                        cfg = set_ptr (af_GRPCTLSCA fileCfg) (\<lambda>v c. c\<lparr>ac_GRPCTLSCA := v\<rparr>) cfg
                    in (cfg, None))"

definition loadAgentConfigFile :: "filesystem \<Rightarrow> string \<Rightarrow> AgentConfig \<Rightarrow> AgentConfig \<times> goerr option" where
  "loadAgentConfigFile fs filePath cfg =
     (case os_ReadFile filePath fs of
        Inl err \<Rightarrow> (cfg, Some (ErrorfW ''read agent config file %q: %w'' [FStr filePath] err))
      | Inr data \<Rightarrow>
          (case Option.bind (json_Unmarshal data) (\<lambda>j. decode_struct agentFile_field j zero_agentFileConfig) of
             None \<Rightarrow> (cfg, Some (ErrorfW ''decode agent config file %q: %w'' [FStr filePath] json_unmarshal_error))
           | Some fileCfg \<Rightarrow> applyAgentFile fileCfg cfg))"

subsection \<open>Flags and environment\<close>

definition agent_flags :: flag_set where
  "agent_flags = map_of
     [(''a'', StringFlag), (''transport'', StringFlag), (''p'', IntFlag), (''r'', IntFlag), (''l'', IntFlag),
      (''k'', StringFlag), (''crypto-key'', StringFlag), (''grpc-tls-ca'', StringFlag), (''c'', StringFlag),
      (''config'', StringFlag)]"

definition agent_flagCfg :: "(string \<times> flag_value) list \<Rightarrow> AgentConfig \<Rightarrow> AgentConfig" where
  "agent_flagCfg asg c =
     \<lparr>ac_ServerAddr = flag_string asg {''a''} (ac_ServerAddr c),
      ac_Transport = flag_string asg {''transport''} (ac_Transport c),
      ac_PollIntervalInSec = flag_int asg ''p'' (ac_PollIntervalInSec c),
      ac_ReportIntervalInSec = flag_int asg ''r'' (ac_ReportIntervalInSec c),
      ac_RateLimit = flag_int asg ''l'' (ac_RateLimit c),
      ac_Key = flag_string asg {''k''} (ac_Key c),
      ac_CryptoKey = flag_string asg {''crypto-key''} (ac_CryptoKey c),
      ac_GRPCTLSCA = flag_string asg {''grpc-tls-ca''} (ac_GRPCTLSCA c)\<rparr>"

definition applyAgentFlags :: "AgentConfig \<Rightarrow> (string \<Rightarrow> bool) \<Rightarrow> AgentConfig \<Rightarrow> AgentConfig" where
  "applyAgentFlags flagCfg setFlags cfg =
     (let cfg = (if setFlags ''a'' then cfg\<lparr>ac_ServerAddr := ac_ServerAddr flagCfg\<rparr> else cfg);
          cfg = (if setFlags ''transport'' then cfg\<lparr>ac_Transport := ac_Transport flagCfg\<rparr> else cfg);
          cfg = (if setFlags ''p'' then cfg\<lparr>ac_PollIntervalInSec := ac_PollIntervalInSec flagCfg\<rparr> else cfg);
          cfg = (if setFlags ''r'' then cfg\<lparr>ac_ReportIntervalInSec := ac_ReportIntervalInSec flagCfg\<rparr> else cfg);
          cfg = (if setFlags ''l'' then cfg\<lparr>ac_RateLimit := ac_RateLimit flagCfg\<rparr> else cfg);
          cfg = (if setFlags ''k'' then cfg\<lparr>ac_Key := ac_Key flagCfg\<rparr> else cfg);
          cfg = (if setFlags ''crypto-key'' then cfg\<lparr>ac_CryptoKey := ac_CryptoKey flagCfg\<rparr> else cfg);
          cfg = (if setFlags ''grpc-tls-ca'' then cfg\<lparr>ac_GRPCTLSCA := ac_GRPCTLSCA flagCfg\<rparr> else cfg)
      in cfg)"

text \<open>The package has its own copy of the reader of integer variables.\<close>

definition agent_getEnvInt :: "lookupEnvFunc \<Rightarrow> string \<Rightarrow> goerr + int64 option" where
  "agent_getEnvInt lookupEnv name =
     (case lookupEnv name of
        Some value \<Rightarrow>
          (case Atoi value of
             Inl _ \<Rightarrow> Inl (ErrorfW ''parse environment variable %s=%q: %w'' [FStr name, FStr value] (LibError ''strconv''))
           | Inr parsed \<Rightarrow> Inr (Some parsed))
      | None \<Rightarrow> Inr None)"

definition applyAgentEnvironment :: "lookupEnvFunc \<Rightarrow> AgentConfig \<Rightarrow> AgentConfig \<times> goerr option" where
  "applyAgentEnvironment lookupEnv cfg =
     (let cfg = set_ptr (lookupEnv ''ADDRESS'') (\<lambda>v c. c\<lparr>ac_ServerAddr := v\<rparr>) cfg;
          cfg = set_ptr (lookupEnv ''TRANSPORT'') (\<lambda>v c. c\<lparr>ac_Transport := v\<rparr>) cfg
      in case agent_getEnvInt lookupEnv ''POLL_INTERVAL'' of
           Inl err \<Rightarrow> (cfg, Some err)
         | Inr poll \<Rightarrow>
             let cfg = set_ptr poll (\<lambda>v c. c\<lparr>ac_PollIntervalInSec := v\<rparr>) cfg
             in case agent_getEnvInt lookupEnv ''REPORT_INTERVAL'' of
                  Inl err \<Rightarrow> (cfg, Some err)
                | Inr report \<Rightarrow>
                    let cfg = set_ptr report (\<lambda>v c. c\<lparr>ac_ReportIntervalInSec := v\<rparr>) cfg
                    in case agent_getEnvInt lookupEnv ''RATE_LIMIT'' of
                         Inl err \<Rightarrow> (cfg, Some err)
                       | Inr rateLimit \<Rightarrow>
                           let cfg = set_ptr rateLimit (\<lambda>v c. c\<lparr>ac_RateLimit := v\<rparr>) cfg;
                               cfg = set_ptr (lookupEnv ''KEY'') (\<lambda>v c. c\<lparr>ac_Key := v\<rparr>) cfg;
                               cfg = set_ptr (lookupEnv ''CRYPTO_KEY'') (\<lambda>v c. c\<lparr>ac_CryptoKey := v\<rparr>) cfg;
                               cfg = set_ptr (lookupEnv ''GRPC_TLS_CA'') (\<lambda>v c. c\<lparr>ac_GRPCTLSCA := v\<rparr>) cfg
                           in (cfg, None))"

definition validateAgentConfig :: "AgentConfig \<Rightarrow> goerr option" where
  "validateAgentConfig cfg =
     (if ac_ServerAddr cfg = [] then Some (Errorf ''server address must not be empty'' [])
      else if ac_Transport cfg \<noteq> TransportGRPC \<and> ac_Transport cfg \<noteq> TransportHTTP
      then Some (Errorf ''transport must be %q or %q, got %q'' [FStr TransportGRPC, FStr TransportHTTP, FStr (ac_Transport cfg)])
      else if sint (ac_PollIntervalInSec cfg) \<le> 0
      then Some (Errorf ''poll interval must be > 0, got %d'' [FInt (sint (ac_PollIntervalInSec cfg))])
      else if sint (ac_ReportIntervalInSec cfg) \<le> 0
      then Some (Errorf ''report interval must be > 0, got %d'' [FInt (sint (ac_ReportIntervalInSec cfg))])
      else if sint (ac_RateLimit cfg) \<le> 0
      then Some (Errorf ''rate limit must be > 0, got %d'' [FInt (sint (ac_RateLimit cfg))])
      else None)"

definition parseAgentConfig :: "filesystem \<Rightarrow> string list \<Rightarrow> lookupEnvFunc \<Rightarrow> AgentConfig \<times> goerr option" where
  "parseAgentConfig fs args lookupEnv =
     (let cfg = defaultAgentConfig
      in case FlagSet_Parse agent_flags args of
           Inl err \<Rightarrow> (cfg, Some err)
         | Inr asg \<Rightarrow>
             let flagCfg = agent_flagCfg asg cfg;
                 configPath = (case lookupEnv ''CONFIG'' of
                     Some value \<Rightarrow> value | None \<Rightarrow> flag_string asg {''c'', ''config''} [])
             in case (if configPath \<noteq> [] then loadAgentConfigFile fs configPath cfg else (cfg, None)) of
                  (cfg, Some err) \<Rightarrow> (cfg, Some err)
                | (cfg, None) \<Rightarrow>
                    let cfg = applyAgentFlags flagCfg (visited asg) cfg
                    in case applyAgentEnvironment lookupEnv cfg of
                         (cfg, Some err) \<Rightarrow> (cfg, Some err)
                       | (cfg, None) \<Rightarrow> (cfg, validateAgentConfig cfg))"

text \<open>The copies of the two packages agree.\<close>

lemma agent_getEnvInt_eq [simp]: "agent_getEnvInt = getEnvInt"
  by (simp add: fun_eq_iff agent_getEnvInt_def getEnvInt_def env_error_def split: option.split sum.split)

subsection \<open>Lemmas\<close>

text \<open>A conditional assignment as one record update, so that proofs need not split on every field.\<close>

lemma set_ptr_agent [config_simps]:
  "set_ptr p (\<lambda>v c. c\<lparr>ac_ServerAddr := v\<rparr>) c = c\<lparr>ac_ServerAddr := first_of [p] (ac_ServerAddr c)\<rparr>"
  "set_ptr p (\<lambda>v c. c\<lparr>ac_Transport := v\<rparr>) c = c\<lparr>ac_Transport := first_of [p] (ac_Transport c)\<rparr>"
  "set_ptr q (\<lambda>v c. c\<lparr>ac_PollIntervalInSec := v\<rparr>) c = c\<lparr>ac_PollIntervalInSec := first_of [q] (ac_PollIntervalInSec c)\<rparr>"
  "set_ptr q (\<lambda>v c. c\<lparr>ac_ReportIntervalInSec := v\<rparr>) c = c\<lparr>ac_ReportIntervalInSec := first_of [q] (ac_ReportIntervalInSec c)\<rparr>"
  "set_ptr q (\<lambda>v c. c\<lparr>ac_RateLimit := v\<rparr>) c = c\<lparr>ac_RateLimit := first_of [q] (ac_RateLimit c)\<rparr>"
  "set_ptr p (\<lambda>v c. c\<lparr>ac_Key := v\<rparr>) c = c\<lparr>ac_Key := first_of [p] (ac_Key c)\<rparr>"
  "set_ptr p (\<lambda>v c. c\<lparr>ac_CryptoKey := v\<rparr>) c = c\<lparr>ac_CryptoKey := first_of [p] (ac_CryptoKey c)\<rparr>"
  "set_ptr p (\<lambda>v c. c\<lparr>ac_GRPCTLSCA := v\<rparr>) c = c\<lparr>ac_GRPCTLSCA := first_of [p] (ac_GRPCTLSCA c)\<rparr>"
  by (simp_all add: set_ptr_def split: option.splits)

lemma if_agent [config_simps]:
  "(if b then c\<lparr>ac_ServerAddr := v\<rparr> else c) = c\<lparr>ac_ServerAddr := first_of [if b then Some v else None] (ac_ServerAddr c)\<rparr>"
  "(if b then c\<lparr>ac_Transport := v\<rparr> else c) = c\<lparr>ac_Transport := first_of [if b then Some v else None] (ac_Transport c)\<rparr>"
  "(if b then c\<lparr>ac_PollIntervalInSec := n\<rparr> else c) = c\<lparr>ac_PollIntervalInSec := first_of [if b then Some n else None] (ac_PollIntervalInSec c)\<rparr>"
  "(if b then c\<lparr>ac_ReportIntervalInSec := n\<rparr> else c) = c\<lparr>ac_ReportIntervalInSec := first_of [if b then Some n else None] (ac_ReportIntervalInSec c)\<rparr>"
  "(if b then c\<lparr>ac_RateLimit := n\<rparr> else c) = c\<lparr>ac_RateLimit := first_of [if b then Some n else None] (ac_RateLimit c)\<rparr>"
  "(if b then c\<lparr>ac_Key := v\<rparr> else c) = c\<lparr>ac_Key := first_of [if b then Some v else None] (ac_Key c)\<rparr>"
  "(if b then c\<lparr>ac_CryptoKey := v\<rparr> else c) = c\<lparr>ac_CryptoKey := first_of [if b then Some v else None] (ac_CryptoKey c)\<rparr>"
  "(if b then c\<lparr>ac_GRPCTLSCA := v\<rparr> else c) = c\<lparr>ac_GRPCTLSCA := first_of [if b then Some v else None] (ac_GRPCTLSCA c)\<rparr>"
  by simp_all

lemma applyAgentFile_fields:
  assumes "applyAgentFile f c = (c', None)"
  shows "c' = \<lparr>ac_ServerAddr = first_of [af_Address f] (ac_ServerAddr c), ac_Transport = first_of [af_Transport f] (ac_Transport c),
      ac_PollIntervalInSec = first_of [file_seconds ''poll_interval'' (af_PollInterval f)] (ac_PollIntervalInSec c),
      ac_ReportIntervalInSec = first_of [file_seconds ''report_interval'' (af_ReportInterval f)] (ac_ReportIntervalInSec c),
      ac_RateLimit = first_of [af_RateLimit f] (ac_RateLimit c), ac_Key = first_of [af_Key f] (ac_Key c),
      ac_CryptoKey = first_of [af_CryptoKey f] (ac_CryptoKey c), ac_GRPCTLSCA = first_of [af_GRPCTLSCA f] (ac_GRPCTLSCA c)\<rparr>"
  using assms
  by (auto simp: applyAgentFile_def parseAgentDurationInSeconds_def file_seconds_def config_simps Let_def
      split: option.splits sum.splits)

lemma applyAgentEnvironment_fields:
  assumes "applyAgentEnvironment env c = (c', None)"
  shows "c' = \<lparr>ac_ServerAddr = first_of [env ''ADDRESS''] (ac_ServerAddr c), ac_Transport = first_of [env ''TRANSPORT''] (ac_Transport c),
      ac_PollIntervalInSec = first_of [env_int env ''POLL_INTERVAL''] (ac_PollIntervalInSec c),
      ac_ReportIntervalInSec = first_of [env_int env ''REPORT_INTERVAL''] (ac_ReportIntervalInSec c),
      ac_RateLimit = first_of [env_int env ''RATE_LIMIT''] (ac_RateLimit c), ac_Key = first_of [env ''KEY''] (ac_Key c),
      ac_CryptoKey = first_of [env ''CRYPTO_KEY''] (ac_CryptoKey c), ac_GRPCTLSCA = first_of [env ''GRPC_TLS_CA''] (ac_GRPCTLSCA c)\<rparr>"
  using assms
  by (auto simp: applyAgentEnvironment_def env_int_def config_simps Let_def split: sum.splits)

lemma applyAgentFlags_fields:
  "applyAgentFlags fc given c = \<lparr>ac_ServerAddr = first_of [if given ''a'' then Some (ac_ServerAddr fc) else None] (ac_ServerAddr c),
      ac_Transport = first_of [if given ''transport'' then Some (ac_Transport fc) else None] (ac_Transport c),
      ac_PollIntervalInSec = first_of [if given ''p'' then Some (ac_PollIntervalInSec fc) else None] (ac_PollIntervalInSec c),
      ac_ReportIntervalInSec = first_of [if given ''r'' then Some (ac_ReportIntervalInSec fc) else None] (ac_ReportIntervalInSec c),
      ac_RateLimit = first_of [if given ''l'' then Some (ac_RateLimit fc) else None] (ac_RateLimit c),
      ac_Key = first_of [if given ''k'' then Some (ac_Key fc) else None] (ac_Key c),
      ac_CryptoKey = first_of [if given ''crypto-key'' then Some (ac_CryptoKey fc) else None] (ac_CryptoKey c),
      ac_GRPCTLSCA = first_of [if given ''grpc-tls-ca'' then Some (ac_GRPCTLSCA fc) else None] (ac_GRPCTLSCA c)\<rparr>"
  by (simp only: applyAgentFlags_def Let_def config_simps) simp

subsection \<open>Properties\<close>

definition agent_file :: "filesystem \<Rightarrow> string \<Rightarrow> agentFileConfig option" where
  "agent_file fs filePath =
     (if filePath = [] then Some zero_agentFileConfig
      else case os_ReadFile filePath fs of
          Inl _ \<Rightarrow> None
        | Inr data \<Rightarrow> Option.bind (json_Unmarshal data) (\<lambda>j. decode_struct agentFile_field j zero_agentFileConfig))"

lemma parseAgentConfig_ok:
  assumes "parseAgentConfig fs args env = (cfg, None)"
  obtains asg f c1 where "FlagSet_Parse agent_flags args = Inr asg" "agent_file fs (config_path env asg) = Some f"
    "applyAgentFile f defaultAgentConfig = (c1, None)"
    "applyAgentEnvironment env (applyAgentFlags (agent_flagCfg asg defaultAgentConfig) (visited asg) c1) = (cfg, None)"
    "validateAgentConfig cfg = None"
proof -
  have z: "applyAgentFile zero_agentFileConfig defaultAgentConfig = (defaultAgentConfig, None)"
    by (simp add: applyAgentFile_def zero_agentFileConfig_def set_ptr_def)
  show thesis
    using assms z that
    by (auto simp: parseAgentConfig_def config_path_case loadAgentConfigFile_def agent_file_def Let_def
        split: sum.splits prod.splits if_splits option.splits)
qed

text \<open>
  C24: Every field of an accepted agent configuration comes from the strongest source that sets it:
  the environment, then a flag given on the command line, then the JSON file, then the default. A
  source that does not mention a field never changes it.
\<close>

theorem agent_config_precedence:
  assumes "parseAgentConfig fs args env = (cfg, None)"
  shows "\<exists>asg f. FlagSet_Parse agent_flags args = Inr asg \<and> agent_file fs (config_path env asg) = Some f \<and>
    ac_ServerAddr cfg = first_of [env ''ADDRESS'', flag_given asg ''a'' (flag_string asg {''a''} ''localhost:50051''), af_Address f] ''localhost:50051'' \<and>
    ac_Transport cfg = first_of [env ''TRANSPORT'', flag_given asg ''transport'' (flag_string asg {''transport''} TransportGRPC), af_Transport f] TransportGRPC \<and>
    ac_PollIntervalInSec cfg = first_of [env_int env ''POLL_INTERVAL'', flag_given asg ''p'' (flag_int asg ''p'' 2), file_seconds ''poll_interval'' (af_PollInterval f)] 2 \<and>
    ac_ReportIntervalInSec cfg = first_of [env_int env ''REPORT_INTERVAL'', flag_given asg ''r'' (flag_int asg ''r'' 10), file_seconds ''report_interval'' (af_ReportInterval f)] 10 \<and>
    ac_RateLimit cfg = first_of [env_int env ''RATE_LIMIT'', flag_given asg ''l'' (flag_int asg ''l'' 5), af_RateLimit f] 5 \<and>
    ac_Key cfg = first_of [env ''KEY'', flag_given asg ''k'' (flag_string asg {''k''} []), af_Key f] [] \<and>
    ac_CryptoKey cfg = first_of [env ''CRYPTO_KEY'', flag_given asg ''crypto-key'' (flag_string asg {''crypto-key''} []), af_CryptoKey f] [] \<and>
    ac_GRPCTLSCA cfg = first_of [env ''GRPC_TLS_CA'', flag_given asg ''grpc-tls-ca'' (flag_string asg {''grpc-tls-ca''} []), af_GRPCTLSCA f] []"
proof -
  obtain asg f c1 where p: "FlagSet_Parse agent_flags args = Inr asg" "agent_file fs (config_path env asg) = Some f"
    "applyAgentFile f defaultAgentConfig = (c1, None)"
    "applyAgentEnvironment env (applyAgentFlags (agent_flagCfg asg defaultAgentConfig) (visited asg) c1) = (cfg, None)"
    by (rule parseAgentConfig_ok [OF assms])
  show ?thesis
    using applyAgentEnvironment_fields [OF p(4)] applyAgentFile_fields [OF p(3)] p(1,2)
    by (simp add: applyAgentFlags_fields agent_flagCfg_def defaultAgentConfig_def flag_given_def)
qed

definition demo_env_vars :: lookupEnvFunc where
  "demo_env_vars = [''POLL_INTERVAL'' \<mapsto> ''7'', ''TRANSPORT'' \<mapsto> ''http'']"

definition demo_agent_args :: "string list" where
  "demo_agent_args = [''-a'', ''srv:80'', ''-p=3'', ''-l'', ''0x10'', ''--config'', ''agent.json'']"

definition demo_agent_json :: json where
  "demo_agent_json = JObj [(''address'', JStr ''file:1''), (''report_interval'', JStr ''30s''), (''key'', JStr ''k'')]"

definition demo_agent_fs :: filesystem where
  "demo_agent_fs = empty_fs\<lparr>files := [''agent.json'' \<mapsto> json_print demo_agent_json]\<rparr>"

definition demo_agent_cfg :: AgentConfig where
  "demo_agent_cfg =
     \<lparr>ac_ServerAddr = ''srv:80'', ac_Transport = ''http'', ac_PollIntervalInSec = 7, ac_ReportIntervalInSec = 30,
      ac_RateLimit = 16, ac_Key = ''k'', ac_CryptoKey = [], ac_GRPCTLSCA = []\<rparr>"

lemma demo_agent_load:
  "loadAgentConfigFile demo_agent_fs ''agent.json'' defaultAgentConfig =
     (defaultAgentConfig\<lparr>ac_ServerAddr := ''file:1'', ac_ReportIntervalInSec := 30, ac_Key := ''k''\<rparr>, None)"
proof -
  have "json_sanitize demo_agent_json = demo_agent_json" by code_simp
  moreover have "json_numbers_ok demo_agent_json" by (simp add: demo_agent_json_def)
  ultimately have "json_Unmarshal (json_print demo_agent_json) = Some demo_agent_json"
    using json_Unmarshal_print [of demo_agent_json] by (simp add: demo_agent_json_def max_nesting_def)
  moreover have "decode_struct agentFile_field demo_agent_json zero_agentFileConfig =
      Some (zero_agentFileConfig\<lparr>af_Address := Some ''file:1'', af_ReportInterval := Some ''30s'', af_Key := Some ''k''\<rparr>)"
    by code_simp
  moreover have "format_nat 30 = ''30''" by code_simp
  with whole_seconds_printed [of 30 "''report_interval''"]
  have "whole_seconds ''report_interval'' ''30s'' = Inr 30" by simp
  ultimately show ?thesis
    by (simp add: loadAgentConfigFile_def demo_agent_fs_def os_ReadFile_def empty_fs_def applyAgentFile_def
        parseAgentDurationInSeconds_def zero_agentFileConfig_def set_ptr_def)
qed

lemma demo_agent_parse: "parseAgentConfig demo_agent_fs demo_agent_args demo_env_vars = (demo_agent_cfg, None)"
proof -
  have "FlagSet_Parse agent_flags demo_agent_args =
      Inr [(''a'', FlagString ''srv:80''), (''p'', FlagInt 3), (''l'', FlagInt 16), (''config'', FlagString ''agent.json'')]"
    by (simp add: demo_agent_args_def split_flag_def agent_flags_def ParseInt_base0_def ParseUint_base0_def
        split_base_def base_digit_def is_digit_def digit_value_def ascii_lower_def)
  moreover have "Atoi ''7'' = Inr 7"
    by (simp add: ParseInt_def ParseUint_def is_digit_def digit_value_def)
  ultimately show ?thesis
    by (simp add: parseAgentConfig_def demo_agent_load [unfolded defaultAgentConfig_def] Let_def demo_env_vars_def applyAgentFlags_def applyAgentEnvironment_def
        getEnvInt_def set_ptr_def visited_def flag_string_def flag_int_def flag_set_value_def agent_flagCfg_def
        defaultAgentConfig_def demo_agent_cfg_def validateAgentConfig_def TransportHTTP_def)
qed

theorem agent_config_precedence_witness:
  "\<exists>asg f. FlagSet_Parse agent_flags demo_agent_args = Inr asg \<and>
     agent_file demo_agent_fs (config_path demo_env_vars asg) = Some f \<and>
     ac_PollIntervalInSec demo_agent_cfg = first_of [env_int demo_env_vars ''POLL_INTERVAL'',
        flag_given asg ''p'' (flag_int asg ''p'' 2), file_seconds ''poll_interval'' (af_PollInterval f)] 2 \<and>
     ac_ServerAddr demo_agent_cfg = first_of [demo_env_vars ''ADDRESS'',
        flag_given asg ''a'' (flag_string asg {''a''} ''localhost:50051''), af_Address f] ''localhost:50051''"
  using agent_config_precedence [OF demo_agent_parse] by blast

text \<open>
  An accepted agent configuration is usable: the server address is not empty, the transport is
  one of the two known ones, and both intervals and the rate limit are positive. Conversely the
  configuration is rejected when one of these fails.
\<close>

theorem agent_config_valid:
  "validateAgentConfig cfg = None \<longleftrightarrow>
     ac_ServerAddr cfg \<noteq> [] \<and> ac_Transport cfg \<in> {TransportGRPC, TransportHTTP} \<and>
     0 < sint (ac_PollIntervalInSec cfg) \<and> 0 < sint (ac_ReportIntervalInSec cfg) \<and> 0 < sint (ac_RateLimit cfg)"
  by (auto simp: validateAgentConfig_def)

text \<open>
  An interval of whole seconds written as a duration is read back as that number of seconds, up
  to the largest number of seconds a duration can hold.
\<close>

theorem interval_roundtrip:
  assumes "n \<le> 9223372036"
  shows "parseAgentDurationInSeconds name (format_nat n @ ''s'') = Inr (of_nat n) \<and> sint (of_nat n :: int64) = int n"
proof -
  have "n * 1000000000 < 2 ^ 63" using assms by simp
  moreover have "sint (word_of_int (int n) :: int64) = int n"
    unfolding int_word_sint using assms by simp
  ultimately show ?thesis
    by (simp add: whole_seconds_printed parseAgentDurationInSeconds_def)
qed

theorem interval_roundtrip_witness:
  "parseAgentDurationInSeconds ''poll_interval'' ''90s'' = Inr 90"
proof -
  have "format_nat 90 = ''90''" by code_simp
  with interval_roundtrip [of 90 "''poll_interval''"] show ?thesis by simp
qed

end
