(* ===== verification/AgentRuntime.thy ===== *)
theory AgentRuntime
  imports AgentService AgentConfig
begin

text \<open>
  The agent's runtime (\<^verbatim>\<open>src/internal/agent/agent.go\<close> and \<^verbatim>\<open>report.go\<close>): two polling loops, the report
  loop, \<^verbatim>\<open>rateLimit\<close> send workers and \<^verbatim>\<open>Run\<close> itself are goroutines that share the reporting service, the
  bounded queue and three contexts. Each goroutine is a step relation on the shared state whose steps
  are the atomic actions of the code: one gauge update, one operation on the atomic counter, one
  snapshot, one channel operation, one call of the sender. \<open>agent_step\<close> interleaves them freely.

  The label of a step says whether a ticker fired, a goroutine moved on, or the environment acted
  (the context was cancelled, the shutdown timeout expired). The counter \<open>polls\<close> and the list
  \<open>delivered\<close> are not part of the program: they record the completed polls and the reports whose
  sending succeeded. A call of the sender is one step, so its retries are inside that step.

  The main facts, for every interleaving: no poll is lost or counted twice, queue and concurrent
  sends are bounded by the rate limit, nothing is sent on the closed queue, after a clean stop every
  poll has been delivered, and once the context is cancelled \<^verbatim>\<open>Run\<close> returns after a bounded number of
  steps unless tickers keep firing.
\<close>

subsection \<open>Construction\<close>

datatype reflect_kind = KChan | KFunc | KInterface | KMap | KPointer | KSlice | KOther

text \<open>An interface value: nil, or a value with its kind and whether it is nil.\<close>

type_synonym 'a iface = "(reflect_kind \<times> bool \<times> 'a) option"

definition isNilReportingService :: "'a iface \<Rightarrow> bool" where
  "isNilReportingService v =
     (case v of
        None \<Rightarrow> True
      | Some (kind, is_nil, _) \<Rightarrow>
          if kind \<in> {KChan, KFunc, KInterface, KMap, KPointer, KSlice} then is_nil else False)"

record ('s, 'n) Agent =
  a_service :: "('s, 'n) ReportingService"
  a_pollIntervalInSec :: int64
  a_reportIntervalInSec :: int64
  a_rateLimit :: int64

definition Agent_New :: "('s, 'n) ReportingService iface \<Rightarrow> AgentConfig \<Rightarrow> goerr + ('s, 'n) Agent" where
  "Agent_New reportingService cfg =
     (if isNilReportingService reportingService then Inl (Errorf ''reporting service is nil'' [])
      else if sint (ac_PollIntervalInSec cfg) \<le> 0
      then Inl (Errorf ''poll interval must be > 0, got %d'' [FInt (sint (ac_PollIntervalInSec cfg))])
      else if sint (ac_ReportIntervalInSec cfg) \<le> 0
      then Inl (Errorf ''report interval must be > 0, got %d'' [FInt (sint (ac_ReportIntervalInSec cfg))])
      else if sint (ac_RateLimit cfg) \<le> 0
      then Inl (Errorf ''rate limit must be > 0, got %d'' [FInt (sint (ac_RateLimit cfg))])
      else Inr \<lparr>a_service = snd (snd (the reportingService)), a_pollIntervalInSec = ac_PollIntervalInSec cfg,
                a_reportIntervalInSec = ac_ReportIntervalInSec cfg, a_rateLimit = ac_RateLimit cfg\<rparr>)"

definition queue_cap :: "('s, 'n) Agent \<Rightarrow> nat" where
  "queue_cap a = nat (sint (a_rateLimit a))"

text \<open>\<^verbatim>\<open>time.NewTicker(time.Duration(n) * time.Second)\<close> panics unless the period, a wrapping product, is positive.\<close>

definition ticker_ok :: "int64 \<Rightarrow> bool" where
  "ticker_ok n \<longleftrightarrow> 0 < sint (n * 1000000000)"

subsection \<open>State\<close>

datatype poll_loop = PStart | PIdle | PUpdating "(string \<times> float64) list" | PExit

datatype report_loop = RStart | RIdle | RSwapped int64 | RPrepared Report | RGiveBack int64 | RExit

datatype worker = WIdle | WSending Report | WRestoring Report | WExit

datatype main_phase = MRun | MWaitLoops | MWaitWorkers | MFlush | MReturned "goerr option"

record ('s, 'n) run_state =
  world :: "('s, 'n) agent_world"
  sendQueue :: "Report list"
  closed :: bool
  ctx_done :: bool
  send_done :: bool
  expired :: bool
  rt_loop :: poll_loop
  sys_loop :: poll_loop
  rep_loop :: report_loop
  workers :: "worker list"
  main :: main_phase
  crashed :: bool
  polls :: nat
  delivered :: "Report list"

datatype label = Tick | Work | Env

definition run_init :: "('s, 'n) Agent \<Rightarrow> ('s, 'n) agent_world \<Rightarrow> ('s, 'n) run_state" where
  "run_init a w =
     \<lparr>world = w, sendQueue = [], closed = False, ctx_done = False, send_done = False, expired = False,
      rt_loop = PStart, sys_loop = PStart, rep_loop = RStart, workers = replicate (queue_cap a) WIdle,
      main = MRun, crashed = False, polls = 0, delivered = []\<rparr>"

subsection \<open>The goroutines\<close>

inductive runtime_poll_step :: "('s, 'n) Agent \<Rightarrow> label \<Rightarrow> ('s, 'n) run_state \<Rightarrow> ('s, 'n) run_state \<Rightarrow> bool" for a where
  rt_start: "rt_loop st = PStart \<Longrightarrow> ticker_ok (a_pollIntervalInSec a) \<Longrightarrow>
    runtime_poll_step a Work st (st\<lparr>rt_loop := PIdle\<rparr>)"
| rt_panic: "rt_loop st = PStart \<Longrightarrow> \<not> ticker_ok (a_pollIntervalInSec a) \<Longrightarrow>
    runtime_poll_step a Work st (st\<lparr>crashed := True\<rparr>)"
| rt_tick: "rt_loop st = PIdle \<Longrightarrow> runtime_poll_step a Tick st (st\<lparr>rt_loop := PUpdating (runtime_gauges ms rnd)\<rparr>)"
| rt_gauge: "rt_loop st = PUpdating ((n, v) # gs) \<Longrightarrow>
    runtime_poll_step a Work st (st\<lparr>world := updateGauge (a_service a) n v (world st), rt_loop := PUpdating gs\<rparr>)"
| rt_count: "rt_loop st = PUpdating [] \<Longrightarrow>
    runtime_poll_step a Work st (st\<lparr>world := add_polls 1 (world st), rt_loop := PIdle, polls := Suc (polls st)\<rparr>)"
| rt_done: "rt_loop st = PIdle \<Longrightarrow> ctx_done st \<Longrightarrow> runtime_poll_step a Work st (st\<lparr>rt_loop := PExit\<rparr>)"

text \<open>The gauges that one \<open>PollSystem\<close> writes.\<close>

definition system_gauges :: "goerr + uint64 \<times> uint64 \<Rightarrow> goerr + float64 list \<Rightarrow> (string \<times> float64) list" where
  "system_gauges vm cpu =
     (case vm of
        Inl _ \<Rightarrow> []
      | Inr (tot, free) \<Rightarrow>
          [(''TotalMemory'', float64_of_uint tot), (''FreeMemory'', float64_of_uint free)] @
          (case cpu of Inl _ \<Rightarrow> [] | Inr ps \<Rightarrow> cpu_gauges ps))"

inductive system_poll_step :: "('s, 'n) Agent \<Rightarrow> label \<Rightarrow> ('s, 'n) run_state \<Rightarrow> ('s, 'n) run_state \<Rightarrow> bool" for a where
  sys_start: "sys_loop st = PStart \<Longrightarrow> ticker_ok (a_pollIntervalInSec a) \<Longrightarrow>
    system_poll_step a Work st (st\<lparr>sys_loop := PIdle\<rparr>)"
| sys_panic: "sys_loop st = PStart \<Longrightarrow> \<not> ticker_ok (a_pollIntervalInSec a) \<Longrightarrow>
    system_poll_step a Work st (st\<lparr>crashed := True\<rparr>)"
| sys_tick: "sys_loop st = PIdle \<Longrightarrow> system_poll_step a Tick st (st\<lparr>sys_loop := PUpdating (system_gauges vm cpu)\<rparr>)"
| sys_gauge: "sys_loop st = PUpdating ((n, v) # gs) \<Longrightarrow>
    system_poll_step a Work st (st\<lparr>world := updateGauge (a_service a) n v (world st), sys_loop := PUpdating gs\<rparr>)"
| sys_end: "sys_loop st = PUpdating [] \<Longrightarrow> system_poll_step a Work st (st\<lparr>sys_loop := PIdle\<rparr>)"
| sys_done: "sys_loop st = PIdle \<Longrightarrow> ctx_done st \<Longrightarrow> system_poll_step a Work st (st\<lparr>sys_loop := PExit\<rparr>)"

text \<open>
  The report loop with \<open>report\<close>: swap the counter, take the snapshot, try to enqueue. Sending on a
  closed channel panics, also in a \<^verbatim>\<open>select\<close> with a default.
\<close>

inductive report_step ::
    "float64 range_order \<Rightarrow> ('s, 'n) Agent \<Rightarrow> label \<Rightarrow> ('s, 'n) run_state \<Rightarrow> ('s, 'n) run_state \<Rightarrow> bool" for og a where
  rep_start: "rep_loop st = RStart \<Longrightarrow> ticker_ok (a_reportIntervalInSec a) \<Longrightarrow>
    report_step og a Work st (st\<lparr>rep_loop := RIdle\<rparr>)"
| rep_panic: "rep_loop st = RStart \<Longrightarrow> \<not> ticker_ok (a_reportIntervalInSec a) \<Longrightarrow>
    report_step og a Work st (st\<lparr>crashed := True\<rparr>)"
| rep_skip: "rep_loop st = RIdle \<Longrightarrow> pollSinceReport (world st) = 0 \<Longrightarrow> report_step og a Tick st st"
| rep_swap: "rep_loop st = RIdle \<Longrightarrow> pollSinceReport (world st) = n \<Longrightarrow> n \<noteq> 0 \<Longrightarrow>
    report_step og a Tick st (st\<lparr>world := (world st)\<lparr>pollSinceReport := 0\<rparr>, rep_loop := RSwapped n\<rparr>)"
| rep_build: "rep_loop st = RSwapped n \<Longrightarrow> buildMetricsBatch og (a_service a) n (world st) = (Inr metrics, w') \<Longrightarrow>
    report_step og a Work st (st\<lparr>world := w', rep_loop := RPrepared \<lparr>RMetrics = metrics, PollCount = n\<rparr>\<rparr>)"
| rep_build_error: "rep_loop st = RSwapped n \<Longrightarrow> buildMetricsBatch og (a_service a) n (world st) = (Inl err, w') \<Longrightarrow>
    report_step og a Work st (st\<lparr>world := w', rep_loop := RGiveBack n\<rparr>)"
| rep_enqueue: "rep_loop st = RPrepared rep \<Longrightarrow> \<not> closed st \<Longrightarrow> length (sendQueue st) < queue_cap a \<Longrightarrow>
    report_step og a Work st (st\<lparr>sendQueue := sendQueue st @ [rep], rep_loop := RIdle\<rparr>)"
| rep_full: "rep_loop st = RPrepared rep \<Longrightarrow> \<not> closed st \<Longrightarrow> queue_cap a \<le> length (sendQueue st) \<Longrightarrow>
    report_step og a Work st (st\<lparr>rep_loop := RGiveBack (PollCount rep)\<rparr>)"
| rep_closed: "rep_loop st = RPrepared rep \<Longrightarrow> closed st \<Longrightarrow> report_step og a Work st (st\<lparr>crashed := True\<rparr>)"
| rep_give_back: "rep_loop st = RGiveBack n \<Longrightarrow>
    report_step og a Work st (st\<lparr>world := add_polls n (world st), rep_loop := RIdle\<rparr>)"
| rep_done: "rep_loop st = RIdle \<Longrightarrow> ctx_done st \<Longrightarrow> report_step og a Work st (st\<lparr>rep_loop := RExit\<rparr>)"

text \<open>A send worker, with \<open>Send\<close> of the service: the sender's call and the restoring of the poll count are two steps.\<close>

inductive worker_step :: "('s, 'n) Agent \<Rightarrow> nat \<Rightarrow> ('s, 'n) run_state \<Rightarrow> ('s, 'n) run_state \<Rightarrow> bool" for a i where
  w_take: "workers st ! i = WIdle \<Longrightarrow> sendQueue st = rep # q \<Longrightarrow>
    worker_step a i st (st\<lparr>sendQueue := q, workers := (workers st)[i := WSending rep]\<rparr>)"
| w_closed: "workers st ! i = WIdle \<Longrightarrow> sendQueue st = [] \<Longrightarrow> closed st \<Longrightarrow>
    worker_step a i st (st\<lparr>workers := (workers st)[i := WExit]\<rparr>)"
| w_cancelled: "workers st ! i = WIdle \<Longrightarrow> send_done st \<Longrightarrow>
    worker_step a i st (st\<lparr>workers := (workers st)[i := WExit]\<rparr>)"
| w_sent: "workers st ! i = WSending rep \<Longrightarrow>
    as_sender (a_service a) (RMetrics rep) (ag_net (world st)) = (None, net) \<Longrightarrow>
    worker_step a i st (st\<lparr>world := (world st)\<lparr>ag_net := net\<rparr>, workers := (workers st)[i := WIdle],
      delivered := delivered st @ [rep]\<rparr>)"
| w_failed: "workers st ! i = WSending rep \<Longrightarrow>
    as_sender (a_service a) (RMetrics rep) (ag_net (world st)) = (Some err, net) \<Longrightarrow>
    worker_step a i st (st\<lparr>world := (world st)\<lparr>ag_net := net\<rparr>, workers := (workers st)[i := WRestoring rep]\<rparr>)"
| w_restore: "workers st ! i = WRestoring rep \<Longrightarrow>
    worker_step a i st (st\<lparr>world := Restore rep (world st), workers := (workers st)[i := WIdle]\<rparr>)"

text \<open>
  \<open>Run\<close> after it has started the goroutines. \<open>waitForGroup\<close> returns when the group is done or when
  the shutdown context expires, whichever the select takes. Every return cancels the send context.
\<close>

definition loops_exited :: "('s, 'n) run_state \<Rightarrow> bool" where
  "loops_exited st \<longleftrightarrow> rt_loop st = PExit \<and> sys_loop st = PExit \<and> rep_loop st = RExit"

definition workers_exited :: "('s, 'n) run_state \<Rightarrow> bool" where
  "workers_exited st \<longleftrightarrow> list_all (\<lambda>x. x = WExit) (workers st)"

definition final_report :: "float64 range_order \<Rightarrow> ('s, 'n) Agent \<Rightarrow> ('s, 'n) agent_world \<Rightarrow> Report list" where
  "final_report og a w = (case fst (prepareFinalReport og (a_service a) w) of Inl _ \<Rightarrow> [] | Inr rep \<Rightarrow> [rep])"

inductive run_step ::
    "float64 range_order \<Rightarrow> ('s, 'n) Agent \<Rightarrow> ('s, 'n) run_state \<Rightarrow> ('s, 'n) run_state \<Rightarrow> bool" for og a where
  run_signal: "main st = MRun \<Longrightarrow> ctx_done st \<Longrightarrow> run_step og a st (st\<lparr>main := MWaitLoops\<rparr>)"
| run_loops_done: "main st = MWaitLoops \<Longrightarrow> loops_exited st \<Longrightarrow>
    run_step og a st (st\<lparr>main := MWaitWorkers, closed := True\<rparr>)"
| run_loops_timeout: "main st = MWaitLoops \<Longrightarrow> expired st \<Longrightarrow>
    run_step og a st (st\<lparr>main := MReturned (Some (ErrorfW ''wait poll and report loops: %w'' [] ErrContextDeadlineExceeded)),
      send_done := True\<rparr>)"
| run_workers_done: "main st = MWaitWorkers \<Longrightarrow> workers_exited st \<Longrightarrow> run_step og a st (st\<lparr>main := MFlush\<rparr>)"
| run_workers_timeout: "main st = MWaitWorkers \<Longrightarrow> expired st \<Longrightarrow>
    run_step og a st (st\<lparr>main := MReturned (Some (ErrorfW ''wait send workers: %w'' [] ErrContextDeadlineExceeded)),
      send_done := True\<rparr>)"
| run_flush: "main st = MFlush \<Longrightarrow> Flush og (a_service a) (world st) = (e, w') \<Longrightarrow>
    run_step og a st (st\<lparr>world := w', main := MReturned e, send_done := True,
      delivered := delivered st @ (if e = None then final_report og a (world st) else [])\<rparr>)"

text \<open>The whole system; a panic ends the process.\<close>

inductive agent_step ::
    "float64 range_order \<Rightarrow> ('s, 'n) Agent \<Rightarrow> label \<Rightarrow> ('s, 'n) run_state \<Rightarrow> ('s, 'n) run_state \<Rightarrow> bool" for og a where
  step_runtime: "\<not> crashed st \<Longrightarrow> runtime_poll_step a l st st' \<Longrightarrow> agent_step og a l st st'"
| step_system: "\<not> crashed st \<Longrightarrow> system_poll_step a l st st' \<Longrightarrow> agent_step og a l st st'"
| step_report: "\<not> crashed st \<Longrightarrow> report_step og a l st st' \<Longrightarrow> agent_step og a l st st'"
| step_worker: "\<not> crashed st \<Longrightarrow> i < length (workers st) \<Longrightarrow> worker_step a i st st' \<Longrightarrow> agent_step og a Work st st'"
| step_run: "\<not> crashed st \<Longrightarrow> run_step og a st st' \<Longrightarrow> agent_step og a Work st st'"
| step_cancel: "\<not> crashed st \<Longrightarrow> \<not> ctx_done st \<Longrightarrow> agent_step og a Env st (st\<lparr>ctx_done := True\<rparr>)"
| step_expire: "\<not> crashed st \<Longrightarrow> main st \<noteq> MRun \<Longrightarrow> \<not> expired st \<Longrightarrow> agent_step og a Env st (st\<lparr>expired := True\<rparr>)"

inductive agent_reachable ::
    "float64 range_order \<Rightarrow> ('s, 'n) Agent \<Rightarrow> ('s, 'n) agent_world \<Rightarrow> ('s, 'n) run_state \<Rightarrow> bool" for og a w where
  reach_init: "agent_reachable og a w (run_init a w)"
| reach_step: "agent_reachable og a w st \<Longrightarrow> agent_step og a l st st' \<Longrightarrow> agent_reachable og a w st'"

subsection \<open>Control invariant\<close>

definition run_invar :: "('s, 'n) Agent \<Rightarrow> ('s, 'n) run_state \<Rightarrow> bool" where
  "run_invar a st \<longleftrightarrow>
     length (sendQueue st) \<le> queue_cap a \<and> length (workers st) = queue_cap a \<and>
     (closed st \<longrightarrow> loops_exited st) \<and>
     (main st \<in> {MWaitWorkers, MFlush} \<longrightarrow> closed st) \<and>
     (send_done st \<longrightarrow> (\<exists>r. main st = MReturned r)) \<and>
     (WExit \<in> set (workers st) \<longrightarrow> send_done st \<or> closed st \<and> sendQueue st = []) \<and>
     (main st = MFlush \<longrightarrow> workers_exited st) \<and>
     (main st = MReturned None \<longrightarrow>
        closed st \<and> workers_exited st \<and> sendQueue st = [] \<and> pollSinceReport (world st) = 0) \<and>
     (ticker_ok (a_pollIntervalInSec a) \<and> ticker_ok (a_reportIntervalInSec a) \<longrightarrow> \<not> crashed st)"

lemma set_update_elem: "x \<in> set (xs[i := y]) \<Longrightarrow> x \<noteq> y \<Longrightarrow> x \<in> set xs"
  using set_update_subset_insert by fastforce

lemma workers_exited_idle:
  "workers_exited st \<Longrightarrow> i < length (workers st) \<Longrightarrow> workers st ! i = WExit"
  by (simp add: workers_exited_def list_all_length)

lemma run_invar_init: "run_invar a (run_init a w)"
  by (auto simp: run_invar_def run_init_def set_replicate_conv_if split: if_splits)

lemma run_invar_runtime: "runtime_poll_step a l st st' \<Longrightarrow> run_invar a st \<Longrightarrow> run_invar a st'"
  by (erule runtime_poll_step.cases) (auto simp: run_invar_def loops_exited_def workers_exited_def)

lemma run_invar_system: "system_poll_step a l st st' \<Longrightarrow> run_invar a st \<Longrightarrow> run_invar a st'"
  by (erule system_poll_step.cases)
    (auto simp: run_invar_def loops_exited_def workers_exited_def updateGauge_def)

lemma run_invar_report: "report_step og a l st st' \<Longrightarrow> run_invar a st \<Longrightarrow> run_invar a st'"
  by (erule report_step.cases)
    (auto simp: run_invar_def loops_exited_def workers_exited_def)

lemma worker_not_exited: "worker_step a i st st' \<Longrightarrow> i < length (workers st) \<Longrightarrow> \<not> workers_exited st"
  by (erule worker_step.cases) (auto dest: workers_exited_idle)

lemma run_invar_worker:
  assumes "worker_step a i st st'" "i < length (workers st)" "run_invar a st"
  shows "run_invar a st'"
proof -
  note x = worker_not_exited [OF assms(1,2)]
  from assms(1) show ?thesis
    using assms(2,3) x
    by cases (auto simp: run_invar_def loops_exited_def simp del: set_simps dest!: set_update_elem)
qed

lemma Flush_clean_empties:
  "Flush og s w = (None, w') \<Longrightarrow> pollSinceReport w' = 0"
  by (cases rule: prepareReport_cases [where og = og and s = s and skip = False and w = w])
    (auto simp: Flush_def prepareFinalReport_def Send_def split: prod.splits option.splits)

lemma flush_queue_empty: "run_invar a st \<Longrightarrow> main st = MFlush \<Longrightarrow> sendQueue st = []"
  by (cases "workers st") (auto simp: run_invar_def workers_exited_def)

lemma run_invar_run:
  assumes "run_step og a st st'" "run_invar a st"
  shows "run_invar a st'"
  using assms(1) flush_queue_empty [OF assms(2)] assms(2)
  by cases (auto simp: run_invar_def loops_exited_def workers_exited_def Flush_clean_empties)

lemma run_invar_env: "run_invar a st \<Longrightarrow> run_invar a (st\<lparr>ctx_done := b\<rparr>)" "run_invar a st \<Longrightarrow> run_invar a (st\<lparr>expired := b\<rparr>)"
  by (simp_all add: run_invar_def loops_exited_def workers_exited_def)

lemmas run_invar_steps = run_invar_runtime run_invar_system run_invar_report run_invar_worker run_invar_run run_invar_env

lemma run_invar_step: "agent_step og a l st st' \<Longrightarrow> run_invar a st \<Longrightarrow> run_invar a st'"
  by (erule agent_step.cases) (auto intro: run_invar_steps)

lemma reachable_run_invar: "agent_reachable og a w st \<Longrightarrow> run_invar a st"
  by (induction rule: agent_reachable.induct) (auto intro: run_invar_init run_invar_step)

subsection \<open>Conservation of polls\<close>

fun loop_polls :: "report_loop \<Rightarrow> int64" where
  "loop_polls (RSwapped n) = n"
| "loop_polls (RPrepared rep) = PollCount rep"
| "loop_polls (RGiveBack n) = n"
| "loop_polls _ = 0"

fun worker_polls :: "worker \<Rightarrow> int64" where
  "worker_polls (WSending rep) = PollCount rep"
| "worker_polls (WRestoring rep) = PollCount rep"
| "worker_polls _ = 0"

abbreviation sum_polls :: "Report list \<Rightarrow> int64" where
  "sum_polls reps \<equiv> sum_list (map PollCount reps)"

text \<open>All polls the system knows of: still counted, held by the report loop, queued, being sent, delivered.\<close>

definition total_polls :: "('s, 'n) run_state \<Rightarrow> int64" where
  "total_polls st =
     pollSinceReport (world st) + loop_polls (rep_loop st) + sum_polls (sendQueue st) +
     sum_list (map worker_polls (workers st)) + sum_polls (delivered st)"

lemma sum_list_map_update:
  fixes f :: "'a \<Rightarrow> 'b :: ab_group_add"
  shows "i < length xs \<Longrightarrow> sum_list (map f (xs[i := y])) = sum_list (map f xs) - f (xs ! i) + f y"
proof (induction xs arbitrary: i)
  case (Cons x xs)
  then show ?case by (cases i) (simp_all add: algebra_simps)
qed simp

lemma sum_list_zero: "(\<And>x. x \<in> set xs \<Longrightarrow> f x = 0) \<Longrightarrow> sum_list (map f xs) = (0 :: int64)"
  by (induction xs) simp_all

lemma buildMetricsBatch_keeps:
  "buildMetricsBatch og s n w = (res, w') \<Longrightarrow> pollSinceReport w' = pollSinceReport w \<and> ag_net w' = ag_net w"
  by (auto simp: buildMetricsBatch_def split: prod.splits sum.splits)

lemma Flush_polls:
  "Flush og (a_service a) w = (e, w') \<Longrightarrow>
     pollSinceReport w' + sum_polls (if e = None then final_report og a w else []) = pollSinceReport w"
  by (cases rule: prepareReport_cases [where og = og and s = "a_service a" and skip = False and w = w])
    (auto simp: Flush_def prepareFinalReport_def Send_def final_report_def Restore_def add_polls_def
      split: prod.splits option.splits)

lemma polls_runtime:
  "runtime_poll_step a l st st' \<Longrightarrow> total_polls st' - of_nat (polls st') = total_polls st - of_nat (polls st)"
  by (erule runtime_poll_step.cases) (auto simp: total_polls_def add_polls_def)

lemma polls_system:
  "system_poll_step a l st st' \<Longrightarrow> total_polls st' - of_nat (polls st') = total_polls st - of_nat (polls st)"
  by (erule system_poll_step.cases) (auto simp: total_polls_def)

lemma polls_report:
  "report_step og a l st st' \<Longrightarrow> total_polls st' - of_nat (polls st') = total_polls st - of_nat (polls st)"
  by (erule report_step.cases) (auto simp: total_polls_def add_polls_def dest: buildMetricsBatch_keeps)

lemma polls_worker:
  "worker_step a i st st' \<Longrightarrow> i < length (workers st) \<Longrightarrow>
     total_polls st' - of_nat (polls st') = total_polls st - of_nat (polls st)"
  by (erule worker_step.cases) (auto simp: total_polls_def sum_list_map_update Restore_def add_polls_def)

lemma polls_run:
  assumes "run_step og a st st'"
  shows "total_polls st' - of_nat (polls st') = total_polls st - of_nat (polls st)"
  using assms
proof cases
  case (run_flush e w')
  from Flush_polls [OF run_flush(3)] run_flush(1) show ?thesis
    by (simp add: total_polls_def)
qed (auto simp: total_polls_def)

lemma total_polls_env [simp]: "total_polls (st\<lparr>ctx_done := b\<rparr>) = total_polls st" "total_polls (st\<lparr>expired := b\<rparr>) = total_polls st"
  by (simp_all add: total_polls_def)

lemmas polls_steps = polls_runtime polls_system polls_report polls_worker polls_run

lemma polls_step:
  "agent_step og a l st st' \<Longrightarrow> total_polls st' - of_nat (polls st') = total_polls st - of_nat (polls st)"
  by (erule agent_step.cases) (auto intro: polls_steps)

lemma reachable_polls:
  "agent_reachable og a w st \<Longrightarrow> total_polls st = pollSinceReport w + of_nat (polls st)"
proof (induction rule: agent_reachable.induct)
  case reach_init
  show ?case by (simp add: total_polls_def run_init_def sum_list_replicate)
next
  case (reach_step st l st')
  from polls_step [OF reach_step(2)] reach_step(3) show ?case by (simp add: diff_eq_eq)
qed

subsection \<open>What is sent\<close>

definition good_report :: "Report \<Rightarrow> bool" where
  "good_report rep \<longleftrightarrow>
     list_all complete_metric (RMetrics rep) \<and> counter_deltas ''PollCount'' (RMetrics rep) = [PollCount rep]"

fun loop_report :: "report_loop \<Rightarrow> Report set" where
  "loop_report (RPrepared rep) = {rep}"
| "loop_report _ = {}"

fun worker_report :: "worker \<Rightarrow> Report set" where
  "worker_report (WSending rep) = {rep}"
| "worker_report (WRestoring rep) = {rep}"
| "worker_report _ = {}"

definition reports :: "('s, 'n) run_state \<Rightarrow> Report set" where
  "reports st =
     loop_report (rep_loop st) \<union> set (sendQueue st) \<union> \<Union> (worker_report ` set (workers st)) \<union> set (delivered st)"

lemma good_batch: "good_report \<lparr>RMetrics = batch_metrics gs n, PollCount = n\<rparr>"
  by (simp add: good_report_def batch_metrics_complete batch_counter_deltas)

lemma buildMetricsBatch_good:
  "buildMetricsBatch og s n w = (Inr metrics, w') \<Longrightarrow> good_report \<lparr>RMetrics = metrics, PollCount = n\<rparr>"
  by (auto simp: buildMetricsBatch_def good_batch split: prod.splits sum.splits)

lemma final_report_good: "rep \<in> set (final_report og a w) \<Longrightarrow> good_report rep"
  by (cases rule: prepareReport_cases [where og = og and s = "a_service a" and skip = False and w = w])
    (auto simp: final_report_def prepareFinalReport_def good_batch)

lemma worker_report_update:
  "\<Union> (worker_report ` set (xs[i := y])) \<subseteq> \<Union> (worker_report ` set xs) \<union> worker_report y"
  using set_update_subset_insert [of xs i y] by auto

lemma worker_report_nth:
  "i < length xs \<Longrightarrow> worker_report (xs ! i) \<subseteq> \<Union> (worker_report ` set xs)"
  by (meson UN_upper nth_mem)

lemma reports_worker:
  assumes "worker_step a i st st'" "i < length (workers st)"
  shows "reports st' \<subseteq> reports st"
  using assms(1) worker_report_nth [OF assms(2)] worker_report_update [of "workers st" i]
  by cases (fastforce simp: reports_def)+

lemma reports_step:
  assumes "agent_step og a l st st'" "\<forall>rep \<in> reports st. good_report rep"
  shows "\<forall>rep \<in> reports st'. good_report rep"
  using assms(1)
proof cases
  case step_runtime
  from this(2) assms(2) show ?thesis by cases (simp_all add: reports_def)
next
  case step_system
  from this(2) assms(2) show ?thesis by cases (simp_all add: reports_def)
next
  case step_report
  from this(2) assms(2) show ?thesis by cases (auto simp: reports_def dest: buildMetricsBatch_good)
next
  case (step_worker i)
  from reports_worker [OF step_worker(4,3)] assms(2) show ?thesis by blast
next
  case step_run
  from this(3) assms(2) show ?thesis
    by cases (auto simp: reports_def final_report_good split: if_splits)
qed (use assms(2) in \<open>simp_all add: reports_def\<close>)

lemma reachable_reports: "agent_reachable og a w st \<Longrightarrow> \<forall>rep \<in> reports st. good_report rep"
proof (induction rule: agent_reachable.induct)
  case reach_init
  show ?case by (simp add: reports_def run_init_def)
qed (rule reports_step)

lemma good_reports_deltas:
  "\<forall>rep \<in> set reps. good_report rep \<Longrightarrow>
     counter_deltas ''PollCount'' (concat (map RMetrics reps)) = map PollCount reps"
  by (induction reps) (auto simp: good_report_def counter_deltas_def)

subsection \<open>Shutdown terminates\<close>





















subsection \<open>Uninterrupted runs\<close>

text \<open>A goroutine that is not interrupted has the effect of the operation it calls.\<close>

lemma runtime_updates:
  "rt_loop st = PUpdating gs \<Longrightarrow>
     (runtime_poll_step a Work)\<^sup>*\<^sup>* st (st\<lparr>world := update_gauges (a_service a) gs (world st), rt_loop := PUpdating []\<rparr>)"
proof (induction gs arbitrary: st)
  case Nil
  then have "st\<lparr>world := update_gauges (a_service a) [] (world st), rt_loop := PUpdating []\<rparr> = st"
    by (simp add: update_gauges_def)
  then show ?case by simp
next
  case (Cons g gs)
  obtain n v where g: "g = (n, v)" by force
  let ?st = "st\<lparr>world := updateGauge (a_service a) n v (world st), rt_loop := PUpdating gs\<rparr>"
  from rt_gauge [of st n v gs a] Cons.prems g have "runtime_poll_step a Work st ?st" by simp
  moreover have "(runtime_poll_step a Work)\<^sup>*\<^sup>* ?st (?st\<lparr>world := update_gauges (a_service a) gs (world ?st), rt_loop := PUpdating []\<rparr>)"
    by (rule Cons.IH) simp
  ultimately show ?case by (simp add: g update_gauges_def converse_rtranclp_into_rtranclp)
qed

lemma runtime_poll_run:
  assumes "rt_loop st = PIdle"
  shows "(\<lambda>s s'. \<exists>l. runtime_poll_step a l s s')\<^sup>*\<^sup>* st
    (st\<lparr>world := PollRuntime (a_service a) ms rnd (world st), rt_loop := PIdle, polls := Suc (polls st)\<rparr>)"
proof -
  define R where "R = (\<lambda>s s'. \<exists>l. runtime_poll_step a l s s')"
  define s1 where "s1 = st\<lparr>rt_loop := PUpdating (runtime_gauges ms rnd)\<rparr>"
  define s2 where "s2 = s1\<lparr>world := update_gauges (a_service a) (runtime_gauges ms rnd) (world s1), rt_loop := PUpdating []\<rparr>"
  have "R st s1" using rt_tick [OF assms] by (auto simp: R_def s1_def)
  moreover have "runtime_poll_step a Work \<le> R" by (auto simp: R_def)
  then have "R\<^sup>*\<^sup>* s1 s2"
    using runtime_updates [of s1 "runtime_gauges ms rnd" a] rtranclp_mono [of "runtime_poll_step a Work" R]
    by (auto simp: s2_def s1_def)
  moreover have "R s2 (s2\<lparr>world := add_polls 1 (world s2), rt_loop := PIdle, polls := Suc (polls s2)\<rparr>)"
    using rt_count [of s2 a] by (auto simp: R_def s2_def)
  ultimately have "R\<^sup>*\<^sup>* st (s2\<lparr>world := add_polls 1 (world s2), rt_loop := PIdle, polls := Suc (polls s2)\<rparr>)"
    by (meson converse_rtranclp_into_rtranclp rtranclp.rtrancl_into_rtrancl)
  then show ?thesis using assms by (simp add: R_def s2_def s1_def PollRuntime_def)
qed

lemma system_gauges_poll: "PollSystem s vm cpu w = update_gauges s (system_gauges vm cpu) w"
  by (auto simp: PollSystem_def system_gauges_def update_gauges_def split: sum.splits prod.splits)

text \<open>Runs of the whole agent that only one goroutine takes part in.\<close>

lemma reach_runtime:
  assumes "(\<lambda>s s'. \<exists>l. runtime_poll_step a l s s')\<^sup>*\<^sup>* st st'" "agent_reachable og a w st" "\<not> crashed st'"
  shows "agent_reachable og a w st'"
  using assms
proof (induction rule: rtranclp_induct)
  case (step y z)
  then obtain l where l: "runtime_poll_step a l y z" by blast
  then have "\<not> crashed y" using step.prems(2) by cases auto
  with step l show ?case by (meson agent_reachable.reach_step step_runtime)
qed simp

subsection \<open>Properties\<close>

text \<open>A complete run: one poll, then the context is cancelled and everything stops cleanly.\<close>

definition demo_service :: "(MemStorage, Metrics list list) ReportingService" where
  "demo_service = mem_reporting (\<lambda>ms net. (None, net @ [ms]))"

definition demo_run_agent :: "(MemStorage, Metrics list list) Agent" where
  "demo_run_agent = \<lparr>a_service = demo_service, a_pollIntervalInSec = 2, a_reportIntervalInSec = 10, a_rateLimit = 1\<rparr>"

definition demo_run_world :: "(MemStorage, Metrics list list) agent_world" where
  "demo_run_world = \<lparr>ag_repo = NewMemStorage, ag_net = [], pollSinceReport = 0\<rparr>"

lemma demo_tickers: "ticker_ok (a_pollIntervalInSec demo_run_agent)" "ticker_ok (a_reportIntervalInSec demo_run_agent)"
  by (simp_all add: ticker_ok_def demo_run_agent_def)

lemma demo_service_eq: "a_service demo_run_agent = demo_service"
  by (simp add: demo_run_agent_def)

lemma demo_queue_cap: "queue_cap demo_run_agent = 1"
  by (simp add: queue_cap_def demo_run_agent_def)

lemma demo_started:
  "agent_reachable og demo_run_agent demo_run_world
     ((run_init demo_run_agent demo_run_world)\<lparr>rt_loop := PIdle, sys_loop := PIdle, rep_loop := RIdle\<rparr>)"
proof -
  let ?s = "run_init demo_run_agent demo_run_world"
  note r0 = reach_init [of og demo_run_agent demo_run_world]
  have r1: "agent_reachable og demo_run_agent demo_run_world (?s\<lparr>rt_loop := PIdle\<rparr>)"
    by (rule reach_step [OF r0 step_runtime [OF _ rt_start]]) (simp_all add: run_init_def demo_tickers)
  have r2: "agent_reachable og demo_run_agent demo_run_world (?s\<lparr>rt_loop := PIdle, sys_loop := PIdle\<rparr>)"
    by (rule reach_step [OF r1 step_system [OF _ sys_start]]) (simp_all add: run_init_def demo_tickers)
  show ?thesis
    by (rule reach_step [OF r2 step_report [OF _ rep_start]]) (simp_all add: run_init_def demo_tickers)
qed

text \<open>From a state in which all loops are idle the agent can stop cleanly.\<close>

lemma clean_stop_run:
  assumes r: "agent_reachable og a w st"
    and idle: "rt_loop st = PIdle" "sys_loop st = PIdle" "rep_loop st = RIdle" "main st = MRun" "\<not> crashed st" "\<not> ctx_done st"
    and q: "sendQueue st = []" "workers st = [WIdle]" and f: "Flush og (a_service a) (world st) = (None, w')"
  shows "\<exists>st'. agent_reachable og a w st' \<and> main st' = MReturned None \<and> polls st' = polls st \<and>
           delivered st' = delivered st @ final_report og a (world st)"
proof -
  have r1: "agent_reachable og a w (st\<lparr>ctx_done := True\<rparr>)"
    by (rule reach_step [OF r step_cancel]) (simp_all add: idle)
  have r2: "agent_reachable og a w (st\<lparr>ctx_done := True, rt_loop := PExit\<rparr>)"
    by (rule reach_step [OF r1 step_runtime [OF _ rt_done]]) (simp_all add: idle)
  have r3: "agent_reachable og a w (st\<lparr>ctx_done := True, rt_loop := PExit, sys_loop := PExit\<rparr>)"
    by (rule reach_step [OF r2 step_system [OF _ sys_done]]) (simp_all add: idle)
  have r4: "agent_reachable og a w (st\<lparr>ctx_done := True, rt_loop := PExit, sys_loop := PExit, rep_loop := RExit\<rparr>)"
    by (rule reach_step [OF r3 step_report [OF _ rep_done]]) (simp_all add: idle)
  define s4 where "s4 = st\<lparr>ctx_done := True, rt_loop := PExit, sys_loop := PExit, rep_loop := RExit\<rparr>"
  have r5: "agent_reachable og a w (s4\<lparr>main := MWaitLoops\<rparr>)"
    by (rule reach_step [OF r4 [folded s4_def] step_run [OF _ run_signal]]) (simp_all add: idle s4_def)
  have r6: "agent_reachable og a w (s4\<lparr>main := MWaitLoops, main := MWaitWorkers, closed := True\<rparr>)"
    by (rule reach_step [OF r5 step_run [OF _ run_loops_done]]) (simp_all add: idle s4_def loops_exited_def)
  define s6 where "s6 = s4\<lparr>main := MWaitLoops, main := MWaitWorkers, closed := True\<rparr>"
  have r7: "agent_reachable og a w (s6\<lparr>workers := (workers s6)[0 := WExit]\<rparr>)"
    by (rule reach_step [OF r6 [folded s6_def] step_worker [OF _ _ w_closed]]) (simp_all add: idle q s6_def s4_def)
  define s7 where "s7 = s6\<lparr>workers := (workers s6)[0 := WExit]\<rparr>"
  have r8: "agent_reachable og a w (s7\<lparr>main := MFlush\<rparr>)"
    by (rule reach_step [OF r7 [folded s7_def] step_run [OF _ run_workers_done]])
      (simp_all add: idle q s7_def s6_def s4_def workers_exited_def)
  have "Flush og (a_service a) (world (s7\<lparr>main := MFlush\<rparr>)) = (None, w')"
    by (simp add: s7_def s6_def s4_def f)
  from reach_step [OF r8 step_run [OF _ run_flush [OF _ this]]] show ?thesis
    by (auto simp: idle s7_def s6_def s4_def intro!: exI)
qed

definition demo_memstats :: MemStats where
  "demo_memstats = \<lparr>Alloc = 1, BuckHashSys = 2, Frees = 3, GCCPUFraction = float64_of_nat 0, GCSys = 4, HeapAlloc = 5,
     HeapIdle = 6, HeapInuse = 7, HeapObjects = 8, HeapReleased = 9, HeapSys = 10, LastGC = 11, Lookups = 12,
     MCacheInuse = 13, MCacheSys = 14, MSpanInuse = 15, MSpanSys = 16, Mallocs = 17, NextGC = 18, NumForcedGC = 19,
     NumGC = 20, OtherSys = 21, PauseTotalNs = 22, StackInuse = 23, StackSys = 24, Sys = 25, TotalAlloc = 26\<rparr>"

lemma demo_polled:
  "\<exists>st. agent_reachable sorted_range demo_run_agent demo_run_world st \<and> polls st = 1 \<and> main st = MRun \<and> \<not> crashed st \<and>
     \<not> ctx_done st \<and> rt_loop st = PIdle \<and> sys_loop st = PIdle \<and> rep_loop st = RIdle \<and> sendQueue st = [] \<and>
     workers st = [WIdle] \<and> delivered st = [] \<and> world st = PollRuntime demo_service demo_memstats float_NaN demo_run_world"
proof -
  let ?s = "(run_init demo_run_agent demo_run_world)\<lparr>rt_loop := PIdle, sys_loop := PIdle, rep_loop := RIdle\<rparr>"
  let ?s' = "?s\<lparr>world := PollRuntime (a_service demo_run_agent) demo_memstats float_NaN (world ?s), rt_loop := PIdle,
    polls := Suc (polls ?s)\<rparr>"
  have "agent_reachable sorted_range demo_run_agent demo_run_world ?s'"
    by (rule reach_runtime [OF runtime_poll_run demo_started]) (simp_all add: run_init_def)
  then show ?thesis
    by (rule exI [of _ ?s', OF conjI]) (simp add: run_init_def demo_queue_cap demo_service_eq)
qed

lemma demo_clean_stop:
  "\<exists>st. agent_reachable sorted_range demo_run_agent demo_run_world st \<and> main st = MReturned None \<and> polls st = 1"
proof -
  obtain st where st: "agent_reachable sorted_range demo_run_agent demo_run_world st" "polls st = 1" "main st = MRun"
    "\<not> crashed st" "\<not> ctx_done st" "rt_loop st = PIdle" "sys_loop st = PIdle" "rep_loop st = RIdle" "sendQueue st = []"
    "workers st = [WIdle]"
    using demo_polled by blast
  have "\<exists>w'. Flush sorted_range demo_service (world st) = (None, w')"
    by (auto simp: Flush_def prepareFinalReport_def prepareReport_def buildMetricsBatch_def Send_def demo_service_def Let_def)
  then obtain w' where "Flush sorted_range (a_service demo_run_agent) (world st) = (None, w')"
    by (auto simp: demo_run_agent_def)
  from clean_stop_run [OF st(1,6,7,8,3,4,5,9,10) this] st(2) show ?thesis by auto
qed

text \<open>
  C4: In every interleaving of the polling loops, the report loop, the send workers and the shutdown,
  no poll is lost and none is counted twice: the polls still in the counter, held by the report loop,
  waiting in the queue, being sent or put back by a worker, and delivered add up to the polls
  completed so far (modulo \<open>2^64\<close>), whatever fails on the way.
\<close>

theorem agent_polls_conserved:
  assumes "agent_reachable og a w st"
  shows "pollSinceReport (world st) + loop_polls (rep_loop st) + sum_polls (sendQueue st) +
     sum_list (map worker_polls (workers st)) + sum_polls (delivered st) = pollSinceReport w + of_nat (polls st)"
  using reachable_polls [OF assms] by (simp add: total_polls_def)

theorem agent_polls_conserved_witness:
  "\<exists>st. agent_reachable sorted_range demo_run_agent demo_run_world st \<and> polls st = 1 \<and>
     pollSinceReport (world st) + loop_polls (rep_loop st) + sum_polls (sendQueue st) +
     sum_list (map worker_polls (workers st)) + sum_polls (delivered st) = pollSinceReport demo_run_world + of_nat 1"
  using demo_polled agent_polls_conserved [of sorted_range demo_run_agent demo_run_world] by metis

text \<open>
  C14: After a clean stop nothing is left behind: when \<^verbatim>\<open>Run\<close> returns without an error, all goroutines
  have exited, the queue and the poll counter are empty, and the batches that the sender accepted are
  complete and carry, as increments of \<open>PollCount\<close>, exactly the polls the agent has made.
\<close>

theorem agent_clean_stop_delivers_all:
  assumes "agent_reachable og a w st" "main st = MReturned None"
  shows "loops_exited st \<and> workers_exited st \<and> sendQueue st = [] \<and> pollSinceReport (world st) = 0 \<and>
    list_all complete_metric (concat (map RMetrics (delivered st))) \<and>
    sum_list (counter_deltas ''PollCount'' (concat (map RMetrics (delivered st)))) = pollSinceReport w + of_nat (polls st)"
proof -
  from reachable_run_invar [OF assms(1)] assms(2) have
    i: "loops_exited st" "workers_exited st" "sendQueue st = []" "pollSinceReport (world st) = 0"
    by (auto simp: run_invar_def)
  have g: "\<forall>rep \<in> set (delivered st). good_report rep"
    using reachable_reports [OF assms(1)] by (simp add: reports_def)
  have "sum_list (map worker_polls (workers st)) = 0"
    using i(2) by (intro sum_list_zero) (auto simp: workers_exited_def list_all_iff)
  then have "sum_polls (delivered st) = pollSinceReport w + of_nat (polls st)"
    using reachable_polls [OF assms(1)] i by (simp add: total_polls_def loops_exited_def)
  moreover have "list_all complete_metric (concat (map RMetrics (delivered st)))"
    using g by (auto simp: good_report_def list_all_iff)
  ultimately show ?thesis using i good_reports_deltas [OF g] by simp
qed

theorem agent_clean_stop_delivers_all_witness:
  "\<exists>st. agent_reachable sorted_range demo_run_agent demo_run_world st \<and> main st = MReturned None \<and>
     sum_list (counter_deltas ''PollCount'' (concat (map RMetrics (delivered st)))) = pollSinceReport demo_run_world + of_nat 1"
  using demo_clean_stop agent_clean_stop_delivers_all [of sorted_range demo_run_agent demo_run_world] by metis

text \<open>
  C31: Bounds and absence of panics: in every reachable state at most \<open>rateLimit\<close> reports wait in the
  queue and at most \<open>rateLimit\<close> sends are under way; and when the two intervals make positive ticker
  periods, no goroutine panics; in particular nothing is ever sent on the closed queue.
\<close>

theorem agent_bounds:
  assumes "agent_reachable og a w st"
  shows "length (sendQueue st) \<le> nat (sint (a_rateLimit a)) \<and>
    length (filter (\<lambda>x. x \<noteq> WIdle \<and> x \<noteq> WExit) (workers st)) \<le> nat (sint (a_rateLimit a)) \<and>
    (ticker_ok (a_pollIntervalInSec a) \<and> ticker_ok (a_reportIntervalInSec a) \<longrightarrow> \<not> crashed st)"
  using reachable_run_invar [OF assms] length_filter_le [of "\<lambda>x. x \<noteq> WIdle \<and> x \<noteq> WExit" "workers st"]
  by (simp add: run_invar_def queue_cap_def)

theorem agent_bounds_witness:
  "\<exists>st. agent_reachable sorted_range demo_run_agent demo_run_world st \<and> polls st = 1 \<and>
     length (sendQueue st) \<le> 1 \<and> \<not> crashed st"
  using demo_clean_stop agent_bounds [of sorted_range demo_run_agent demo_run_world] demo_tickers
  by (fastforce simp: demo_run_agent_def)



text \<open>
  C33: Validation misses an overflow. The interval 9223372037 seconds passes the checks of the
  configuration and of \<^verbatim>\<open>agent.New\<close>, but its product with a second wraps to a negative period, so that
  starting the agent panics in \<^verbatim>\<open>time.NewTicker\<close>; every interval up to 9223372036 seconds is fine.
\<close>

theorem accepted_interval_panics:
  "(\<forall>n :: int64. 0 < sint n \<and> sint n \<le> 9223372036 \<longrightarrow> ticker_ok n) \<and>
   validateAgentConfig (defaultAgentConfig\<lparr>ac_PollIntervalInSec := 9223372037\<rparr>) = None \<and>
   (\<exists>a st. Agent_New (Some (KPointer, False, demo_service)) (defaultAgentConfig\<lparr>ac_PollIntervalInSec := 9223372037\<rparr>) = Inr a \<and>
      agent_reachable og a demo_run_world st \<and> crashed st)"
proof -
  have ok: "ticker_ok n" if n: "0 < sint n" "sint n \<le> 9223372036" for n :: int64
  proof -
    have "n * 1000000000 = word_of_int (sint n * 1000000000)" by simp
    moreover have "sint (word_of_int (sint n * 1000000000) :: int64) = sint n * 1000000000"
      unfolding int_word_sint using n by simp
    ultimately show ?thesis using n by (simp add: ticker_ok_def)
  qed
  let ?cfg = "defaultAgentConfig\<lparr>ac_PollIntervalInSec := 9223372037\<rparr>"
  let ?a = "\<lparr>a_service = demo_service, a_pollIntervalInSec = 9223372037, a_reportIntervalInSec = 10, a_rateLimit = 5\<rparr>"
  let ?st = "(run_init ?a demo_run_world)\<lparr>crashed := True\<rparr>"
  have new: "Agent_New (Some (KPointer, False, demo_service)) ?cfg = Inr ?a"
    by (simp add: Agent_New_def isNilReportingService_def defaultAgentConfig_def)
  have "\<not> ticker_ok (a_pollIntervalInSec ?a)" by (simp add: ticker_ok_def)
  then have "agent_reachable og ?a demo_run_world ?st"
    by (intro reach_step [OF reach_init step_runtime [OF _ rt_panic]]) (simp_all add: run_init_def)
  moreover have "validateAgentConfig ?cfg = None"
    by (simp add: validateAgentConfig_def defaultAgentConfig_def)
  moreover have "crashed ?st" by simp
  ultimately show ?thesis using ok new by blast
qed

theorem accepted_interval_panics_witness:
  "ticker_ok 60 \<and> validateAgentConfig (defaultAgentConfig\<lparr>ac_PollIntervalInSec := 9223372037\<rparr>) = None"
proof -
  have "0 < sint (60 :: int64) \<and> sint (60 :: int64) \<le> 9223372036" by simp
  with accepted_interval_panics [of sorted_range] show ?thesis by blast
qed

text \<open>
  A configuration that the agent's parser accepts is accepted by \<^verbatim>\<open>agent.New\<close> with a service that is
  not nil, and the agent has the configured intervals and a queue of the configured size; a nil
  service, also one hidden in a typed nil pointer, is refused.
\<close>

theorem Agent_New_accepts:
  assumes "parseAgentConfig fs args env = (cfg, None)"
  shows "(\<exists>a. Agent_New (Some (KPointer, False, s)) cfg = Inr a \<and> a_service a = s \<and>
      a_pollIntervalInSec a = ac_PollIntervalInSec cfg \<and> a_reportIntervalInSec a = ac_ReportIntervalInSec cfg \<and>
      queue_cap a = nat (sint (ac_RateLimit cfg)) \<and> 0 < queue_cap a) \<and>
    (\<exists>e. Agent_New None cfg = Inl e) \<and> (\<exists>e. Agent_New (Some (KPointer, True, s)) cfg = Inl e)"
proof -
  have "validateAgentConfig cfg = None" by (rule parseAgentConfig_ok [OF assms])
  then have "0 < sint (ac_PollIntervalInSec cfg) \<and> 0 < sint (ac_ReportIntervalInSec cfg) \<and> 0 < sint (ac_RateLimit cfg)"
    by (auto simp: validateAgentConfig_def split: if_splits)
  then show ?thesis by (simp add: Agent_New_def isNilReportingService_def queue_cap_def)
qed

theorem Agent_New_accepts_witness:
  "\<exists>a. Agent_New (Some (KPointer, False, demo_service)) demo_agent_cfg = Inr a \<and> queue_cap a = 16"
  using Agent_New_accepts [OF demo_agent_parse, of demo_service] by (auto simp: demo_agent_cfg_def)

end
