(* ===== verification/AuditTrail.thy ===== *)
theory AuditTrail
  imports FileStore
begin

text \<open>
  The audit trail of the server (\<^verbatim>\<open>src/internal/server/audit/\<close> and
  \<^verbatim>\<open>src/internal/server/audit_setup.go\<close>): events, the dispatcher that hands an event to every
  subscribed observer, the observer that appends one JSON line per event to a file, and the one that
  posts events to a remote receiver. An observer is a function on a world \<open>'w\<close>; the state of the
  request's context when it is called is the error \<^verbatim>\<open>ctx.Err()\<close> would give, \<^term>\<open>None\<close> while the
  context is alive. The HTTP client is a parameter.
\<close>

record Event =
  TS :: int64
  EMetrics :: "string list"
  IPAddress :: string

definition event_json :: "Event \<Rightarrow> json" where
  "event_json ev =
     JObj [(''ts'', JNum (FormatInt (TS ev))), (''metrics'', JArr (map JStr (EMetrics ev))),
           (''ip_address'', JStr (IPAddress ev))]"

text \<open>\<^verbatim>\<open>json.Encoder.Encode\<close> writes the document and a newline.\<close>

definition event_line :: "Event \<Rightarrow> bytes" where
  "event_line ev = json_print (event_json ev) @ [CHR 0x0A]"

subsection \<open>The dispatcher\<close>

type_synonym ctx_state = "goerr option"
type_synonym 'w Observer = "ctx_state \<Rightarrow> Event \<Rightarrow> 'w \<Rightarrow> goerr option \<times> 'w"

record 'w Auditor =
  observers :: "'w Observer list"

definition NewAuditor :: "'w Auditor" where
  "NewAuditor = \<lparr>observers = []\<rparr>"

definition Subscribe :: "'w Auditor \<Rightarrow> 'w Observer option \<Rightarrow> 'w Auditor" where
  "Subscribe a obs =
     (case obs of None \<Rightarrow> a | Some observer \<Rightarrow> a\<lparr>observers := observers a @ [observer]\<rparr>)"

fun notify_all ::
    "'w Observer list \<Rightarrow> ctx_state \<Rightarrow> Event \<Rightarrow> goerr list \<Rightarrow> 'w \<Rightarrow> goerr list \<times> 'w" where
  "notify_all [] ctx ev errs w = (errs, w)"
| "notify_all (observer # rest) ctx ev errs w =
     (case observer ctx ev w of
        (Some err, w') \<Rightarrow> notify_all rest ctx ev (errs @ [err]) w'
      | (None, w') \<Rightarrow> notify_all rest ctx ev errs w')"

definition Auditor_Notify :: "'w Auditor \<Rightarrow> ctx_state \<Rightarrow> Event \<Rightarrow> 'w \<Rightarrow> goerr option \<times> 'w" where
  "Auditor_Notify a ctx ev w =
     (case notify_all (observers a) ctx ev [] w of (errs, w') \<Rightarrow> (errors_Join (map Some errs), w'))"

subsection \<open>The file observer\<close>

text \<open>
  The open file (its path) and the encoder on it; the encoder remembers the first write error and
  gives it again on every later call.
\<close>

record FileObserver =
  ofile :: "string option"
  oencoder :: "goerr option option"

definition os_OpenAppend :: "string \<Rightarrow> filesystem \<Rightarrow> goerr option \<times> filesystem" where
  "os_OpenAppend p fs =
     (case write_faults fs p of
        Some (OpenFails e) \<Rightarrow> (Some e, fs)
      | _ \<Rightarrow> (None, case files fs p of None \<Rightarrow> fs\<lparr>files := (files fs)(p \<mapsto> [])\<rparr> | Some _ \<Rightarrow> fs))"

definition file_append :: "string \<Rightarrow> bytes \<Rightarrow> filesystem \<Rightarrow> goerr option \<times> filesystem" where
  "file_append p data fs =
     (let old = (case files fs p of None \<Rightarrow> [] | Some bs \<Rightarrow> bs)
      in case write_faults fs p of
           Some (WriteFails n e) \<Rightarrow> (Some e, fs\<lparr>files := (files fs)(p \<mapsto> old @ take n data)\<rparr>)
         | _ \<Rightarrow> (None, fs\<lparr>files := (files fs)(p \<mapsto> old @ data)\<rparr>))"

definition NewFileObserver :: "string \<Rightarrow> filesystem \<Rightarrow> (goerr + FileObserver) \<times> filesystem" where
  "NewFileObserver p fs =
     (case os_OpenAppend p fs of
        (Some err, fs') \<Rightarrow> (Inl (ErrorfW ''open audit file: %w'' [] err), fs')
      | (None, fs') \<Rightarrow> (Inr \<lparr>ofile = Some p, oencoder = Some None\<rparr>, fs'))"

definition encoder_Encode ::
    "string \<Rightarrow> goerr option \<Rightarrow> Event \<Rightarrow> filesystem \<Rightarrow> goerr option \<times> goerr option \<times> filesystem" where
  "encoder_Encode p enc_err ev fs =
     (case enc_err of
        Some e \<Rightarrow> (Some e, enc_err, fs)
      | None \<Rightarrow> (case file_append p (event_line ev) fs of (err, fs') \<Rightarrow> (err, err, fs')))"

definition FileObserver_Notify ::
    "ctx_state \<Rightarrow> Event \<Rightarrow> FileObserver \<times> filesystem \<Rightarrow> goerr option \<times> FileObserver \<times> filesystem" where
  "FileObserver_Notify ctx ev = (\<lambda>(ob, fs).
     case ctx of
       Some err \<Rightarrow> (Some err, ob, fs)
     | None \<Rightarrow>
         (case (ofile ob, oencoder ob) of
            (Some p, Some enc) \<Rightarrow>
              (case encoder_Encode p enc ev fs of
                 (Some err, enc', fs') \<Rightarrow>
                   (Some (ErrorfW ''write audit event: %w'' [] err), ob\<lparr>oencoder := Some enc'\<rparr>, fs')
               | (None, enc', fs') \<Rightarrow> (None, ob\<lparr>oencoder := Some enc'\<rparr>, fs'))
          | _ \<Rightarrow> (Some (Errorf ''audit file is closed'' []), ob, fs)))"

text \<open>\<open>Close\<close>; the argument is the error the operating system gives when the file is closed.\<close>

definition FileObserver_Close :: "goerr option \<Rightarrow> FileObserver \<Rightarrow> goerr option \<times> FileObserver" where
  "FileObserver_Close os_err ob =
     (case ofile ob of
        None \<Rightarrow> (None, ob)
      | Some _ \<Rightarrow>
          (case os_err of
             Some err \<Rightarrow> (Some (ErrorfW ''close audit file: %w'' [] err), ob)
           | None \<Rightarrow> (None, ob\<lparr>ofile := None, oencoder := None\<rparr>)))"

subsection \<open>The remote observer\<close>

record out_request =
  orq_method :: string
  orq_url :: string
  orq_header :: "(string \<times> string) list"
  orq_body :: bytes

text \<open>The outgoing half of \<^verbatim>\<open>net/http\<close>: whether a request can be built for a URL, and the exchange.\<close>

record 'n http_client =
  check_url :: "string \<Rightarrow> goerr option"
  client_Do :: "out_request \<Rightarrow> 'n \<Rightarrow> (goerr + int) \<times> 'n"

record 'n RemoteObserver =
  rurl :: string
  rclient :: "'n http_client"

definition RemoteObserver_Notify :: "'n RemoteObserver \<Rightarrow> ctx_state \<Rightarrow> Event \<Rightarrow> 'n \<Rightarrow> goerr option \<times> 'n" where
  "RemoteObserver_Notify ob ctx ev net =
     (case ctx of
        Some err \<Rightarrow> (Some err, net)
      | None \<Rightarrow>
          (case check_url (rclient ob) (rurl ob) of
             Some err \<Rightarrow> (Some (ErrorfW ''create audit request: %w'' [] err), net)
           | None \<Rightarrow>
               (case client_Do (rclient ob)
                    \<lparr>orq_method = ''POST'', orq_url = rurl ob,
                     orq_header = [(''Content-Type'', ''application/json'')], orq_body = event_line ev\<rparr> net of
                  (Inl err, net') \<Rightarrow> (Some (ErrorfW ''send audit event: %w'' [] err), net')
                | (Inr status, net') \<Rightarrow>
                    if status < 200 \<or> 300 \<le> status
                    then (Some (Errorf ''send audit event: unexpected status %d'' [FInt status]), net')
                    else (None, net'))))"

subsection \<open>Setting the audit up\<close>

record 'n audit_world =
  aw_observer :: FileObserver
  aw_fs :: filesystem
  aw_net :: 'n

definition file_observer :: "'n audit_world Observer" where
  "file_observer ctx ev w =
     (case FileObserver_Notify ctx ev (aw_observer w, aw_fs w) of
        (r, ob, fs) \<Rightarrow> (r, w\<lparr>aw_observer := ob, aw_fs := fs\<rparr>))"

definition remote_observer :: "'n RemoteObserver \<Rightarrow> 'n audit_world Observer" where
  "remote_observer ob ctx ev w =
     (case RemoteObserver_Notify ob ctx ev (aw_net w) of (r, net) \<Rightarrow> (r, w\<lparr>aw_net := net\<rparr>))"

text \<open>
  \<open>setupAudit\<close> gives the auditor, if any, and whether the cleanup has a file to close. The
  configuration is its two settings, \<^verbatim>\<open>AuditFile\<close> and \<^verbatim>\<open>AuditURL\<close>.
\<close>

definition setupAudit ::
    "'n http_client \<Rightarrow> string \<Rightarrow> string \<Rightarrow> 'n audit_world \<Rightarrow>
       (goerr + 'n audit_world Auditor option \<times> bool) \<times> 'n audit_world" where
  "setupAudit cl AuditFile AuditURL w =
     (if AuditFile = [] \<and> AuditURL = [] then (Inr (None, False), w)
      else
        (case (if AuditFile \<noteq> [] then
                 (case NewFileObserver AuditFile (aw_fs w) of
                    (Inl err, fs) \<Rightarrow> (Inl err, w\<lparr>aw_fs := fs\<rparr>)
                  | (Inr ob, fs) \<Rightarrow>
                      (Inr (Subscribe NewAuditor (Some file_observer), True), w\<lparr>aw_observer := ob, aw_fs := fs\<rparr>))
               else (Inr (NewAuditor, False), w)) of
           (Inl err, w') \<Rightarrow> (Inl err, w')
         | (Inr (auditor, closes), w') \<Rightarrow>
             (Inr (Some
                 (if AuditURL \<noteq> []
                  then Subscribe auditor (Some (remote_observer \<lparr>rurl = AuditURL, rclient = cl\<rparr>))
                  else auditor), closes), w')))"

subsection \<open>Lemmas\<close>

text \<open>The run of the dispatcher: the world is threaded through every observer, in order.\<close>

fun observer_run :: "'w Observer list \<Rightarrow> ctx_state \<Rightarrow> Event \<Rightarrow> 'w \<Rightarrow> goerr option list \<times> 'w" where
  "observer_run [] ctx ev w = ([], w)"
| "observer_run (ob # obs) ctx ev w =
     (case ob ctx ev w of (r, w') \<Rightarrow> (case observer_run obs ctx ev w' of (rs, w'') \<Rightarrow> (r # rs, w'')))"

lemma observer_run_length: "length (fst (observer_run obs ctx ev w)) = length obs"
  by (induction obs arbitrary: w) (auto split: prod.splits, metis fst_conv)

lemma notify_all_run:
  "notify_all obs ctx ev errs w =
     (errs @ List.map_filter id (fst (observer_run obs ctx ev w)), snd (observer_run obs ctx ev w))"
  by (induction obs arbitrary: errs w) (auto simp: List.map_filter_def split: prod.splits option.splits)

lemma event_json_ok: "json_numbers_ok (event_json ev)" "json_depth (event_json ev) \<le> max_nesting"
  using json_numbers_FormatInt [of "TS ev"]
  by (simp_all add: event_json_def max_nesting_def del: json_numbers_ok.simps(1))

lemma errors_Join_compress: "errors_Join (map Some (List.map_filter id rs)) = errors_Join rs"
proof -
  have "List.map_filter id (map Some xs) = xs" for xs :: "goerr list"
    by (induction xs) (simp_all add: List.map_filter_simps)
  then show ?thesis by (simp add: errors_Join_def)
qed

lemma ends_token_newline [simp]: "ends_token (CHR 0x0A # r)"
  by (simp add: ends_token_def is_digit_def)

lemma event_line_decodes: "json_Decode (event_line ev @ r) = Some (json_sanitize (event_json ev))"
  using json_Decode_print [OF event_json_ok, of "CHR 0x0A # r"] by (simp add: event_line_def)

definition open_observer :: "string \<Rightarrow> FileObserver" where
  "open_observer p = \<lparr>ofile = Some p, oencoder = Some None\<rparr>"

fun notify_events :: "Event list \<Rightarrow> FileObserver \<times> filesystem \<Rightarrow> goerr option list \<times> FileObserver \<times> filesystem" where
  "notify_events [] w = ([], w)"
| "notify_events (ev # evs) w =
     (case FileObserver_Notify None ev w of (r, w') \<Rightarrow>
        (case notify_events evs w' of (rs, w'') \<Rightarrow> (r # rs, w'')))"

lemma notify_events_append:
  assumes "write_faults fs p = None" and "files fs p = Some old"
  shows "notify_events evs (open_observer p, fs) =
    (replicate (length evs) None, open_observer p,
     fs\<lparr>files := (files fs)(p \<mapsto> old @ concat (map event_line evs))\<rparr>)"
  using assms
proof (induction evs arbitrary: fs old)
  case Nil
  then have "(files fs)(p \<mapsto> old) = files fs" by auto
  then show ?case by simp
next
  case (Cons ev evs)
  have "FileObserver_Notify None ev (open_observer p, fs) =
      (None, open_observer p, fs\<lparr>files := (files fs)(p \<mapsto> old @ event_line ev)\<rparr>)"
    using Cons.prems
    by (simp add: FileObserver_Notify_def open_observer_def encoder_Encode_def file_append_def Let_def)
  then show ?case using Cons.IH [of "fs\<lparr>files := (files fs)(p \<mapsto> old @ event_line ev)\<rparr>" "old @ event_line ev"] Cons.prems
    by (simp add: fun_upd_def cong: if_cong)
qed

subsection \<open>Properties\<close>

text \<open>
  The dispatcher calls every subscribed observer exactly once, in the order of subscription,
  also when earlier ones fail, and joins exactly the errors they returned.
\<close>

theorem Auditor_Notify_reaches_all:
  "Auditor_Notify a ctx ev w =
     (case observer_run (observers a) ctx ev w of (rs, w') \<Rightarrow>
        (if list_all (\<lambda>r. r = None) rs then None else Some (ErrorJoin (List.map_filter id rs)), w'))"
proof -
  have "errors_Join rs = (if list_all (\<lambda>r. r = None) rs then None else Some (ErrorJoin (List.map_filter id rs)))" for rs
    using errors_Join_None [of rs] by (auto simp: errors_Join_def Let_def list_all_iff split: if_splits)
  moreover obtain rs w' where "observer_run (observers a) ctx ev w = (rs, w')" by force
  ultimately show ?thesis
    using errors_Join_compress [of rs] by (simp add: Auditor_Notify_def notify_all_run)
qed

text \<open>
  On a healthy file the observer that \<open>NewFileObserver\<close> opens appends exactly one line per
  event, keeps everything that was in the file before, and each line is a JSON document that
  decodes to the event.
\<close>

theorem audit_file_log:
  assumes "write_faults fs p = None"
  shows "\<exists>ob fs1. NewFileObserver p fs = (Inr ob, fs1) \<and>
    fst (notify_events evs (ob, fs1)) = replicate (length evs) None \<and>
    files (snd (snd (notify_events evs (ob, fs1)))) p =
      Some ((case files fs p of None \<Rightarrow> [] | Some old \<Rightarrow> old) @ concat (map event_line evs)) \<and>
    (\<forall>ev r. json_Decode (event_line ev @ r) = Some (json_sanitize (event_json ev)))"
proof -
  define fs1 where "fs1 = (case files fs p of None \<Rightarrow> fs\<lparr>files := (files fs)(p \<mapsto> [])\<rparr> | Some _ \<Rightarrow> fs)"
  have "NewFileObserver p fs = (Inr (open_observer p), fs1)"
    using assms by (simp add: NewFileObserver_def os_OpenAppend_def fs1_def open_observer_def)
  moreover have "write_faults fs1 p = None" "files fs1 p = Some (case files fs p of None \<Rightarrow> [] | Some old \<Rightarrow> old)"
    using assms by (auto simp: fs1_def split: option.splits)
  ultimately show ?thesis using event_line_decodes notify_events_append [of fs1 p] by simp
qed

theorem audit_file_log_witness:
  "\<exists>ob fs1. NewFileObserver ''a.log'' empty_fs = (Inr ob, fs1) \<and>
    files (snd (snd (notify_events [\<lparr>TS = 5, EMetrics = [''x''], IPAddress = ''::1''\<rparr>] (ob, fs1)))) ''a.log'' =
      Some (event_line \<lparr>TS = 5, EMetrics = [''x''], IPAddress = ''::1''\<rparr>)"
  using audit_file_log [of empty_fs "''a.log''" "[\<lparr>TS = 5, EMetrics = [''x''], IPAddress = ''::1''\<rparr>]"]
  by (auto simp: empty_fs_def)

text \<open>
  After a successful \<open>Close\<close> no event is lost silently: every later notification fails with an
  error and leaves the file alone, and closing again is harmless.
\<close>

theorem closed_observer_rejects:
  assumes "FileObserver_Close os_err ob = (None, ob')"
  shows "FileObserver_Notify None ev (ob', fs) = (Some (Errorf ''audit file is closed'' []), ob', fs) \<and>
    FileObserver_Close os_err' ob' = (None, ob')"
  using assms by (auto simp: FileObserver_Close_def FileObserver_Notify_def split: option.splits)

theorem closed_observer_rejects_witness:
  "FileObserver_Close None (open_observer ''a.log'') = (None, \<lparr>ofile = None, oencoder = None\<rparr>) \<and>
   FileObserver_Notify None \<lparr>TS = 5, EMetrics = [''x''], IPAddress = ''::1''\<rparr> (\<lparr>ofile = None, oencoder = None\<rparr>, empty_fs) =
     (Some (Errorf ''audit file is closed'' []), \<lparr>ofile = None, oencoder = None\<rparr>, empty_fs)"
  using closed_observer_rejects [of None "open_observer ''a.log''" "\<lparr>ofile = None, oencoder = None\<rparr>"]
  by (simp add: FileObserver_Close_def open_observer_def)

end
