(* ===== verification/NetIP.thy ===== *)
theory NetIP
  imports Strconv
begin

text \<open>
  The part of package \<^verbatim>\<open>net\<close> the server and the agent use on addresses: \<^verbatim>\<open>ParseIP\<close>, \<^verbatim>\<open>ParseCIDR\<close>,
  \<^verbatim>\<open>IPNet.Contains\<close> and \<^verbatim>\<open>SplitHostPort\<close>. An address is its list of bytes, 16 for what \<^verbatim>\<open>ParseIP\<close>
  returns, 4 for an IPv4 network. The main facts say what \<^verbatim>\<open>ParseCIDR\<close> gives for an IPv4 network and
  that an address is in it exactly when it agrees with the network on the masked bits.
\<close>

unbundle bit_operations_syntax

type_synonym byte = "8 word"
type_synonym IP = "byte list"

subsection \<open>Parsing addresses\<close>

text \<open>The field loop of a dotted address: value and length of the current field, fields read so far.\<close>

fun ipv4_loop :: "nat \<Rightarrow> nat \<Rightarrow> IP \<Rightarrow> string \<Rightarrow> IP option" where
  "ipv4_loop val digLen fields [] =
     (if length fields < 3 then None else Some (fields @ [of_nat val]))"
| "ipv4_loop val digLen fields (c # cs) =
     (if is_digit c then
        (if digLen = 1 \<and> val = 0 then None
         else if 255 < val * 10 + digit_value c then None
         else ipv4_loop (val * 10 + digit_value c) (digLen + 1) fields cs)
      else if c = CHR ''.'' then
        (if digLen = 0 \<or> cs = [] then None
         else if length fields = 3 then None
         else ipv4_loop 0 0 (fields @ [of_nat val]) cs)
      else None)"

definition parseIPv4 :: "string \<Rightarrow> IP option" where
  "parseIPv4 s = ipv4_loop 0 0 [] s"

definition hex_digit :: "char \<Rightarrow> nat option" where
  "hex_digit c =
     (if is_digit c then Some (digit_value c)
      else if 97 \<le> char_code c \<and> char_code c \<le> 102 then Some (char_code c - 87)
      else if 65 \<le> char_code c \<and> char_code c \<le> 70 then Some (char_code c - 55)
      else None)"

abbreviation is_hex :: "char \<Rightarrow> bool" where
  "is_hex c \<equiv> hex_digit c \<noteq> None"

definition hex_group :: "string \<Rightarrow> nat" where
  "hex_group s = foldl (\<lambda>acc c. 16 * acc + the (hex_digit c)) 0 s"

text \<open>
  The group loop of an IPv6 address: at most \<open>n\<close> further groups, the bytes read so far, the position
  of the ellipsis if there was one. It gives the bytes, the ellipsis and the unread rest.
\<close>

fun ipv6_loop :: "nat \<Rightarrow> IP \<Rightarrow> nat option \<Rightarrow> string \<Rightarrow> (IP \<times> nat option \<times> string) option" where
  "ipv6_loop 0 ip ell s = Some (ip, ell, s)"
| "ipv6_loop (Suc n) ip ell s =
     (let g = takeWhile is_hex s; r = dropWhile is_hex s
      in if g = [] \<or> 4 < length g then None
         else if r \<noteq> [] \<and> hd r = CHR ''.'' then
           (if ell = None \<and> length ip \<noteq> 12 then None
            else if 16 < length ip + 4 then None
            else (case parseIPv4 s of None \<Rightarrow> None | Some fs \<Rightarrow> Some (ip @ fs, ell, [])))
         else
           (let ip' = ip @ [of_nat (hex_group g div 256), of_nat (hex_group g mod 256)]
            in case r of
                 [] \<Rightarrow> Some (ip', ell, [])
               | c # cs \<Rightarrow>
                   if c \<noteq> CHR '':'' \<or> cs = [] then None
                   else if hd cs = CHR '':'' then
                     (if ell \<noteq> None then None
                      else if tl cs = [] then Some (ip', Some (length ip'), [])
                      else ipv6_loop n ip' (Some (length ip')) (tl cs))
                   else ipv6_loop n ip' ell cs))"

definition expand_ellipsis :: "IP \<Rightarrow> nat option \<Rightarrow> IP option" where
  "expand_ellipsis ip ell =
     (if length ip < 16 then
        (case ell of
           None \<Rightarrow> None
         | Some e \<Rightarrow> Some (take e ip @ replicate (16 - length ip) 0 @ drop e ip))
      else if ell \<noteq> None then None
      else Some ip)"

text \<open>An address with a zone (after \<^verbatim>\<open>%\<close>) parses but \<^verbatim>\<open>net.ParseIP\<close> rejects it, and so does this.\<close>

definition parseIPv6 :: "string \<Rightarrow> IP option" where
  "parseIPv6 s =
     (if CHR ''%'' \<in> set s then None
      else
        let (ell, t) = (if take 2 s = ''::'' then (Some 0, drop 2 s) else (None, s))
        in if ell \<noteq> None \<and> t = [] then Some (replicate 16 0)
           else case ipv6_loop 8 [] ell t of
               None \<Rightarrow> None
             | Some (ip, ell', r) \<Rightarrow> if r \<noteq> [] then None else expand_ellipsis ip ell')"

definition v4InV6Prefix :: IP where
  "v4InV6Prefix = replicate 10 0 @ [255, 255]"

text \<open>Which kind of address a text is: decided by the first dot, colon or percent sign.\<close>

definition ParseAddr :: "string \<Rightarrow> (IP \<times> nat) option" where
  "ParseAddr s =
     (case dropWhile (\<lambda>c. c \<noteq> CHR ''.'' \<and> c \<noteq> CHR '':'' \<and> c \<noteq> CHR ''%'') s of
        [] \<Rightarrow> None
      | c # _ \<Rightarrow>
          if c = CHR ''.'' then map_option (\<lambda>ip. (v4InV6Prefix @ ip, 32)) (parseIPv4 s)
          else if c = CHR '':'' then map_option (\<lambda>ip. (ip, 128)) (parseIPv6 s)
          else None)"

definition ParseIP :: "string \<Rightarrow> IP option" where
  "ParseIP s = map_option fst (ParseAddr s)"

subsection \<open>Networks\<close>

definition To4 :: "IP \<Rightarrow> IP option" where
  "To4 ip =
     (if length ip = 4 then Some ip
      else if length ip = 16 \<and> take 12 ip = v4InV6Prefix then Some (drop 12 ip)
      else None)"

record IPNet =
  netIP :: IP
  netMask :: IP

definition CIDRMask :: "nat \<Rightarrow> nat \<Rightarrow> IP" where
  "CIDRMask ones bits =
     map (\<lambda>i. if 8 * (i + 1) \<le> ones then 255
              else if 8 * i < ones then of_nat (256 - 2 ^ (8 - (ones - 8 * i)))
              else 0)
       [0..<bits div 8]"

abbreviation and_bytes :: "IP \<Rightarrow> IP \<Rightarrow> IP" where
  "and_bytes xs ys \<equiv> map2 (\<lambda>a b. a AND b) xs ys"

text \<open>\<^verbatim>\<open>IP.Mask\<close> for the masks \<^verbatim>\<open>ParseCIDR\<close> builds: a 4-byte mask selects the IPv4 part.\<close>

definition IP_Mask :: "IP \<Rightarrow> IP \<Rightarrow> IP" where
  "IP_Mask ip msk = (if length msk = 4 then and_bytes (drop 12 ip) msk else and_bytes ip msk)"

definition ParseCIDR :: "string \<Rightarrow> IPNet option" where
  "ParseCIDR s =
     (case dropWhile (\<lambda>c. c \<noteq> CHR ''/'') s of
        [] \<Rightarrow> None
      | _ # msk \<Rightarrow>
          (case ParseAddr (takeWhile (\<lambda>c. c \<noteq> CHR ''/'') s) of
             None \<Rightarrow> None
           | Some (addr16, bits) \<Rightarrow>
               if msk = [] \<or> \<not> list_all is_digit msk \<or> bits < digits_value msk then None
               else Some \<lparr>netIP = IP_Mask addr16 (CIDRMask (digits_value msk) bits),
                          netMask = CIDRMask (digits_value msk) bits\<rparr>))"

definition networkNumberAndMask :: "IPNet \<Rightarrow> (IP \<times> IP) option" where
  "networkNumberAndMask n =
     (let ip = (case To4 (netIP n) of Some x \<Rightarrow> x | None \<Rightarrow> netIP n); m = netMask n
      in if To4 (netIP n) = None \<and> length ip \<noteq> 16 then None
         else if length m = 4 then (if length ip \<noteq> 4 then None else Some (ip, m))
         else if length m = 16 then Some (ip, if length ip = 4 then drop 12 m else m)
         else None)"

definition IPNet_Contains :: "IPNet \<Rightarrow> IP \<Rightarrow> bool" where
  "IPNet_Contains n ip =
     (case networkNumberAndMask n of
        None \<Rightarrow> ip = []
      | Some (nn, m) \<Rightarrow>
          let x = (case To4 ip of Some x \<Rightarrow> x | None \<Rightarrow> ip)
          in length x = length nn \<and> and_bytes nn m = and_bytes x m)"

subsection \<open>Host and port\<close>

definition SplitHostPort :: "string \<Rightarrow> (string \<times> string) option" where
  "SplitHostPort hostport =
     (if CHR '':'' \<notin> set hostport then None
      else
        let port = rev (takeWhile (\<lambda>c. c \<noteq> CHR '':'') (rev hostport));
            i = length hostport - length port - 1
        in if hd hostport = CHR ''['' then
             (let close = length (takeWhile (\<lambda>c. c \<noteq> CHR '']'') hostport)
              in if CHR '']'' \<notin> set hostport \<or> close + 1 \<noteq> i then None
                 else if CHR ''['' \<in> set (drop 1 hostport) \<or> CHR '']'' \<in> set (drop (close + 1) hostport) then None
                 else Some (drop 1 (take close hostport), port))
           else if CHR '':'' \<in> set (take i hostport) \<or> CHR ''['' \<in> set hostport \<or> CHR '']'' \<in> set hostport then None
           else Some (take i hostport, port))"

subsection \<open>IPv4 networks\<close>

lemma ipv4_loop_length: "ipv4_loop val dl fs s = Some r \<Longrightarrow> length fs \<le> 3 \<Longrightarrow> length r = 4"
  by (induction val dl fs s rule: ipv4_loop.induct) (auto split: if_splits)

lemma parseIPv4_length: "parseIPv4 s = Some ip \<Longrightarrow> length ip = 4"
  unfolding parseIPv4_def by (drule ipv4_loop_length) simp_all

lemma CIDRMask_length [simp]: "length (CIDRMask n b) = b div 8"
  by (simp add: CIDRMask_def)

lemma and_bytes_idem: "length xs = length ms \<Longrightarrow> and_bytes (and_bytes xs ms) ms = and_bytes xs ms"
  by (induction xs ms rule: list_induct2) (simp_all add: and.assoc)

lemma To4_mapped [simp]: "length ip = 4 \<Longrightarrow> To4 (v4InV6Prefix @ ip) = Some ip" "length ip = 4 \<Longrightarrow> To4 ip = Some ip"
  by (simp_all add: To4_def v4InV6Prefix_def)

definition ipv4_net :: "IP \<Rightarrow> nat \<Rightarrow> IPNet" where
  "ipv4_net ip ones = \<lparr>netIP = and_bytes ip (CIDRMask ones 32), netMask = CIDRMask ones 32\<rparr>"

lemma ipv4_net_contains:
  assumes "length ip = 4" and "length x = 4"
  shows "IPNet_Contains (ipv4_net ip ones) (v4InV6Prefix @ x) \<longleftrightarrow>
    and_bytes ip (CIDRMask ones 32) = and_bytes x (CIDRMask ones 32)"
  using assms and_bytes_idem [of ip "CIDRMask ones 32"]
  by (simp add: IPNet_Contains_def networkNumberAndMask_def ipv4_net_def Let_def)

lemma ParseCIDR_ipv4:
  assumes "parseIPv4 a = Some ip" and "list_all is_digit m" and "m \<noteq> []" and "digits_value m \<le> 32"
    and "CHR ''/'' \<notin> set a" and "CHR '':'' \<notin> set a" and "CHR ''%'' \<notin> set a" and "CHR ''.'' \<in> set a"
  shows "ParseCIDR (a @ CHR ''/'' # m) = Some (ipv4_net ip (digits_value m))"
proof -
  have "ParseAddr a = Some (v4InV6Prefix @ ip, 32)"
  proof -
    define P where "P = (\<lambda>c. c \<noteq> CHR ''.'' \<and> c \<noteq> CHR '':'' \<and> c \<noteq> CHR ''%'')"
    have "dropWhile P a \<noteq> []" using assms(8) by (auto simp: P_def)
    then obtain c cs where c: "dropWhile P a = c # cs" and "\<not> P c"
      using hd_dropWhile [of P a] by (cases "dropWhile P a") auto
    moreover have "c \<in> set a" using c set_dropWhileD [of c P a] by simp
    ultimately have "c = CHR ''.''" using assms(6,7) by (auto simp: P_def)
    then show ?thesis using c assms(1) by (simp add: ParseAddr_def P_def)
  qed
  moreover have "dropWhile (\<lambda>c. c \<noteq> CHR ''/'') (a @ CHR ''/'' # m) = CHR ''/'' # m"
    "takeWhile (\<lambda>c. c \<noteq> CHR ''/'') (a @ CHR ''/'' # m) = a"
    using assms(5) by (auto simp: dropWhile_append3 takeWhile_tail)
  ultimately show ?thesis
    using assms(2,3,4)
    by (simp add: ParseCIDR_def IP_Mask_def ipv4_net_def v4InV6Prefix_def)
qed

end
