(* ===== verification/Hash.thy ===== *)
theory Hash
  imports Strconv
begin

text \<open>
  Signing of HTTP bodies (\<^verbatim>\<open>src/internal/hash/hash.go\<close>): the SHA-256 digest of the body followed by
  the key, in hexadecimal. The digest of \<^verbatim>\<open>crypto/sha256\<close> is computed here from its definition
  (FIPS 180-4), so that signatures of concrete bodies can be evaluated.
\<close>

unbundle bit_operations_syntax

subsection \<open>SHA-256\<close>

type_synonym word32 = "32 word"

definition sha_K :: "word32 list" where
  "sha_K =
     [1116352408, 1899447441, 3049323471, 3921009573, 961987163, 1508970993, 2453635748, 2870763221,
      3624381080, 310598401, 607225278, 1426881987, 1925078388, 2162078206, 2614888103, 3248222580,
      3835390401, 4022224774, 264347078, 604807628, 770255983, 1249150122, 1555081692, 1996064986,
      2554220882, 2821834349, 2952996808, 3210313671, 3336571891, 3584528711, 113926993, 338241895,
      666307205, 773529912, 1294757372, 1396182291, 1695183700, 1986661051, 2177026350, 2456956037,
      2730485921, 2820302411, 3259730800, 3345764771, 3516065817, 3600352804, 4094571909, 275423344,
      430227734, 506948616, 659060556, 883997877, 958139571, 1322822218, 1537002063, 1747873779,
      1955562222, 2024104815, 2227730452, 2361852424, 2428436474, 2756734187, 3204031479, 3329325298]"

type_synonym sha_state =
  "word32 \<times> word32 \<times> word32 \<times> word32 \<times> word32 \<times> word32 \<times> word32 \<times> word32"

definition sha_init :: sha_state where
  "sha_init =
     (1779033703, 3144134277, 1013904242, 2773480762, 1359893119, 2600822924, 528734635, 1541459225)"

definition rotr32 :: "nat \<Rightarrow> word32 \<Rightarrow> word32" where
  "rotr32 n x = drop_bit n x OR push_bit (32 - n) x"

definition sha_next :: "word32 list \<Rightarrow> word32" where
  "sha_next w =
     (let n = length w;
          a = w ! (n - 15); b = w ! (n - 2);
          s0 = rotr32 7 a XOR rotr32 18 a XOR drop_bit 3 a;
          s1 = rotr32 17 b XOR rotr32 19 b XOR drop_bit 10 b
      in w ! (n - 16) + s0 + w ! (n - 7) + s1)"

primrec sha_schedule :: "nat \<Rightarrow> word32 list \<Rightarrow> word32 list" where
  "sha_schedule 0 w = w"
| "sha_schedule (Suc k) w = sha_schedule k (w @ [sha_next w])"

definition sha_round :: "word32 \<times> word32 \<Rightarrow> sha_state \<Rightarrow> sha_state" where
  "sha_round = (\<lambda>(k, w) (a, b, c, d, e, f, g, h).
     let s1 = rotr32 6 e XOR rotr32 11 e XOR rotr32 25 e;
         ch = (e AND f) XOR (NOT e AND g);
         t1 = h + s1 + ch + k + w;
         s0 = rotr32 2 a XOR rotr32 13 a XOR rotr32 22 a;
         maj = (a AND b) XOR (a AND c) XOR (b AND c);
         t2 = s0 + maj
     in (t1 + t2, a, b, c, d + t1, e, f, g))"

definition add_state :: "sha_state \<Rightarrow> sha_state \<Rightarrow> sha_state" where
  "add_state = (\<lambda>(a, b, c, d, e, f, g, h) (a', b', c', d', e', f', g', h').
     (a + a', b + b', c + c', d + d', e + e', f + f', g + g', h + h'))"

definition sha_compress :: "word32 list \<Rightarrow> sha_state \<Rightarrow> sha_state" where
  "sha_compress block st = add_state st (fold sha_round (zip sha_K (sha_schedule 48 block)) st)"

definition be_bytes :: "nat \<Rightarrow> nat \<Rightarrow> bytes" where
  "be_bytes k n = map (\<lambda>i. char_of (n div 256 ^ (k - 1 - i) mod 256)) [0..<k]"

definition sha_pad :: "bytes \<Rightarrow> bytes" where
  "sha_pad m =
     m @ [CHR 0x80] @ replicate ((119 - length m mod 64) mod 64) (CHR 0x00) @
       be_bytes 8 (8 * length m mod 2 ^ 64)"

fun be_words :: "bytes \<Rightarrow> word32 list" where
  "be_words (a # b # c # d # r) =
     of_nat (((char_code a * 256 + char_code b) * 256 + char_code c) * 256 + char_code d) # be_words r"
| "be_words _ = []"

function sha_blocks :: "word32 list \<Rightarrow> sha_state \<Rightarrow> sha_state" where
  "sha_blocks ws st = (if ws = [] then st else sha_blocks (drop 16 ws) (sha_compress (take 16 ws) st))"
  by pat_completeness auto
termination
  by (relation "measure (\<lambda>(ws, st). length ws)") auto

definition state_words :: "sha_state \<Rightarrow> word32 list" where
  "state_words = (\<lambda>(a, b, c, d, e, f, g, h). [a, b, c, d, e, f, g, h])"

definition sha256_Sum256 :: "bytes \<Rightarrow> bytes" where
  "sha256_Sum256 m =
     concat (map (\<lambda>w. be_bytes 4 (unat w)) (state_words (sha_blocks (be_words (sha_pad m)) sha_init)))"

definition hex_lower :: "nat \<Rightarrow> char" where
  "hex_lower d = (if d < 10 then char_of (48 + d) else char_of (87 + d))"

definition hex_EncodeToString :: "bytes \<Rightarrow> string" where
  "hex_EncodeToString s =
     concat (map (\<lambda>c. [hex_lower (char_code c div 16), hex_lower (char_code c mod 16)]) s)"

subsection \<open>Signatures\<close>

definition CalcHash :: "bytes \<Rightarrow> string \<Rightarrow> string" where
  "CalcHash body key = (if key = [] then [] else hex_EncodeToString (sha256_Sum256 (body @ key)))"

declare sha_blocks.simps [simp del]

lemma length_concat_const: "(\<And>x. x \<in> set xs \<Longrightarrow> length (f x) = n) \<Longrightarrow> length (concat (map f xs)) = n * length xs"
  by (induction xs) auto

lemma sha256_length: "length (sha256_Sum256 m) = 32"
proof -
  have "length (state_words s) = 8" for s by (simp add: state_words_def split: prod.split)
  then show ?thesis
    unfolding sha256_Sum256_def by (subst length_concat_const [where n = 4]) (simp_all add: be_bytes_def)
qed

lemma CalcHash_length: "key \<noteq> [] \<Longrightarrow> length (CalcHash body key) = 64"
  unfolding CalcHash_def hex_EncodeToString_def
  by (simp add: sha256_length length_concat_const [where n = 2])

lemma CalcHash_empty_iff [simp]: "CalcHash body key = [] \<longleftrightarrow> key = []"
  using CalcHash_length [of key body] by (cases "key = []") (auto simp: CalcHash_def)

end
