(* ===== verification/HttpCore.thy ===== *)
theory HttpCore
  imports AuditTrail NetIP Hash
begin

text \<open>
  The vocabulary of the HTTP side: requests and responses as \<^verbatim>\<open>net/http\<close> hands them over, the
  constants of \<^verbatim>\<open>src/internal/protocol\<close>, and the meaning of the calls on a response writer.

  A handler gives the calls it makes on the response writer, in order, and the new world; it may
  panic. \<open>serve\<close> is the writer of the \<^verbatim>\<open>net/http\<close> server: the first \<^verbatim>\<open>WriteHeader\<close> (or the first
  write, with status 200) freezes status and headers, later ones are ignored. Headers that the
  server adds on its own (\<^verbatim>\<open>Date\<close>, \<^verbatim>\<open>Content-Length\<close>, a sniffed content type) are left out.

  A body is what reading it gives: the bytes, and the error with which the stream ends, \<^term>\<open>None\<close>
  for \<^verbatim>\<open>io.EOF\<close>.
\<close>

subsection \<open>Protocol constants\<close>

definition ContentTypeJSON :: string where "ContentTypeJSON = ''application/json''"
definition ContentTypeTextPlain :: string where "ContentTypeTextPlain = ''text/plain''"
definition ContentTypeTextPlainUTF8 :: string where "ContentTypeTextPlainUTF8 = ''text/plain; charset=utf-8''"
definition ContentTypeHTML :: string where "ContentTypeHTML = ''text/html''"
definition ContentTypeHTMLUTF8 :: string where "ContentTypeHTMLUTF8 = ''text/html; charset=utf-8''"
definition EncodingGzip :: string where "EncodingGzip = ''gzip''"
definition HeaderHashSHA256 :: string where "HeaderHashSHA256 = ''HashSHA256''"
definition HeaderRealIP :: string where "HeaderRealIP = ''X-Real-IP''"
definition HeaderContentType :: string where "HeaderContentType = ''Content-Type''"
definition HeaderContentEncoding :: string where "HeaderContentEncoding = ''Content-Encoding''"
definition HeaderAcceptEncoding :: string where "HeaderAcceptEncoding = ''Accept-Encoding''"
definition HeaderContentEncryption :: string where "HeaderContentEncryption = ''Content-Encryption''"

lemmas protocol_defs =
  ContentTypeJSON_def ContentTypeTextPlain_def ContentTypeTextPlainUTF8_def ContentTypeHTML_def
  ContentTypeHTMLUTF8_def EncodingGzip_def HeaderHashSHA256_def HeaderRealIP_def HeaderContentType_def
  HeaderContentEncoding_def HeaderAcceptEncoding_def HeaderContentEncryption_def

subsection \<open>Headers\<close>

text \<open>
  \<^verbatim>\<open>http.Header\<close>: value lists by canonical key. Canonical keys have upper case at the start and
  after each hyphen and lower case elsewhere; a key with a byte that is not allowed in a header name
  is left alone.
\<close>

type_synonym header = "string \<rightharpoonup> string list"

definition ascii_upper :: "char \<Rightarrow> char" where
  "ascii_upper c =
     (if 97 \<le> char_code c \<and> char_code c \<le> 122 then char_of (char_code c - 32) else c)"

definition is_letter :: "char \<Rightarrow> bool" where
  "is_letter c \<longleftrightarrow> (65 \<le> char_code c \<and> char_code c \<le> 90) \<or> (97 \<le> char_code c \<and> char_code c \<le> 122)"

definition is_token_char :: "char \<Rightarrow> bool" where
  "is_token_char c \<longleftrightarrow> is_letter c \<or> is_digit c \<or> c \<in> set ''!#$%&*+-.^_`|~'' \<or> char_code c = 39"

fun canonical_loop :: "bool \<Rightarrow> string \<Rightarrow> string" where
  "canonical_loop upper [] = []"
| "canonical_loop upper (c # cs) =
     (if upper then ascii_upper c else ascii_lower c) # canonical_loop (c = CHR ''-'') cs"

definition canonical_key :: "string \<Rightarrow> string" where
  "canonical_key k = (if list_all is_token_char k then canonical_loop True k else k)"

definition Header_Get :: "header \<Rightarrow> string \<Rightarrow> string" where
  "Header_Get h k = (case h (canonical_key k) of Some (v # _) \<Rightarrow> v | _ \<Rightarrow> [])"

definition Header_Set :: "header \<Rightarrow> string \<Rightarrow> string \<Rightarrow> header" where
  "Header_Set h k v = h(canonical_key k \<mapsto> [v])"

definition Header_Add :: "header \<Rightarrow> string \<Rightarrow> string \<Rightarrow> header" where
  "Header_Add h k v =
     h(canonical_key k \<mapsto> (case h (canonical_key k) of None \<Rightarrow> [] | Some vs \<Rightarrow> vs) @ [v])"

definition Header_Del :: "header \<Rightarrow> string \<Rightarrow> header" where
  "Header_Del h k = h(canonical_key k := None)"

lemma canonical_constants [simp]:
  "canonical_key HeaderHashSHA256 = ''Hashsha256''"
  "canonical_key HeaderRealIP = ''X-Real-Ip''"
  "canonical_key HeaderContentType = ''Content-Type''"
  "canonical_key HeaderContentEncoding = ''Content-Encoding''"
  "canonical_key HeaderAcceptEncoding = ''Accept-Encoding''"
  "canonical_key HeaderContentEncryption = ''Content-Encryption''"
  by code_simp+

subsection \<open>Requests\<close>

type_synonym body = "bytes \<times> goerr option"

record http_request =
  rq_method :: string
  rq_uri :: string
  rq_header :: header
  rq_body :: "body option"
  rq_remote :: string
  rq_params :: "string \<Rightarrow> string"
  rq_ctx :: ctx_state
  rq_now :: int64

definition io_ReadAll :: "body \<Rightarrow> goerr + bytes" where
  "io_ReadAll b = (case snd b of None \<Rightarrow> Inr (fst b) | Some e \<Rightarrow> Inl e)"

text \<open>
  \<^verbatim>\<open>json.NewDecoder(body).Decode\<close>: an object or an array is complete with its closing bracket,
  whatever the stream does afterwards; a scalar needs a further byte or the regular end of the
  stream. \<open>bytes.NewReader\<close> and \<open>io.NopCloser\<close> give a body without an error.
\<close>

definition body_Decode :: "body \<Rightarrow> json option" where
  "body_Decode b =
     (case json_value (fst b) of
        None \<Rightarrow> None
      | Some (j, r) \<Rightarrow>
          (case j of
             JArr _ \<Rightarrow> Some j
           | JObj _ \<Rightarrow> Some j
           | _ \<Rightarrow> if r = [] \<and> snd b \<noteq> None then None else Some j))"

lemma body_Decode_EOF [simp]: "body_Decode (bs, None) = json_Decode bs"
  by (auto simp: body_Decode_def json_Decode_def split: option.splits json.splits)

subsection \<open>Responses\<close>

datatype rw_op =
    SetHeader string string
  | AddHeader string string
  | WriteHeader int
  | WriteBody bytes

record rw_state =
  rw_header :: header
  rw_sent :: "(int \<times> header) option"
  rw_body :: bytes

record http_response =
  rs_status :: int
  rs_header :: header
  rs_body :: bytes

definition rw_init :: rw_state where
  "rw_init = \<lparr>rw_header = Map.empty, rw_sent = None, rw_body = []\<rparr>"

definition rw_WriteHeader :: "int \<Rightarrow> rw_state \<Rightarrow> rw_state" where
  "rw_WriteHeader code s =
     (case rw_sent s of None \<Rightarrow> s\<lparr>rw_sent := Some (code, rw_header s)\<rparr> | Some _ \<Rightarrow> s)"

fun rw_step :: "rw_op \<Rightarrow> rw_state \<Rightarrow> rw_state" where
  "rw_step (SetHeader k v) s = s\<lparr>rw_header := Header_Set (rw_header s) k v\<rparr>"
| "rw_step (AddHeader k v) s = s\<lparr>rw_header := Header_Add (rw_header s) k v\<rparr>"
| "rw_step (WriteHeader code) s = rw_WriteHeader code s"
| "rw_step (WriteBody b) s = (let s' = rw_WriteHeader 200 s in s'\<lparr>rw_body := rw_body s' @ b\<rparr>)"

definition rw_run :: "rw_op list \<Rightarrow> rw_state \<Rightarrow> rw_state" where
  "rw_run ops s = fold rw_step ops s"

definition rw_response :: "rw_state \<Rightarrow> http_response" where
  "rw_response s =
     (case rw_sent s of
        None \<Rightarrow> \<lparr>rs_status = 200, rs_header = rw_header s, rs_body = rw_body s\<rparr>
      | Some (code, h) \<Rightarrow> \<lparr>rs_status = code, rs_header = h, rs_body = rw_body s\<rparr>)"

definition serve :: "rw_op list \<Rightarrow> http_response" where
  "serve ops = rw_response (rw_run ops rw_init)"

type_synonym 'w http_handler = "http_request \<Rightarrow> 'w \<Rightarrow> rw_op list outcome \<times> 'w"

text \<open>What the client of a handler sees: a response, or an aborted connection after a panic.\<close>

definition respond :: "'w http_handler \<Rightarrow> http_request \<Rightarrow> 'w \<Rightarrow> http_response outcome \<times> 'w" where
  "respond h rq w =
     (case h rq w of
        (Return ops, w') \<Rightarrow> (Return (serve ops), w')
      | (Panic p, w') \<Rightarrow> (Panic p, w'))"

lemma rw_run_simps [simp]:
  "rw_run [] s = s" "rw_run (op # ops) s = rw_run ops (rw_step op s)"
  "rw_run (ops @ ops') s = rw_run ops' (rw_run ops s)"
  by (simp_all add: rw_run_def)

lemma serve_simps [simp]:
  "serve [WriteHeader c] = \<lparr>rs_status = c, rs_header = Map.empty, rs_body = []\<rparr>"
  "serve [SetHeader k v, WriteHeader c] = \<lparr>rs_status = c, rs_header = [canonical_key k \<mapsto> [v]], rs_body = []\<rparr>"
  "serve [SetHeader k v, WriteHeader c, WriteBody b] =
     \<lparr>rs_status = c, rs_header = [canonical_key k \<mapsto> [v]], rs_body = b\<rparr>"
  by (simp_all add: serve_def rw_init_def rw_WriteHeader_def rw_response_def Header_Set_def)

subsection \<open>Logging\<close>

datatype log_level = LogDebug | LogInfo | LogWarn | LogError

text \<open>The levels are ordered by their severity, as the threshold of a logger needs it.\<close>

fun level_rank :: "log_level \<Rightarrow> nat" where
  "level_rank LogDebug = 0"
| "level_rank LogInfo = 1"
| "level_rank LogWarn = 2"
| "level_rank LogError = 3"

lemma level_rank_inject: "level_rank a = level_rank b \<longleftrightarrow> a = b"
  by (cases a; cases b) simp_all

instantiation log_level :: linorder
begin

definition less_eq_log_level :: "log_level \<Rightarrow> log_level \<Rightarrow> bool" where
  "a \<le> b \<longleftrightarrow> level_rank a \<le> level_rank b"

definition less_log_level :: "log_level \<Rightarrow> log_level \<Rightarrow> bool" where
  "a < b \<longleftrightarrow> level_rank a < level_rank b"

instance
  by standard (auto simp: less_eq_log_level_def less_log_level_def simp flip: level_rank_inject)

end

datatype log_entry = LogEntry log_level string "(string \<times> fmt_arg) list"

fun entry_level :: "log_entry \<Rightarrow> log_level" where
  "entry_level (LogEntry l _ _) = l"

type_synonym 'w logger = "log_entry \<Rightarrow> 'w \<Rightarrow> 'w"

end
