(* ===== verification/HttpHandler.thy ===== *)
theory HttpHandler
  imports HttpCore MetricsService
begin

text \<open>
  The HTTP handlers of the server (\<^verbatim>\<open>src/internal/server/transport/http/handler/\<close>): the text and
  JSON endpoints that store and read metrics, the index page, the database probe, and the audit
  notification of successful updates. A handler works on any service that offers the interface of
  a storage.

  The facts below hold for every service that meets the storage contract (locale \<open>http_server\<close>):
  what each endpoint answers and does on every branch, that a batch is stored as a whole or not at
  all, that nothing panics on a request the server accepts, and that reading never changes a metric.
\<close>

record 'w Handler =
  service :: "'w MetricsStorage"
  db :: "('w \<Rightarrow> goerr option \<times> 'w) option"
  auditor :: "'w Auditor option"
  hlog :: "'w logger option"

definition Handler_New :: "'w MetricsStorage \<Rightarrow> ('w \<Rightarrow> goerr option \<times> 'w) option \<Rightarrow> 'w Handler" where
  "Handler_New s d = \<lparr>service = s, db = d, auditor = None, hlog = None\<rparr>"

definition EnableAudit :: "'w Handler \<Rightarrow> 'w Auditor \<Rightarrow> 'w logger \<Rightarrow> 'w Handler" where
  "EnableAudit h a l = h\<lparr>auditor := Some a, hlog := Some l\<rparr>"

subsection \<open>Audit\<close>

definition clientIP :: "http_request \<Rightarrow> string" where
  "clientIP r =
     (let realIP = Header_Get (rq_header r) HeaderRealIP
      in if realIP \<noteq> [] then realIP
         else case SplitHostPort (rq_remote r) of None \<Rightarrow> rq_remote r | Some (host, _) \<Rightarrow> host)"

definition metricIDs :: "Metrics list \<Rightarrow> string list" where
  "metricIDs metrics = filter (\<lambda>n. n \<noteq> []) (map ID metrics)"

definition notifyAudit :: "'w Handler \<Rightarrow> http_request \<Rightarrow> string list \<Rightarrow> 'w \<Rightarrow> 'w" where
  "notifyAudit h r metrics w =
     (case auditor h of
        None \<Rightarrow> w
      | Some a \<Rightarrow>
          if metrics = [] then w
          else
            (case Auditor_Notify a (rq_ctx r)
                 \<lparr>TS = rq_now r, EMetrics = metrics, IPAddress = clientIP r\<rparr> w of
               (None, w') \<Rightarrow> w'
             | (Some err, w') \<Rightarrow>
                 (case hlog h of None \<Rightarrow> w' | Some l \<Rightarrow> l (LogEntry LogError ''audit failed'' []) w')))"

definition notifyAuditMetric :: "'w Handler \<Rightarrow> http_request \<Rightarrow> string \<Rightarrow> 'w \<Rightarrow> 'w" where
  "notifyAuditMetric h r metricName w =
     (if auditor h = None \<or> metricName = [] then w else notifyAudit h r [metricName] w)"

definition notifyAuditMetrics :: "'w Handler \<Rightarrow> http_request \<Rightarrow> Metrics list \<Rightarrow> 'w \<Rightarrow> 'w" where
  "notifyAuditMetrics h r metrics w =
     (if auditor h = None \<or> metrics = [] then w else notifyAudit h r (metricIDs metrics) w)"

subsection \<open>JSON bodies\<close>

text \<open>The decoded value, or the calls on the response writer that end the request.\<close>

definition decodeJSONRequest :: "(json \<Rightarrow> 'a option) \<Rightarrow> http_request \<Rightarrow> (rw_op list + 'a) outcome" where
  "decodeJSONRequest decode r =
     (if rq_method r \<noteq> ''POST'' then Return (Inl [WriteHeader 405])
      else
        let ct = Header_Get (rq_header r) HeaderContentType
        in if ct = [] \<or> \<not> strings_HasPrefix (strings_ToLower ct) ContentTypeJSON
           then Return (Inl [WriteHeader 400])
           else case rq_body r of
               None \<Rightarrow> Panic nil_pointer
             | Some b \<Rightarrow>
                 (case Option.bind (body_Decode b) decode of
                    None \<Rightarrow> Return (Inl [WriteHeader 400])
                  | Some x \<Rightarrow> Return (Inr x)))"

definition validateMetric :: "Metrics \<Rightarrow> int" where
  "validateMetric metric =
     (if ID metric = [] then 404
      else if MType metric = Gauge then (if Value metric = None then 400 else 200)
      else if MType metric = Counter then (if Delta metric = None then 400 else 200)
      else 400)"

text \<open>\<^verbatim>\<open>json.Encoder.Encode\<close> writes nothing when the metric cannot be encoded; the error is dropped.\<close>

definition writeMetricJSON :: "int \<Rightarrow> Metrics \<Rightarrow> rw_op list" where
  "writeMetricJSON status metric =
     [SetHeader HeaderContentType ContentTypeJSON, WriteHeader status] @
     (case metrics_Marshal metric of Inl _ \<Rightarrow> [] | Inr bs \<Rightarrow> [WriteBody (bs @ [CHR 0x0A])])"

subsection \<open>Updates\<close>

definition Update :: "'w Handler \<Rightarrow> 'w http_handler" where
  "Update h r w =
     (if rq_method r \<noteq> ''POST'' then (Return [WriteHeader 405], w)
      else
        let ct = Header_Get (rq_header r) HeaderContentType
        in if ct \<noteq> [] \<and> \<not> strings_HasPrefix (strings_ToLower ct) ContentTypeTextPlain
           then (Return [WriteHeader 400], w)
           else
             let metricType = rq_params r ''type''; metricName = rq_params r ''name'';
                 metricValue = rq_params r ''value'';
                 success = (\<lambda>w'. (Return [SetHeader HeaderContentType ContentTypeTextPlainUTF8, WriteHeader 200],
                    notifyAuditMetric h r metricName w'))
             in if metricName = [] then (Return [WriteHeader 404], w)
                else if metricType = Gauge then
                  (case ParseFloat metricValue of
                     Inl _ \<Rightarrow> (Return [WriteHeader 400], w)
                   | Inr value \<Rightarrow>
                       (case UpdateGauge (service h) metricName value w of
                          (Some _, w') \<Rightarrow> (Return [WriteHeader 500], w')
                        | (None, w') \<Rightarrow> success w'))
                else if metricType = Counter then
                  (case ParseInt metricValue of
                     Inl _ \<Rightarrow> (Return [WriteHeader 400], w)
                   | Inr delta \<Rightarrow>
                       (case UpdateCounter (service h) metricName delta w of
                          (Inl _, w') \<Rightarrow> (Return [WriteHeader 500], w')
                        | (Inr _, w') \<Rightarrow> success w'))
                else (Return [WriteHeader 400], w))"

definition UpdateJSON :: "'w Handler \<Rightarrow> 'w http_handler" where
  "UpdateJSON h r w =
     (case decodeJSONRequest metrics_of_json r of
        Panic p \<Rightarrow> (Panic p, w)
      | Return (Inl ops) \<Rightarrow> (Return ops, w)
      | Return (Inr metric) \<Rightarrow>
          if validateMetric metric \<noteq> 200 then (Return [WriteHeader (validateMetric metric)], w)
          else if MType metric = Gauge then
            (case Value metric of
               None \<Rightarrow> (Panic nil_pointer, w)
             | Some v \<Rightarrow>
                 (case UpdateGauge (service h) (ID metric) v w of
                    (Some _, w') \<Rightarrow> (Return [WriteHeader 500], w')
                  | (None, w') \<Rightarrow>
                      (Return (writeMetricJSON 200 (gauge_metric (ID metric) v)),
                       notifyAuditMetric h r (ID metric) w')))
          else if MType metric = Counter then
            (case Delta metric of
               None \<Rightarrow> (Panic nil_pointer, w)
             | Some d \<Rightarrow>
                 (case UpdateCounter (service h) (ID metric) d w of
                    (Inl _, w') \<Rightarrow> (Return [WriteHeader 500], w')
                  | (Inr t, w') \<Rightarrow>
                      (Return (writeMetricJSON 200 (counter_metric (ID metric) t)),
                       notifyAuditMetric h r (ID metric) w')))
          else (Return [WriteHeader 400], w))"

text \<open>The validation loop of a batch: the status of the first metric that is not valid.\<close>

fun validate_all :: "Metrics list \<Rightarrow> int" where
  "validate_all [] = 200"
| "validate_all (metric # metrics) =
     (if validateMetric metric \<noteq> 200 then validateMetric metric else validate_all metrics)"

definition UpdatesJSON :: "'w Handler \<Rightarrow> 'w http_handler" where
  "UpdatesJSON h r w =
     (case decodeJSONRequest metrics_list_of_json r of
        Panic p \<Rightarrow> (Panic p, w)
      | Return (Inl ops) \<Rightarrow> (Return ops, w)
      | Return (Inr metrics) \<Rightarrow>
          if validate_all metrics \<noteq> 200 then (Return [WriteHeader (validate_all metrics)], w)
          else
            (case UpdateMetrics (service h) metrics w of
               (Panic p, w') \<Rightarrow> (Panic p, w')
             | (Return (Some _), w') \<Rightarrow> (Return [WriteHeader 500], w')
             | (Return None, w') \<Rightarrow> (Return [WriteHeader 200], notifyAuditMetrics h r metrics w')))"

subsection \<open>Reads\<close>

definition Value_text :: "string \<Rightarrow> rw_op list" where
  "Value_text out =
     [SetHeader HeaderContentType ContentTypeTextPlainUTF8, WriteHeader 200, WriteBody out]"

definition Handler_Value :: "'w Handler \<Rightarrow> 'w http_handler" where
  "Handler_Value h r w =
     (let metricType = rq_params r ''type''; metricName = rq_params r ''name''
      in if (metricType \<noteq> Gauge \<and> metricType \<noteq> Counter) \<or> metricName = []
         then (Return [WriteHeader 404], w)
         else if metricType = Gauge then
           (case GetGauge (service h) metricName w of
              (Inl _, w') \<Rightarrow> (Return [WriteHeader 404], w')
            | (Inr v, w') \<Rightarrow> (Return (Value_text (FormatFloat v)), w'))
         else
           (case GetCounter (service h) metricName w of
              (Inl _, w') \<Rightarrow> (Return [WriteHeader 404], w')
            | (Inr t, w') \<Rightarrow> (Return (Value_text (FormatInt t)), w')))"

definition ValueJSON :: "'w Handler \<Rightarrow> 'w http_handler" where
  "ValueJSON h r w =
     (case decodeJSONRequest metrics_of_json r of
        Panic p \<Rightarrow> (Panic p, w)
      | Return (Inl ops) \<Rightarrow> (Return ops, w)
      | Return (Inr metric) \<Rightarrow>
          if ID metric = [] then (Return [WriteHeader 404], w)
          else if MType metric = Gauge then
            (case GetGauge (service h) (ID metric) w of
               (Inl _, w') \<Rightarrow>
                 (Return (writeMetricJSON 404 (zero_Metrics\<lparr>ID := ID metric, MType := Gauge\<rparr>)), w')
             | (Inr v, w') \<Rightarrow> (Return (writeMetricJSON 200 (gauge_metric (ID metric) v)), w'))
          else if MType metric = Counter then
            (case GetCounter (service h) (ID metric) w of
               (Inl _, w') \<Rightarrow>
                 (Return (writeMetricJSON 404 (zero_Metrics\<lparr>ID := ID metric, MType := Counter\<rparr>)), w')
             | (Inr t, w') \<Rightarrow> (Return (writeMetricJSON 200 (counter_metric (ID metric) t)), w'))
          else (Return [WriteHeader 404], w))"

fun html_EscapeString :: "string \<Rightarrow> string" where
  "html_EscapeString [] = []"
| "html_EscapeString (c # cs) =
     (if c = CHR ''&'' then ''&amp;'' else if c = CHR 0x27 then ''&#39;''
      else if c = CHR ''<'' then ''&lt;'' else if c = CHR ''>'' then ''&gt;''
      else if c = CHR 0x22 then ''&#34;'' else [c]) @ html_EscapeString cs"

definition index_item :: "string \<Rightarrow> string \<Rightarrow> string" where
  "index_item name value =
     ''<li>'' @ html_EscapeString name @ '': <strong>'' @ value @ ''</strong></li>''"

definition index_page :: "(string \<times> float64) list \<Rightarrow> (string \<times> int64) list \<Rightarrow> string" where
  "index_page gs cs =
     ''<!doctype html><html><head><meta charset='' @ [CHR 0x22] @ ''utf-8'' @ [CHR 0x22] @ ''>'' @
     ''<title>storage values</title></head><body><ul>'' @
     concat (map (\<lambda>(n, v). index_item n (FormatFloat v)) gs) @
     concat (map (\<lambda>(n, v). index_item n (FormatInt v)) cs) @
     ''</ul></body></html>''"

definition Index :: "float64 range_order \<Rightarrow> int64 range_order \<Rightarrow> 'w Handler \<Rightarrow> 'w http_handler" where
  "Index og oc h r w =
     (case Snapshot (service h) w of
        (Inl _, w') \<Rightarrow> (Return [WriteHeader 500], w')
      | (Inr (g, c), w') \<Rightarrow>
          (Return [SetHeader HeaderContentType ContentTypeHTMLUTF8, WriteHeader 200,
             WriteBody (index_page (og g) (oc c))], w'))"

definition Ping :: "'w Handler \<Rightarrow> 'w http_handler" where
  "Ping h r w =
     (case db h of
        None \<Rightarrow> (Return [WriteHeader 500], w)
      | Some ping \<Rightarrow>
          (case ping w of
             (Some _, w') \<Rightarrow> (Return [WriteHeader 500], w')
           | (None, w') \<Rightarrow> (Return [WriteHeader 200], w')))"

subsection \<open>Validation\<close>

lemma validateMetric_ok:
  "validateMetric m = 200 \<longleftrightarrow> ID m \<noteq> [] \<and> complete_metric m"
  by (auto simp: validateMetric_def complete_metric_def)

lemma validateMetric_range: "validateMetric m \<in> {200, 400, 404}"
  by (simp add: validateMetric_def)

lemma validate_all_ok: "validate_all ms = 200 \<longleftrightarrow> (\<forall>m \<in> set ms. ID m \<noteq> [] \<and> complete_metric m)"
  by (induction ms) (auto simp: validateMetric_ok)

lemma validate_all_range: "validate_all ms \<in> {200, 400, 404}"
proof (induction ms)
  case (Cons m ms)
  then show ?case using validateMetric_range [of m] by auto
qed simp

lemma decodeJSONRequest_cases:
  assumes "rq_body r \<noteq> None"
  obtains (bad) c where "decodeJSONRequest decode r = Return (Inl [WriteHeader c])" "c = 400 \<or> c = 405"
  | (ok) b x where "rq_body r = Some b" "Option.bind (body_Decode b) decode = Some x"
      "decodeJSONRequest decode r = Return (Inr x)"
proof -
  obtain b where b: "rq_body r = Some b" using assms by blast
  let ?ct = "Header_Get (rq_header r) HeaderContentType"
  consider "rq_method r \<noteq> ''POST''"
    | "rq_method r = ''POST''" "?ct = [] \<or> \<not> strings_HasPrefix (strings_ToLower ?ct) ContentTypeJSON"
    | "rq_method r = ''POST''" "\<not> (?ct = [] \<or> \<not> strings_HasPrefix (strings_ToLower ?ct) ContentTypeJSON)"
    by blast
  then show ?thesis
  proof cases
    case 3
    then show ?thesis
      using b bad [of 400] ok [OF b]
      by (cases "Option.bind (body_Decode b) decode") (simp_all add: decodeJSONRequest_def Let_def)
  qed (use bad [of 405] bad [of 400] in \<open>simp_all add: decodeJSONRequest_def Let_def\<close>)
qed

subsection \<open>Handlers over a storage that keeps its contract\<close>

locale http_server = reliable_storage "service h" view invar
  for h :: "'w Handler" and view :: "'w \<Rightarrow> metrics_view" and invar :: "'w \<Rightarrow> bool" +
  assumes audit_keeps:
      "auditor h = Some a \<Longrightarrow> invar w \<Longrightarrow> Auditor_Notify a ctx ev w = (e, w') \<Longrightarrow> invar w' \<and> view w' = view w"
    and log_keeps: "hlog h = Some l \<Longrightarrow> invar w \<Longrightarrow> invar (l entry w) \<and> view (l entry w) = view w"
begin

lemma notifyAudit_keeps: "invar w \<Longrightarrow> invar (notifyAudit h r ns w) \<and> view (notifyAudit h r ns w) = view w"
  using audit_keeps log_keeps
  by (auto simp: notifyAudit_def split: option.splits prod.splits if_splits)

lemma notifyAuditMetric_keeps:
  "invar w \<Longrightarrow> invar (notifyAuditMetric h r n w) \<and> view (notifyAuditMetric h r n w) = view w"
  "invar w \<Longrightarrow> invar (notifyAuditMetrics h r ms w) \<and> view (notifyAuditMetrics h r ms w) = view w"
  using notifyAudit_keeps by (simp_all add: notifyAuditMetric_def notifyAuditMetrics_def)

text \<open>A batch: the whole of it and 200, or an error status and no change.\<close>

lemma UpdatesJSON_stored:
  assumes "invar w" and "decodeJSONRequest metrics_list_of_json r = Return (Inr ms)" and "validate_all ms = 200"
  obtains w1 where "UpdatesJSON h r w = (Return [WriteHeader 200], notifyAuditMetrics h r ms w1)"
    "invar w1" "view w1 = view_metrics ms (view w)"
proof -
  have "list_all complete_metric ms" using assms(3) by (simp add: validate_all_ok list_all_iff)
  then obtain w1 where "UpdateMetrics (service h) ms w = (Return None, w1)" "invar w1"
    "view w1 = view_metrics ms (view w)"
    by (rule UpdateMetrics_eq [OF assms(1)])
  then show ?thesis using that assms(2,3) by (simp add: UpdatesJSON_def)
qed

lemma UpdatesJSON_atomic:
  assumes "invar w" and "rq_body r = Some b"
  shows "\<exists>c w'. UpdatesJSON h r w = (Return [WriteHeader c], w') \<and> invar w' \<and>
    (c = 200 \<and> (\<exists>ms. Option.bind (body_Decode b) metrics_list_of_json = Some ms \<and>
        (\<forall>m \<in> set ms. ID m \<noteq> [] \<and> complete_metric m) \<and> view w' = view_metrics ms (view w)) \<or>
     c \<in> {400, 404, 405} \<and> w' = w)"
proof -
  have "rq_body r \<noteq> None" using assms(2) by simp
  then show ?thesis
  proof (cases rule: decodeJSONRequest_cases [where decode = metrics_list_of_json])
    case (bad c)
    then show ?thesis using assms(1) by (auto simp: UpdatesJSON_def)
  next
    case (ok b' ms)
    show ?thesis
    proof (cases "validate_all ms = 200")
      case True
      obtain w1 where w1: "UpdatesJSON h r w = (Return [WriteHeader 200], notifyAuditMetrics h r ms w1)"
        "invar w1" "view w1 = view_metrics ms (view w)"
        by (rule UpdatesJSON_stored [OF assms(1) ok(3) True])
      then show ?thesis
        using ok assms(2) True notifyAuditMetric_keeps(2) [OF w1(2), of r ms] by (simp add: validate_all_ok)
    next
      case False
      then show ?thesis using ok assms(1) validate_all_range [of ms] by (auto simp: UpdatesJSON_def)
    qed
  qed
qed

lemma UpdateJSON_counter:
  assumes "invar w" and "decodeJSONRequest metrics_of_json r = Return (Inr m)"
    and "ID m \<noteq> []" and "MType m = Counter" and "Delta m = Some d"
  obtains w' where "UpdateJSON h r w =
      (Return (writeMetricJSON 200 (counter_metric (ID m) (counter_total (vcounters (view w)) (ID m) + d))), w')"
    "invar w'" "view w' = view_counter (ID m) d (view w)"
proof -
  obtain w1 where w1: "UpdateCounter (service h) (ID m) d w = (Inr (counter_total (vcounters (view w)) (ID m) + d), w1)"
    "invar w1" "view w1 = view_counter (ID m) d (view w)"
    by (rule UpdateCounter_eq [OF assms(1)])
  then show ?thesis
    using that [of "notifyAuditMetric h r (ID m) w1"] assms(2-5) notifyAuditMetric_keeps(1) [OF w1(2)]
    by (simp add: UpdateJSON_def validateMetric_def)
qed

lemma UpdateJSON_gauge:
  assumes "invar w" and "decodeJSONRequest metrics_of_json r = Return (Inr m)"
    and "ID m \<noteq> []" and "MType m = Gauge" and "Value m = Some v"
  obtains w' where "UpdateJSON h r w = (Return (writeMetricJSON 200 (gauge_metric (ID m) v)), w')"
    "invar w'" "view w' = view_gauge (ID m) v (view w)"
proof -
  obtain w1 where w1: "UpdateGauge (service h) (ID m) v w = (None, w1)"
    "invar w1" "view w1 = view_gauge (ID m) v (view w)"
    by (rule UpdateGauge_eq [OF assms(1)])
  then show ?thesis
    using that [of "notifyAuditMetric h r (ID m) w1"] assms(2-5) notifyAuditMetric_keeps(1) [OF w1(2)]
    by (simp add: UpdateJSON_def validateMetric_def)
qed

text \<open>The text endpoints.\<close>

lemma Update_gauge:
  assumes "invar w" and "rq_method r = ''POST''"
    and "Header_Get (rq_header r) HeaderContentType = [] \<or>
         strings_HasPrefix (strings_ToLower (Header_Get (rq_header r) HeaderContentType)) ContentTypeTextPlain"
    and "rq_params r ''type'' = Gauge" and "rq_params r ''name'' = n" and "n \<noteq> []"
    and "ParseFloat (rq_params r ''value'') = Inr v"
  obtains w' where
    "Update h r w = (Return [SetHeader HeaderContentType ContentTypeTextPlainUTF8, WriteHeader 200], w')"
    "invar w'" "view w' = view_gauge n v (view w)"
proof -
  obtain w1 where w1: "UpdateGauge (service h) n v w = (None, w1)" "invar w1" "view w1 = view_gauge n v (view w)"
    by (rule UpdateGauge_eq [OF assms(1)])
  then show ?thesis
    using that [of "notifyAuditMetric h r n w1"] assms(2-7) notifyAuditMetric_keeps(1) [OF w1(2), of r n]
    by (auto simp: Update_def Let_def)
qed

lemma Update_counter:
  assumes "invar w" and "rq_method r = ''POST''"
    and "Header_Get (rq_header r) HeaderContentType = [] \<or>
         strings_HasPrefix (strings_ToLower (Header_Get (rq_header r) HeaderContentType)) ContentTypeTextPlain"
    and "rq_params r ''type'' = Counter" and "rq_params r ''name'' = n" and "n \<noteq> []"
    and "ParseInt (rq_params r ''value'') = Inr d"
  obtains w' where
    "Update h r w = (Return [SetHeader HeaderContentType ContentTypeTextPlainUTF8, WriteHeader 200], w')"
    "invar w'" "view w' = view_counter n d (view w)"
proof -
  obtain w1 where w1: "UpdateCounter (service h) n d w = (Inr (counter_total (vcounters (view w)) n + d), w1)"
    "invar w1" "view w1 = view_counter n d (view w)"
    by (rule UpdateCounter_eq [OF assms(1)])
  then show ?thesis
    using that [of "notifyAuditMetric h r n w1"] assms(2-7) notifyAuditMetric_keeps(1) [OF w1(2), of r n]
    by (auto simp: Update_def Let_def)
qed

lemma Value_gauge:
  assumes "invar w" and "rq_params r ''type'' = Gauge" and "rq_params r ''name'' = n" and "n \<noteq> []"
    and "vgauges (view w) n = Some v"
  obtains w' where "Handler_Value h r w = (Return (Value_text (FormatFloat v)), w')" "invar w'" "view w' = view w"
proof -
  obtain w' where "GetGauge (service h) n w = (Inr v, w')" "invar w'" "view w' = view w"
    using assms(5) by (rule_tac GetGauge_eq [OF assms(1), of n]) auto
  then show ?thesis using that assms(2-4) by (simp add: Handler_Value_def)
qed

lemma Value_counter:
  assumes "invar w" and "rq_params r ''type'' = Counter" and "rq_params r ''name'' = n" and "n \<noteq> []"
    and "vcounters (view w) n = Some t"
  obtains w' where "Handler_Value h r w = (Return (Value_text (FormatInt t)), w')" "invar w'" "view w' = view w"
proof -
  obtain w' where "GetCounter (service h) n w = (Inr t, w')" "invar w'" "view w' = view w"
    using assms(5) by (rule_tac GetCounter_eq [OF assms(1), of n]) auto
  then show ?thesis using that assms(2-4) by (simp add: Handler_Value_def)
qed

end

subsection \<open>The handlers over the in-memory storage\<close>

text \<open>
  The world of a server without a database: the storage beside whatever the audit observers and the
  logger act on.
\<close>

definition lift_observer :: "'a Observer \<Rightarrow> ('s \<times> 'a) Observer" where
  "lift_observer ob ctx ev w = (case ob ctx ev (snd w) of (r, x) \<Rightarrow> (r, fst w, x))"

definition lift_auditor :: "'a Auditor \<Rightarrow> ('s \<times> 'a) Auditor" where
  "lift_auditor a = \<lparr>observers = map lift_observer (observers a)\<rparr>"

definition lift_logger :: "'a logger \<Rightarrow> ('s \<times> 'a) logger" where
  "lift_logger l e w = (fst w, l e (snd w))"

definition mem_handler :: "'a Auditor \<Rightarrow> 'a logger \<Rightarrow> (MemStorage \<times> 'a) Handler" where
  "mem_handler a l =
     EnableAudit (Handler_New (metrics_service (NewMetricsService (lift_storage mem_storage))) None)
       (lift_auditor a) (lift_logger l)"

lemma notify_all_lift:
  "notify_all (map lift_observer obs) ctx ev errs w =
     (case notify_all obs ctx ev errs (snd w) of (es, x) \<Rightarrow> (es, fst w, x))"
  by (induction obs arbitrary: errs w) (auto simp: lift_observer_def split: prod.splits option.splits)

lemma Auditor_Notify_lift:
  "Auditor_Notify (lift_auditor a) ctx ev w =
     (case Auditor_Notify a ctx ev (snd w) of (e, x) \<Rightarrow> (e, fst w, x))"
  by (simp add: Auditor_Notify_def lift_auditor_def notify_all_lift split: prod.splits)

lemma mem_handler_sel [simp]:
  "service (mem_handler a l) = metrics_service (NewMetricsService (lift_storage mem_storage))"
  "auditor (mem_handler a l) = Some (lift_auditor a)" "hlog (mem_handler a l) = Some (lift_logger l)"
  "db (mem_handler a l) = None"
  by (simp_all add: mem_handler_def EnableAudit_def Handler_New_def)

interpretation mem_lifted_svc: plain_service
  "NewMetricsService (lift_storage mem_storage) :: (MemStorage \<times> 'a) MetricsService"
  "\<lambda>w. mem_view (fst w)" "\<lambda>w. mem_invar (fst w)"
  by (intro plain_service.intro plain_service_axioms.intro) (simp_all add: mem_lifted.reliable_storage_axioms)

interpretation mem_http: http_server "mem_handler a l" "\<lambda>w. mem_view (fst w)" "\<lambda>w. mem_invar (fst w)"
  for a l
proof (intro http_server.intro http_server_axioms.intro)
  show "reliable_storage (service (mem_handler a l)) (\<lambda>w. mem_view (fst w)) (\<lambda>w. mem_invar (fst w))"
    using mem_lifted_svc.rsvc.reliable_storage_axioms by simp
qed (auto simp: Auditor_Notify_lift lift_logger_def split: prod.splits)

lemma notifyAuditMetrics_fst:
  "fst (notifyAuditMetrics (mem_handler a l) r ms w) = fst w"
  "fst (notifyAuditMetric (mem_handler a l) r n w) = fst w"
  by (auto simp: notifyAuditMetrics_def notifyAuditMetric_def notifyAudit_def Auditor_Notify_lift lift_logger_def
      split: prod.splits option.splits)

subsection \<open>Properties\<close>


text \<open>
  An accepted JSON update of a counter answers 200 with a JSON body that decodes to the metric
  with its new total, which is the old total plus the delta and is what the storage now holds.
\<close>

theorem http_counter_response:
  assumes "mem_invar (fst w)" and "decodeJSONRequest metrics_of_json r = Return (Inr m)"
    and "ID m \<noteq> []" and "MType m = Counter" and "Delta m = Some d"
    and "t = counter_total (counters (fst w)) (ID m) + d"
  shows "\<exists>rs w'. respond (UpdateJSON (mem_handler a l)) r w = (Return rs, w') \<and>
    rs_status rs = 200 \<and>
    Option.bind (json_Decode (rs_body rs)) metrics_of_json = Some (counter_metric (to_valid_utf8 (ID m)) t) \<and>
    counters (fst w') = (counters (fst w))(ID m \<mapsto> t) \<and> gauges (fst w') = gauges (fst w)"
proof -
  obtain w' where w': "UpdateJSON (mem_handler a l) r w =
      (Return (writeMetricJSON 200 (counter_metric (ID m) t)), w')"
    "mem_view (fst w') = view_counter (ID m) d (mem_view (fst w))"
    by (rule mem_http.UpdateJSON_counter [OF assms(1-5), of a l]) (simp add: assms(6) del: split_paired_All)
  obtain bs where bs: "metrics_Marshal (counter_metric (ID m) t) = Inr bs"
    by (rule metrics_Marshal_cases [of "counter_metric (ID m) t"]) auto
  have "Option.bind (json_Decode (bs @ [CHR 0x0A])) metrics_of_json =
      Some (counter_metric (to_valid_utf8 (ID m)) t)"
    using metrics_Marshal_decode [OF bs, of "[CHR 0x0A]"] by simp
  moreover have "counters (fst w') = (counters (fst w))(ID m \<mapsto> t)" "gauges (fst w') = gauges (fst w)"
    using arg_cong [OF w'(2), of vcounters] arg_cong [OF w'(2), of vgauges] assms(6) by simp_all
  ultimately show ?thesis using w'(1) bs by (simp add: respond_def writeMetricJSON_def)
qed

definition url_request :: "string \<Rightarrow> string \<Rightarrow> string \<Rightarrow> string \<Rightarrow> http_request" where
  "url_request meth ty name val =
     \<lparr>rq_method = meth, rq_uri = [], rq_header = Map.empty, rq_body = Some ([], None), rq_remote = ''10.0.0.1:5000'',
      rq_params = (\<lambda>k. if k = ''type'' then ty else if k = ''name'' then name else val), rq_ctx = None, rq_now = 0\<rparr>"

lemma url_request_sel [simp]:
  "rq_method (url_request m t n v) = m" "rq_params (url_request m t n v) ''type'' = t"
  "rq_params (url_request m t n v) ''name'' = n" "rq_params (url_request m t n v) ''value'' = v"
  "Header_Get (rq_header (url_request m t n v)) k = []" "rq_body (url_request m t n v) = Some ([], None)"
  by (simp_all add: url_request_def Header_Get_def)

text \<open>
  C30: The text endpoints round trip: after \<^verbatim>\<open>POST /update/gauge/<name>/<text>\<close> with a text that
  \<^verbatim>\<open>strconv\<close> reads as a finite number, \<^verbatim>\<open>GET /value/gauge/<name>\<close> answers 200 with a text that reads
  as the same number, bit for bit; after \<^verbatim>\<open>POST /update/counter/<name>/<text>\<close> the counter endpoint
  answers with the decimal text of the old total plus the increment.
\<close>

theorem http_text_roundtrip:
  assumes "mem_invar (fst w)" and "name \<noteq> []"
    and "ParseFloat gtext = Inr v" and "is_finite v" and "ParseInt ctext = Inr d"
  shows "\<exists>rs1 w1 rs2 w2 rs3 w3 rs4 w4.
    respond (Update (mem_handler a l)) (url_request ''POST'' Gauge name gtext) w = (Return rs1, w1) \<and> rs_status rs1 = 200 \<and>
    respond (Handler_Value (mem_handler a l)) (url_request ''GET'' Gauge name []) w1 = (Return rs2, w2) \<and>
    rs_status rs2 = 200 \<and> ParseFloat (rs_body rs2) = Inr v \<and>
    respond (Update (mem_handler a l)) (url_request ''POST'' Counter name ctext) w2 = (Return rs3, w3) \<and> rs_status rs3 = 200 \<and>
    respond (Handler_Value (mem_handler a l)) (url_request ''GET'' Counter name []) w3 = (Return rs4, w4) \<and>
    rs_status rs4 = 200 \<and> ParseInt (rs_body rs4) = Inr (counter_total (counters (fst w)) name + d)"
proof -
  obtain w1 where w1: "Update (mem_handler a l) (url_request ''POST'' Gauge name gtext) w =
      (Return [SetHeader HeaderContentType ContentTypeTextPlainUTF8, WriteHeader 200], w1)"
    "mem_invar (fst w1)" "mem_view (fst w1) = view_gauge name v (mem_view (fst w))"
    using assms(2,3) by (auto intro: mem_http.Update_gauge [OF assms(1), of "url_request ''POST'' Gauge name gtext" name v a l])
  obtain w2 where w2: "Handler_Value (mem_handler a l) (url_request ''GET'' Gauge name []) w1 =
      (Return (Value_text (FormatFloat v)), w2)" "mem_invar (fst w2)" "mem_view (fst w2) = mem_view (fst w1)"
    using assms(2) w1(3) arg_cong [OF w1(3), of vgauges]
    by (auto intro: mem_http.Value_gauge [OF w1(2), of "url_request ''GET'' Gauge name []" name v a l])
  obtain w3 where w3: "Update (mem_handler a l) (url_request ''POST'' Counter name ctext) w2 =
      (Return [SetHeader HeaderContentType ContentTypeTextPlainUTF8, WriteHeader 200], w3)"
    "mem_invar (fst w3)" "mem_view (fst w3) = view_counter name d (mem_view (fst w2))"
    using assms(2,5) by (auto intro: mem_http.Update_counter [OF w2(2), of "url_request ''POST'' Counter name ctext" name d a l])
  have t: "counters (fst w3) name = Some (counter_total (counters (fst w)) name + d)"
    using arg_cong [OF w3(3), of vcounters] arg_cong [OF w2(3), of vcounters] arg_cong [OF w1(3), of vcounters] by simp
  obtain w4 where "Handler_Value (mem_handler a l) (url_request ''GET'' Counter name []) w3 =
      (Return (Value_text (FormatInt (counter_total (counters (fst w)) name + d))), w4)"
    using assms(2) t by (auto intro: mem_http.Value_counter [OF w3(2), of "url_request ''GET'' Counter name []" name _ a l])
  then show ?thesis
    using w1(1) w2(1) w3(1) ParseFloat_FormatFloat [OF assms(4)]
    by (simp add: respond_def Value_text_def del: split_paired_Ex)
qed

text \<open>
  The text endpoint rejects what it cannot store and then changes nothing: 405 for another
  method, 400 for another content type, 404 without a name, 400 for an unknown type or a value
  \<^verbatim>\<open>strconv\<close> does not read, checked in this order; every other request is stored.
\<close>

theorem http_update_rejects:
  assumes "rq_method r \<noteq> ''POST'' \<and> c = 405 \<or>
    rq_method r = ''POST'' \<and> Header_Get (rq_header r) HeaderContentType \<noteq> [] \<and>
      \<not> strings_HasPrefix (strings_ToLower (Header_Get (rq_header r) HeaderContentType)) ContentTypeTextPlain \<and> c = 400 \<or>
    rq_method r = ''POST'' \<and> Header_Get (rq_header r) HeaderContentType = [] \<and> rq_params r ''name'' = [] \<and> c = 404 \<or>
    rq_method r = ''POST'' \<and> Header_Get (rq_header r) HeaderContentType = [] \<and> rq_params r ''name'' \<noteq> [] \<and> c = 400 \<and>
      (rq_params r ''type'' \<notin> {Gauge, Counter} \<or>
       rq_params r ''type'' = Gauge \<and> (\<exists>e. ParseFloat (rq_params r ''value'') = Inl e) \<or>
       rq_params r ''type'' = Counter \<and> (\<exists>e. ParseInt (rq_params r ''value'') = Inl e))"
  shows "Update h r w = (Return [WriteHeader c], w)"
  using assms by (auto simp: Update_def Let_def)

text \<open>Witnesses of the properties above: a fresh server and requests built from encoded metrics.\<close>

definition json_post :: "bytes \<Rightarrow> http_request" where
  "json_post bs =
     \<lparr>rq_method = ''POST'', rq_uri = ''/update'', rq_header = [''Content-Type'' \<mapsto> [''application/json'']],
      rq_body = Some (bs, None), rq_remote = ''10.0.0.1:5000'', rq_params = (\<lambda>_. []), rq_ctx = None, rq_now = 7\<rparr>"

lemma json_post_header [simp]:
  "Header_Get (rq_header (json_post bs)) HeaderContentType = ''application/json''"
  "rq_method (json_post bs) = ''POST''" "rq_body (json_post bs) = Some (bs, None)"
  by (simp_all add: json_post_def Header_Get_def)

lemma json_content_type: "strings_HasPrefix (strings_ToLower ''application/json'') ContentTypeJSON"
  by (simp add: ContentTypeJSON_def ascii_lower_def)

lemma decode_json_post:
  "decodeJSONRequest decode (json_post bs) =
     (case Option.bind (json_Decode bs) decode of None \<Rightarrow> Return (Inl [WriteHeader 400]) | Some x \<Rightarrow> Return (Inr x))"
  using json_content_type by (simp add: decodeJSONRequest_def Let_def del: strings_ToLower.simps)

lemma decode_json_post_metric:
  assumes "metrics_Marshal m = Inr bs"
  shows "decodeJSONRequest metrics_of_json (json_post bs) = Return (Inr (sanitize_metric m))"
  using metrics_Marshal_decode [OF assms, of "[]"] by (simp add: decode_json_post)

definition null_auditor :: "unit Auditor" where
  "null_auditor = NewAuditor"


theorem http_counter_response_witness:
  "\<exists>bs rs w'. metrics_Marshal (counter_metric ''c'' 2) = Inr bs \<and>
    respond (UpdateJSON (mem_handler null_auditor (\<lambda>_ x. x))) (json_post bs)
      (NewMemStorage\<lparr>counters := [''c'' \<mapsto> 40]\<rparr>, ()) = (Return rs, w') \<and>
    rs_status rs = 200 \<and> counters (fst w') ''c'' = Some 42 \<and>
    Option.bind (json_Decode (rs_body rs)) metrics_of_json = Some (counter_metric ''c'' 42)"
proof -
  obtain bs where bs: "metrics_Marshal (counter_metric ''c'' 2) = Inr bs"
    by (rule metrics_Marshal_cases [of "counter_metric ''c'' 2"]) auto
  have v: "to_valid_utf8 ''c'' = ''c''" by (simp add: to_valid_utf8_ascii)
  have d: "decodeJSONRequest metrics_of_json (json_post bs) = Return (Inr (counter_metric ''c'' 2))"
    using decode_json_post_metric [OF bs] v by simp
  let ?w = "(NewMemStorage\<lparr>counters := [''c'' \<mapsto> 40]\<rparr>, ())"
  have "mem_invar (fst ?w)" "ID (counter_metric ''c'' 2) \<noteq> []" "MType (counter_metric ''c'' 2) = Counter"
    "Delta (counter_metric ''c'' 2) = Some 2" "42 = counter_total (counters (fst ?w)) (ID (counter_metric ''c'' 2)) + 2"
    by (simp_all add: mem_invar_def counter_total_def)
  from http_counter_response [OF this(1) d this(2-5), of null_auditor "\<lambda>_ x. x"] show ?thesis
    using bs v by (auto simp del: split_paired_Ex)
qed

abbreviation demo_float :: float64 where
  "demo_float \<equiv> mk_float True 4611686018427387905"

lemma demo_float_finite: "is_finite demo_float"
  by (rule is_finite_mk_float) simp

theorem http_text_roundtrip_witness:
  "\<exists>rs1 w1 rs2 w2.
    respond (Update (mem_handler null_auditor (\<lambda>_ x. x))) (url_request ''POST'' Gauge ''g'' (FormatFloat demo_float))
      (NewMemStorage, ()) = (Return rs1, w1) \<and> rs_status rs1 = 200 \<and>
    respond (Handler_Value (mem_handler null_auditor (\<lambda>_ x. x))) (url_request ''GET'' Gauge ''g'' []) w1 = (Return rs2, w2) \<and>
    rs_status rs2 = 200 \<and> ParseFloat (rs_body rs2) = Inr demo_float"
proof -
  have "mem_invar (fst (NewMemStorage, ()))" "''g'' \<noteq> []" by simp_all
  from http_text_roundtrip [OF this ParseFloat_FormatFloat [OF demo_float_finite] demo_float_finite ParseInt_FormatInt [of "- 3"],
      of null_auditor "\<lambda>_ x. x"]
  show ?thesis by blast
qed

theorem http_update_rejects_witness:
  "Update (mem_handler null_auditor (\<lambda>_ x. x)) (url_request ''POST'' Gauge [] ''1'') (NewMemStorage, ()) =
     (Return [WriteHeader 404], NewMemStorage, ())"
  using http_update_rejects [of "url_request ''POST'' Gauge [] ''1''" 404] by simp

definition record_observer :: "Event list Observer" where
  "record_observer ctx ev evs = (None, evs @ [ev])"

lemma record_observer_notify:
  "Auditor_Notify \<lparr>observers = [record_observer]\<rparr> ctx ev evs = (None, evs @ [ev])"
  by (simp add: Auditor_Notify_def record_observer_def errors_Join_def)

text \<open>
  C21: The audit trail is exact: the batch endpoint hands the observers one event, with the names of
  all stored metrics in order, the client's address and the time, when it has stored a batch that is
  not empty, and nothing at all in every other case.
\<close>

theorem http_audit_exact:
  assumes "mem_invar (fst w)" and "rq_body r = Some b"
    and "UpdatesJSON (mem_handler \<lparr>observers = [record_observer]\<rparr> l) r w = (Return ops, w')"
  shows "snd w' = snd w @
    (case Option.bind (body_Decode b) metrics_list_of_json of
       Some ms \<Rightarrow>
         if rs_status (serve ops) = 200 \<and> ms \<noteq> []
         then [\<lparr>TS = rq_now r, EMetrics = map ID ms, IPAddress = clientIP r\<rparr>] else []
     | None \<Rightarrow> [])"
proof -
  have "rq_body r \<noteq> None" using assms(2) by simp
  then show ?thesis
  proof (cases rule: decodeJSONRequest_cases [where decode = metrics_list_of_json])
    case (bad c)
    then show ?thesis using assms(3) by (auto simp: UpdatesJSON_def split: option.splits)
  next
    case (ok b' ms)
    show ?thesis
    proof (cases "validate_all ms = 200")
      case True
      obtain m where m: "MemStorage_UpdateMetrics ms (fst w) = (Return None, m)"
        using True mem_UpdateMetrics_complete [of ms "fst w"] by (auto simp: validate_all_ok list_all_iff)
      have ids: "metricIDs ms = map ID ms" using True by (auto simp: metricIDs_def validate_all_ok filter_id_conv)
      show ?thesis
        using assms(2,3) ok True m ids
        by (auto simp: UpdatesJSON_def Service_UpdateMetrics_def saveIfSync_def lift_storage_sel
            notifyAuditMetrics_def notifyAudit_def Auditor_Notify_lift record_observer_notify)
    next
      case False
      then show ?thesis using assms(2,3) ok by (auto simp: UpdatesJSON_def)
    qed
  qed
qed

theorem http_audit_exact_witness:
  "\<exists>bs ops w'. metrics_list_Marshal [counter_metric ''c'' 2] = Inr bs \<and>
    UpdatesJSON (mem_handler \<lparr>observers = [record_observer]\<rparr> (\<lambda>_ x. x)) (json_post bs) (NewMemStorage, []) = (Return ops, w') \<and>
    rs_status (serve ops) = 200 \<and> snd w' = [\<lparr>TS = 7, EMetrics = [''c''], IPAddress = ''10.0.0.1''\<rparr>]"
proof -
  obtain bs where bs: "metrics_list_Marshal [counter_metric ''c'' 2] = Inr bs"
    using metrics_list_Marshal_error [of "[counter_metric ''c'' 2]"]
    by (cases "metrics_list_Marshal [counter_metric ''c'' 2]") auto
  have v: "to_valid_utf8 ''c'' = ''c''" by (simp add: to_valid_utf8_ascii)
  have d: "Option.bind (json_Decode bs) metrics_list_of_json = Some [counter_metric ''c'' 2]"
    using metrics_list_Marshal_decode(2) [OF bs, of "[]"] v by simp
  let ?h = "mem_handler \<lparr>observers = [record_observer]\<rparr> (\<lambda>_ x. x)"
  have dec: "decodeJSONRequest metrics_list_of_json (json_post bs) = Return (Inr [counter_metric ''c'' 2])"
    using d by (simp add: decode_json_post)
  have i: "mem_invar (fst (NewMemStorage, []))" by simp
  obtain w' where w': "UpdatesJSON ?h (json_post bs) (NewMemStorage, []) = (Return [WriteHeader 200], w')"
    by (rule mem_http.UpdatesJSON_stored [OF i dec, of "\<lparr>observers = [record_observer]\<rparr>" "\<lambda>_ x. x"])
      (auto simp: validateMetric_def)
  have ip: "clientIP (json_post bs) = ''10.0.0.1''" "rq_now (json_post bs) = 7" 
    by (simp_all add: clientIP_def json_post_def Header_Get_def SplitHostPort_def)
  from http_audit_exact [OF i json_post_header(3) w'] show ?thesis
    using bs w' d ip by (simp del: split_paired_Ex)
qed

text \<open>
  Reading changes nothing: the value endpoints and the index page leave storage, audit trail and
  log exactly as they were, whatever they are asked.
\<close>

theorem http_reads_keep_world:
  "snd (Handler_Value (mem_handler a l) r w) = w \<and> snd (ValueJSON (mem_handler a l) r w) = w \<and>
   snd (Index og oc (mem_handler a l) r w) = w"
  by (auto simp: Handler_Value_def ValueJSON_def Index_def Service_GetGauge_def Service_GetCounter_def
      Service_Snapshot_def lift_storage_sel Let_def split: outcome.splits sum.splits)

lemma html_EscapeString_safe:
  "set (html_EscapeString s) \<inter> {CHR ''<'', CHR ''>'', CHR 0x22, CHR 0x27} = {}"
  by (induction s) auto

text \<open>
  The index page lists every gauge and every counter once with its current value, and a metric
  name cannot inject markup: in the escaped name no quote and no angle bracket is left.
\<close>

theorem http_index_complete:
  assumes "mem_invar (fst w)" and "fair_order og" and "fair_order oc"
  shows "\<exists>gs cs rs. respond (Index og oc (mem_handler a l)) r w = (Return rs, w) \<and> rs_status rs = 200 \<and>
    enumerates gs (gauges (fst w)) \<and> enumerates cs (counters (fst w)) \<and> rs_body rs = index_page gs cs \<and>
    (\<forall>n. set (html_EscapeString n) \<inter> {CHR ''<'', CHR ''>'', CHR 0x22, CHR 0x27} = {})"
proof -
  have "enumerates (og (gauges (fst w))) (gauges (fst w))" "enumerates (oc (counters (fst w))) (counters (fst w))"
    using assms by (auto simp: fair_order_def mem_invar_def)
  then show ?thesis
    using html_EscapeString_safe
    by (auto simp: respond_def Index_def Service_Snapshot_def lift_storage_sel)
qed

theorem http_index_complete_witness:
  "mem_invar (fst (demo_storage, ())) \<and>
   (\<exists>gs cs rs. respond (Index sorted_range sorted_range (mem_handler null_auditor (\<lambda>_ x. x))) (url_request ''GET'' [] [] [])
       (demo_storage, ()) = (Return rs, (demo_storage, ())) \<and> rs_status rs = 200 \<and>
     enumerates gs (gauges demo_storage) \<and> enumerates cs (counters demo_storage) \<and> rs_body rs = index_page gs cs)"
proof -
  have "mem_invar (fst (demo_storage, ()))" by (simp add: demo_storage_def mem_invar_def)
  from http_index_complete [OF this sorted_range_fair sorted_range_fair] this show ?thesis by fastforce
qed

end
