(* ===== verification/Encryption.thy ===== *)
theory Encryption
  imports HttpHandler
begin

text \<open>
  The hybrid encryption of request bodies (\<^verbatim>\<open>src/internal/encryption/\<close>): AES-GCM for the data,
  RSA-OAEP for the AES key, both packed as base64 strings into a JSON envelope; and the loading of
  the RSA keys from PEM files. The ciphers, PEM and X.509 are parameters (a record of functions);
  what the round trip needs of the ciphers is stated by \<open>gcm_correct\<close> and \<open>oaep_correct\<close>. Base64
  and the JSON envelope are modelled in full.
\<close>

subsection \<open>Base64\<close>

definition b64_char :: "nat \<Rightarrow> char" where
  "b64_char n =
     (if n < 26 then char_of (65 + n) else if n < 52 then char_of (71 + n)
      else if n < 62 then char_of (n - 4) else if n = 62 then CHR ''+'' else CHR ''/'')"

definition b64_value :: "char \<Rightarrow> nat option" where
  "b64_value c =
     (let k = char_code c
      in if 65 \<le> k \<and> k \<le> 90 then Some (k - 65)
         else if 97 \<le> k \<and> k \<le> 122 then Some (k - 71)
         else if 48 \<le> k \<and> k \<le> 57 then Some (k + 4)
         else if c = CHR ''+'' then Some 62 else if c = CHR ''/'' then Some 63 else None)"

fun base64_encode :: "bytes \<Rightarrow> string" where
  "base64_encode [] = []"
| "base64_encode [a] =
     [b64_char (char_code a div 4), b64_char (char_code a mod 4 * 16), CHR ''='', CHR ''='']"
| "base64_encode [a, b] =
     [b64_char (char_code a div 4), b64_char (char_code a mod 4 * 16 + char_code b div 16),
      b64_char (char_code b mod 16 * 4), CHR ''='']"
| "base64_encode (a # b # c # r) =
     [b64_char (char_code a div 4), b64_char (char_code a mod 4 * 16 + char_code b div 16),
      b64_char (char_code b mod 16 * 4 + char_code c div 64), b64_char (char_code c mod 64)] @ base64_encode r"

text \<open>Decoding ignores line breaks, needs the padding, and does not look at the unused bits.\<close>

fun b64_groups :: "string \<Rightarrow> bytes option" where
  "b64_groups [] = Some []"
| "b64_groups (a # b # c # d # r) =
     (case (b64_value a, b64_value b) of
        (Some x, Some y) \<Rightarrow>
          if c = CHR ''='' \<and> d = CHR ''='' then
            (if r = [] then Some [char_of (x * 4 + y div 16)] else None)
          else (case b64_value c of
              None \<Rightarrow> None
            | Some z \<Rightarrow>
                if d = CHR ''='' then
                  (if r = [] then Some [char_of (x * 4 + y div 16), char_of (y mod 16 * 16 + z div 4)] else None)
                else (case b64_value d of
                    None \<Rightarrow> None
                  | Some u \<Rightarrow>
                      map_option (\<lambda>bs. [char_of (x * 4 + y div 16), char_of (y mod 16 * 16 + z div 4),
                        char_of (z mod 4 * 64 + u)] @ bs) (b64_groups r)))
      | _ \<Rightarrow> None)"
| "b64_groups _ = None"

definition base64_decode :: "string \<Rightarrow> bytes option" where
  "base64_decode s = b64_groups (filter (\<lambda>c. c \<noteq> CHR 0x0A \<and> c \<noteq> CHR 0x0D) s)"

subsection \<open>The envelope\<close>

record envelope =
  Key :: bytes
  Nonce :: bytes
  Data :: bytes

definition envelope_json :: "envelope \<Rightarrow> json" where
  "envelope_json env =
     JObj [(''key'', JStr (base64_encode (Key env))), (''nonce'', JStr (base64_encode (Nonce env))),
           (''data'', JStr (base64_encode (Data env)))]"

fun decode_uint8 :: "json \<Rightarrow> char option" where
  "decode_uint8 JNull = Some (CHR 0x00)"
| "decode_uint8 (JNum s) =
     (case ParseUint s of Inl _ \<Rightarrow> None | Inr n \<Rightarrow> if n < 256 then Some (char_of n) else None)"
| "decode_uint8 _ = None"

fun decode_bytes :: "json \<Rightarrow> bytes option" where
  "decode_bytes JNull = Some []"
| "decode_bytes (JStr s) = base64_decode s"
| "decode_bytes (JArr js) = those (map decode_uint8 js)"
| "decode_bytes _ = None"

fun envelope_members :: "envelope \<Rightarrow> (string \<times> json) list \<Rightarrow> envelope option" where
  "envelope_members env [] = Some env"
| "envelope_members env ((k, j) # kvs) =
     (let n = fold_case k
      in if n = ''key'' then
           (case decode_bytes j of None \<Rightarrow> None | Some b \<Rightarrow> envelope_members (env\<lparr>Key := b\<rparr>) kvs)
         else if n = ''nonce'' then
           (case decode_bytes j of None \<Rightarrow> None | Some b \<Rightarrow> envelope_members (env\<lparr>Nonce := b\<rparr>) kvs)
         else if n = ''data'' then
           (case decode_bytes j of None \<Rightarrow> None | Some b \<Rightarrow> envelope_members (env\<lparr>Data := b\<rparr>) kvs)
         else envelope_members env kvs)"

definition empty_envelope :: envelope where
  "empty_envelope = \<lparr>Key = [], Nonce = [], Data = []\<rparr>"

fun envelope_of_json :: "json \<Rightarrow> envelope option" where
  "envelope_of_json JNull = Some empty_envelope"
| "envelope_of_json (JObj kvs) = envelope_members empty_envelope kvs"
| "envelope_of_json _ = None"

subsection \<open>Encryption\<close>

definition SchemeRSAOAEPWithAESGCM :: string where
  "SchemeRSAOAEPWithAESGCM = ''rsa-aes-gcm''"

record ('pub, 'priv) crypto =
  gcm_Seal :: "bytes \<Rightarrow> bytes \<Rightarrow> bytes \<Rightarrow> bytes"
  gcm_Open :: "bytes \<Rightarrow> bytes \<Rightarrow> bytes \<Rightarrow> goerr + bytes"
  EncryptOAEP :: "'pub \<Rightarrow> bytes \<Rightarrow> goerr + bytes"
  DecryptOAEP :: "'priv \<Rightarrow> bytes \<Rightarrow> goerr + bytes"

text \<open>\<^verbatim>\<open>aes.NewCipher\<close> accepts keys of 16, 24 and 32 bytes; \<^verbatim>\<open>cipher.NewGCM\<close> then gives 12-byte nonces.\<close>

definition aes_NewCipher :: "bytes \<Rightarrow> goerr + bytes" where
  "aes_NewCipher key =
     (if length key \<in> {16, 24, 32} then Inr key
      else Inl (LibError ''crypto/aes: invalid key size''))"

definition gcm_NonceSize :: nat where
  "gcm_NonceSize = 12"

text \<open>
  \<open>Encrypt\<close>, with what \<^verbatim>\<open>io.ReadFull(rand.Reader, ...)\<close> gives for the key and for the nonce as
  arguments.
\<close>

definition Encrypt ::
    "('pub, 'priv) crypto \<Rightarrow> goerr + bytes \<Rightarrow> goerr + bytes \<Rightarrow> bytes \<Rightarrow> 'pub option \<Rightarrow> goerr + bytes" where
  "Encrypt cr rand_key rand_nonce data publicKey =
     (case publicKey of
        None \<Rightarrow> Inl (Errorf ''public key is nil'' [])
      | Some pub \<Rightarrow>
          (case rand_key of
             Inl err \<Rightarrow> Inl (ErrorfW ''generate AES key: %w'' [] err)
           | Inr aesKey \<Rightarrow>
               (case aes_NewCipher aesKey of
                  Inl err \<Rightarrow> Inl (ErrorfW ''create AES cipher: %w'' [] err)
                | Inr block \<Rightarrow>
                    (case rand_nonce of
                       Inl err \<Rightarrow> Inl (ErrorfW ''generate nonce: %w'' [] err)
                     | Inr nonce \<Rightarrow>
                         (case EncryptOAEP cr pub aesKey of
                            Inl err \<Rightarrow> Inl (ErrorfW ''encrypt AES key: %w'' [] err)
                          | Inr encryptedKey \<Rightarrow>
                              Inr (json_print (envelope_json
                                \<lparr>Key = encryptedKey, Nonce = nonce, Data = gcm_Seal cr block nonce data\<rparr>)))))))"

definition Decrypt :: "('pub, 'priv) crypto \<Rightarrow> bytes \<Rightarrow> 'priv option \<Rightarrow> goerr + bytes" where
  "Decrypt cr data privateKey =
     (case privateKey of
        None \<Rightarrow> Inl (Errorf ''private key is nil'' [])
      | Some priv \<Rightarrow>
          (case Option.bind (json_Unmarshal data) envelope_of_json of
             None \<Rightarrow> Inl (ErrorfW ''unmarshal envelope: %w'' [] json_unmarshal_error)
           | Some env \<Rightarrow>
               (case DecryptOAEP cr priv (Key env) of
                  Inl err \<Rightarrow> Inl (ErrorfW ''decrypt AES key: %w'' [] err)
                | Inr aesKey \<Rightarrow>
                    (case aes_NewCipher aesKey of
                       Inl err \<Rightarrow> Inl (ErrorfW ''create AES cipher: %w'' [] err)
                     | Inr block \<Rightarrow>
                         if length (Nonce env) \<noteq> gcm_NonceSize
                         then Inl (Errorf ''invalid nonce size: got %d, want %d''
                                [FInt (int (length (Nonce env))), FInt (int gcm_NonceSize)])
                         else
                           (case gcm_Open cr block (Nonce env) (Data env) of
                              Inl err \<Rightarrow> Inl (ErrorfW ''decrypt data: %w'' [] err)
                            | Inr decryptedData \<Rightarrow> Inr decryptedData)))))"

subsection \<open>Loading keys\<close>

text \<open>
  PEM and X.509 as parameters: \<open>pem\<close> gives the first block of the file, a PKIX or PKCS\#8 parse gives
  a key that is an RSA key or another kind, the PKCS\#1 parses give an RSA key.
\<close>

record ('pub, 'priv) x509 =
  pem_Decode :: "bytes \<Rightarrow> bytes option"
  ParsePKIXPublicKey :: "bytes \<Rightarrow> goerr + 'pub option"
  ParsePKCS1PublicKey :: "bytes \<Rightarrow> goerr + 'pub"
  ParsePKCS8PrivateKey :: "bytes \<Rightarrow> goerr + 'priv option"
  ParsePKCS1PrivateKey :: "bytes \<Rightarrow> goerr + 'priv"

definition LoadPublicKey :: "('pub, 'priv) x509 \<Rightarrow> string \<Rightarrow> filesystem \<Rightarrow> goerr + 'pub" where
  "LoadPublicKey x p fs =
     (case os_ReadFile p fs of
        Inl err \<Rightarrow> Inl (ErrorfW ''read public key: %w'' [] err)
      | Inr data \<Rightarrow>
          (case pem_Decode x data of
             None \<Rightarrow> Inl (Errorf ''decode public key PEM'' [])
           | Some block \<Rightarrow>
               (case ParsePKIXPublicKey x block of
                  Inr (Some k) \<Rightarrow> Inr k
                | Inr None \<Rightarrow> Inl (Errorf ''public key is not RSA'' [])
                | Inl _ \<Rightarrow>
                    (case ParsePKCS1PublicKey x block of
                       Inl err \<Rightarrow> Inl (ErrorfW ''parse public key: %w'' [] err)
                     | Inr k \<Rightarrow> Inr k))))"

definition LoadPrivateKey :: "('pub, 'priv) x509 \<Rightarrow> string \<Rightarrow> filesystem \<Rightarrow> goerr + 'priv" where
  "LoadPrivateKey x p fs =
     (case os_ReadFile p fs of
        Inl err \<Rightarrow> Inl (ErrorfW ''read private key: %w'' [] err)
      | Inr data \<Rightarrow>
          (case pem_Decode x data of
             None \<Rightarrow> Inl (Errorf ''decode private key PEM'' [])
           | Some block \<Rightarrow>
               (case ParsePKCS8PrivateKey x block of
                  Inr (Some k) \<Rightarrow> Inr k
                | Inr None \<Rightarrow> Inl (Errorf ''private key is not RSA'' [])
                | Inl _ \<Rightarrow>
                    (case ParsePKCS1PrivateKey x block of
                       Inl err \<Rightarrow> Inl (ErrorfW ''parse private key: %w'' [] err)
                     | Inr k \<Rightarrow> Inr k))))"

subsection \<open>Round trip\<close>

lemma b64_value_char: "n < 64 \<Longrightarrow> b64_value (b64_char n) = Some n"
proof -
  assume n: "n < 64"
  consider "n < 26" | "26 \<le> n" "n < 52" | "52 \<le> n" "n < 62" | "n = 62" | "n = 63" using n by linarith
  then show ?thesis
  proof cases
    case 3
    then have "char_code (b64_char n) = n - 4" "48 \<le> n - 4" "n - 4 \<le> 57" by (simp_all add: b64_char_def)
    then show ?thesis using 3 by (simp add: b64_value_def)
  qed (simp_all add: b64_char_def b64_value_def Let_def)
qed

lemma char_code_bound: "char_code c < 256"
  by (metis of_char_of of_char_mod_256 mod_less_divisor zero_less_numeral)

lemma b64_char_plain: "n < 64 \<Longrightarrow> b64_char n \<noteq> CHR ''='' \<and> b64_char n \<noteq> CHR 0x0A \<and> b64_char n \<noteq> CHR 0x0D \<and> char_code (b64_char n) < 128"
proof -
  assume n: "n < 64"
  have "b64_value (CHR ''='') = None" "b64_value (CHR 0x0A) = None" "b64_value (CHR 0x0D) = None"
    by (simp_all add: b64_value_def)
  moreover have "char_code (b64_char n) < 128" using n by (auto simp: b64_char_def)
  ultimately show ?thesis using b64_value_char [OF n] by auto
qed

lemma byte_parts:
  fixes x :: nat
  assumes "x < 256"
  shows "x div 4 < 64" "x div 16 < 16" "x div 64 < 4"
  using assms by (auto intro: less_mult_imp_div_less)

lemma b64_digits:
  "char_code a div 4 < 64" "char_code a mod 4 * 16 < 64" "char_code a mod 4 * 16 + char_code b div 16 < 64"
  "char_code b mod 16 * 4 < 64" "char_code b mod 16 * 4 + char_code c div 64 < 64" "char_code c mod 64 < 64"
proof -
  have "char_code a mod 4 < 4" "char_code b mod 16 < 16" by simp_all
  then show "char_code a mod 4 * 16 + char_code b div 16 < 64" "char_code b mod 16 * 4 + char_code c div 64 < 64"
    using byte_parts [OF char_code_bound [of b]] byte_parts [OF char_code_bound [of c]] by linarith+
qed (simp_all add: byte_parts [OF char_code_bound])

lemma b64_groups_encode: "b64_groups (base64_encode s) = Some s"
  by (induction s rule: base64_encode.induct)
    (simp_all add: b64_value_char b64_digits b64_char_plain byte_parts [OF char_code_bound])

lemma base64_encode_plain: "c \<in> set (base64_encode s) \<Longrightarrow> c \<noteq> CHR 0x0A \<and> c \<noteq> CHR 0x0D \<and> char_code c < 128"
  by (induction s rule: base64_encode.induct) (auto simp: b64_char_plain b64_digits)

lemma base64_roundtrip: "base64_decode (base64_encode s) = Some s"
proof -
  have "filter (\<lambda>c. c \<noteq> CHR 0x0A \<and> c \<noteq> CHR 0x0D) (base64_encode s) = base64_encode s"
    by (auto simp: filter_id_conv dest: base64_encode_plain)
  then show ?thesis by (simp add: base64_decode_def b64_groups_encode)
qed


subsection \<open>The envelope and the ciphers\<close>

text \<open>What the documentation of the ciphers promises for matching keys.\<close>

definition gcm_correct :: "('pub, 'priv) crypto \<Rightarrow> bool" where
  "gcm_correct cr \<longleftrightarrow> (\<forall>k n d. gcm_Open cr k n (gcm_Seal cr k n d) = Inr d)"

definition oaep_correct :: "('pub, 'priv) crypto \<Rightarrow> 'pub \<Rightarrow> 'priv \<Rightarrow> bool" where
  "oaep_correct cr pub priv \<longleftrightarrow> (\<forall>m c. EncryptOAEP cr pub m = Inr c \<longrightarrow> DecryptOAEP cr priv c = Inr m)"

lemma envelope_names:
  "fold_case (to_valid_utf8 ''key'') = ''key''" "fold_case (to_valid_utf8 ''nonce'') = ''nonce''"
  "fold_case (to_valid_utf8 ''data'') = ''data''"
  by (simp_all add: to_valid_utf8_ascii ascii_lower_def)

lemma base64_valid: "to_valid_utf8 (base64_encode s) = base64_encode s"
  by (rule to_valid_utf8_ascii) (auto simp: list_all_iff dest: base64_encode_plain)

lemma envelope_roundtrip:
  "Option.bind (json_Unmarshal (json_print (envelope_json env))) envelope_of_json = Some env"
proof -
  have "json_numbers_ok (envelope_json env)" "json_depth (envelope_json env) \<le> max_nesting"
    by (simp_all add: envelope_json_def max_nesting_def)
  from json_Unmarshal_print [OF this] show ?thesis
    by (cases env) (simp add: envelope_json_def envelope_names base64_valid base64_roundtrip empty_envelope_def Let_def)
qed

lemma Decrypt_Encrypt:
  assumes "gcm_correct cr" and "oaep_correct cr pub priv" and "rn = Inr nonce" and "length nonce = gcm_NonceSize"
    and "Encrypt cr rk rn data (Some pub) = Inr body"
  shows "Decrypt cr body (Some priv) = Inr data"
proof -
  obtain k where k: "rk = Inr k" "aes_NewCipher k = Inr k"
    using assms(5) by (auto simp: Encrypt_def aes_NewCipher_def split: sum.splits if_splits)
  obtain c where c: "EncryptOAEP cr pub k = Inr c"
    using assms(3,5) k by (auto simp: Encrypt_def split: sum.splits)
  have "body = json_print (envelope_json \<lparr>Key = c, Nonce = nonce, Data = gcm_Seal cr k nonce data\<rparr>)"
    using assms(3,5) k c by (simp add: Encrypt_def)
  then show ?thesis
    using assms(1,2,4) k c
    by (simp add: Decrypt_def envelope_roundtrip gcm_correct_def oaep_correct_def)
qed

subsection \<open>Properties\<close>

text \<open>
  C8: Encryption round trip: a body that \<open>Encrypt\<close> produced with the public key decrypts, with the
  matching private key, to exactly the data that went in, the base64 and JSON packing included.
\<close>

theorem encrypt_decrypt_roundtrip:
  assumes "gcm_correct cr" and "oaep_correct cr pub priv" and "length nonce = gcm_NonceSize"
    and "Encrypt cr rk (Inr nonce) data (Some pub) = Inr body"
  shows "Decrypt cr body (Some priv) = Inr data"
  using Decrypt_Encrypt [OF assms(1,2) refl assms(3,4)] .

text \<open>A pair of ciphers that meets the hypotheses: adding the key length to every byte.\<close>

definition shift_bytes :: "nat \<Rightarrow> bytes \<Rightarrow> bytes" where
  "shift_bytes k = map (\<lambda>c. char_of ((char_code c + k) mod 256))"

definition demo_crypto :: "(unit, unit) crypto" where
  "demo_crypto =
     \<lparr>gcm_Seal = (\<lambda>k n d. shift_bytes 7 d), gcm_Open = (\<lambda>k n d. Inr (shift_bytes 249 d)),
      EncryptOAEP = (\<lambda>_ m. Inr (shift_bytes 1 m)), DecryptOAEP = (\<lambda>_ c. Inr (shift_bytes 255 c))\<rparr>"

lemma shift_bytes_inverse: "k \<le> 256 \<Longrightarrow> shift_bytes (256 - k) (shift_bytes k d) = d"
proof (induction d)
  case (Cons c d)
  have "((char_code c + k) mod 256 + (256 - k)) mod 256 = (char_code c + k + (256 - k)) mod 256"
    by (rule mod_add_left_eq)
  then have "((char_code c + k) mod 256 + (256 - k)) mod 256 = char_code c"
    using Cons.prems char_code_bound [of c] by simp
  then have "char_of ((char_code c + k) mod 256 + 256 - k) = c"
    using Cons.prems by (metis char_of_char char_of_mod_256 Nat.add_diff_assoc)
  then show ?case using Cons by (simp add: shift_bytes_def)
qed (simp add: shift_bytes_def)

lemma demo_crypto_correct: "gcm_correct demo_crypto" "oaep_correct demo_crypto () ()"
  using shift_bytes_inverse [of 7] shift_bytes_inverse [of 1]
  by (simp_all add: gcm_correct_def oaep_correct_def demo_crypto_def)

theorem encrypt_decrypt_roundtrip_witness:
  "\<exists>body. Encrypt demo_crypto (Inr (replicate 32 (CHR ''k''))) (Inr (replicate 12 (CHR ''n''))) ''hello'' (Some ()) = Inr body \<and>
     Decrypt demo_crypto body (Some ()) = Inr ''hello''"
proof -
  obtain body where b: "Encrypt demo_crypto (Inr (replicate 32 (CHR ''k''))) (Inr (replicate 12 (CHR ''n'')))
      ''hello'' (Some ()) = Inr body"
    by (simp add: Encrypt_def demo_crypto_def aes_NewCipher_def)
  moreover have "length (replicate 12 (CHR ''n'')) = gcm_NonceSize" by (simp add: gcm_NonceSize_def)
  ultimately show ?thesis using encrypt_decrypt_roundtrip [OF demo_crypto_correct _ b] by blast
qed

text \<open>
  \<open>Decrypt\<close> never hands an authentication failure on as data: it returns data only if there is a
  private key, the body is an envelope whose nonce has the size of the cipher, and the cipher opened
  the sealed data with the unwrapped key.
\<close>

theorem decrypt_only_authentic:
  assumes "Decrypt cr body privateKey = Inr data"
  shows "\<exists>priv env k. privateKey = Some priv \<and>
    Option.bind (json_Unmarshal body) envelope_of_json = Some env \<and> DecryptOAEP cr priv (Key env) = Inr k \<and>
    length k \<in> {16, 24, 32} \<and> length (Nonce env) = 12 \<and> gcm_Open cr k (Nonce env) (Data env) = Inr data"
  using assms
  by (auto simp: Decrypt_def aes_NewCipher_def gcm_NonceSize_def split: option.splits sum.splits if_splits)

theorem decrypt_only_authentic_witness:
  "\<exists>body env. Decrypt demo_crypto body (Some ()) = Inr ''hello'' \<and>
     Option.bind (json_Unmarshal body) envelope_of_json = Some env \<and> length (Nonce env) = 12"
proof -
  obtain body where b: "Encrypt demo_crypto (Inr (replicate 32 (CHR ''k''))) (Inr (replicate 12 (CHR ''n'')))
      ''hello'' (Some ()) = Inr body"
    by (simp add: Encrypt_def demo_crypto_def aes_NewCipher_def)
  have "length (replicate 12 (CHR ''n'')) = gcm_NonceSize" by (simp add: gcm_NonceSize_def)
  then have "Decrypt demo_crypto body (Some ()) = Inr ''hello''"
    using Decrypt_Encrypt [OF demo_crypto_correct refl _ b] by blast
  from decrypt_only_authentic [OF this] this show ?thesis by blast
qed

end
