(* ===== verification/Middleware.thy ===== *)
theory Middleware
  imports Encryption
begin

text \<open>
  The HTTP middleware of the server (\<^verbatim>\<open>src/internal/server/transport/http/middleware/\<close>) and the router
  that stacks it (\<^verbatim>\<open>.../router/router.go\<close>): logging, signature check and response signing,
  decryption, gzip in both directions, and the trusted subnet. A middleware turns a handler into a
  handler. Gzip and the route matching of chi are parameters.

  The facts: each guard lets nothing through that it should reject (and leaves the world alone when
  it rejects), logging is invisible to the client, a signed response carries the signature of
  exactly the bytes sent, and a client that decompresses gets the handler's own response.
\<close>

type_synonym 'w middleware = "'w http_handler \<Rightarrow> 'w http_handler"

subsection \<open>Trusted subnet\<close>

definition WithTrustedSubnet :: "IPNet option \<Rightarrow> 'w middleware" where
  "WithTrustedSubnet subnet next r w =
     (case subnet of
        None \<Rightarrow> next r w
      | Some n \<Rightarrow>
          (case ParseIP (Header_Get (rq_header r) HeaderRealIP) of
             None \<Rightarrow> (Return [WriteHeader 403], w)
           | Some ip \<Rightarrow> if \<not> IPNet_Contains n ip then (Return [WriteHeader 403], w) else next r w))"

subsection \<open>Logging\<close>

record loggingResponseWriter =
  lw_statusCode :: int
  lw_size :: nat

definition newLoggingResponseWriter :: loggingResponseWriter where
  "newLoggingResponseWriter = \<lparr>lw_statusCode = 200, lw_size = 0\<rparr>"

text \<open>What the wrapper records of a call it passes on.\<close>

fun logging_step :: "rw_op \<Rightarrow> loggingResponseWriter \<Rightarrow> loggingResponseWriter" where
  "logging_step (WriteHeader c) lw = lw\<lparr>lw_statusCode := c\<rparr>"
| "logging_step (WriteBody b) lw = lw\<lparr>lw_size := lw_size lw + length b\<rparr>"
| "logging_step _ lw = lw"

definition WithLogging :: "'w logger \<Rightarrow> 'w middleware" where
  "WithLogging l next r w =
     (case next r w of
        (Panic p, w') \<Rightarrow> (Panic p, w')
      | (Return ops, w') \<Rightarrow>
          let lw = fold logging_step ops newLoggingResponseWriter;
              fields = [(''uri'', FStr (rq_uri r)), (''method'', FStr (rq_method r)),
                (''status'', FInt (lw_statusCode lw)), (''size'', FInt (int (lw_size lw)))]
          in (Return ops,
              l (LogEntry (if 500 \<le> lw_statusCode lw then LogError else LogDebug) ''http request completed'' fields) w'))"

subsection \<open>Signatures\<close>

record hashResponseWriter =
  hw_header :: header
  hw_body :: bytes
  hw_statusCode :: int

definition newHashResponseWriter :: hashResponseWriter where
  "newHashResponseWriter = \<lparr>hw_header = Map.empty, hw_body = [], hw_statusCode = 0\<rparr>"

fun hash_step :: "rw_op \<Rightarrow> hashResponseWriter \<Rightarrow> hashResponseWriter" where
  "hash_step (SetHeader k v) hw = hw\<lparr>hw_header := Header_Set (hw_header hw) k v\<rparr>"
| "hash_step (AddHeader k v) hw = hw\<lparr>hw_header := Header_Add (hw_header hw) k v\<rparr>"
| "hash_step (WriteBody p) hw =
     (let hw' = (if hw_statusCode hw = 0 then hw\<lparr>hw_statusCode := 200\<rparr> else hw)
      in hw'\<lparr>hw_body := hw_body hw' @ p\<rparr>)"
| "hash_step (WriteHeader c) hw = (if hw_statusCode hw = 0 then hw\<lparr>hw_statusCode := c\<rparr> else hw)"

text \<open>The buffered response, signed and written out; \<open>ord\<close> is the order in which headers are copied.\<close>

definition add_headers :: "(string \<times> string list) list \<Rightarrow> rw_op list" where
  "add_headers kvs = concat (map (\<lambda>(k, vs). map (AddHeader k) vs) kvs)"

definition sign_response :: "string list range_order \<Rightarrow> string \<Rightarrow> hashResponseWriter \<Rightarrow> rw_op list" where
  "sign_response ord hashKey hw =
     (let responseHash = CalcHash (hw_body hw) hashKey;
          h = (if responseHash \<noteq> [] then Header_Set (hw_header hw) HeaderHashSHA256 responseHash else hw_header hw)
      in add_headers (ord h) @
         [WriteHeader (if hw_statusCode hw = 0 then 200 else hw_statusCode hw)] @
         (if hw_body hw \<noteq> [] then [WriteBody (hw_body hw)] else []))"

definition WithHash :: "string list range_order \<Rightarrow> string \<Rightarrow> 'w middleware" where
  "WithHash ord hashKey next r w =
     (if hashKey = [] then next r w
      else
        let run = (\<lambda>r. case next r w of
                (Panic p, w') \<Rightarrow> (Panic p, w')
              | (Return ops, w') \<Rightarrow> (Return (sign_response ord hashKey (fold hash_step ops newHashResponseWriter)), w'))
        in case rq_body r of
             None \<Rightarrow> run r
           | Some b \<Rightarrow>
               (case io_ReadAll b of
                  Inl _ \<Rightarrow> (Return [WriteHeader 400], w)
                | Inr body \<Rightarrow>
                    let expectedHash = Header_Get (rq_header r) HeaderHashSHA256
                    in if expectedHash \<noteq> [] \<and> expectedHash \<noteq> CalcHash body hashKey
                       then (Return [WriteHeader 400], w)
                       else run (r\<lparr>rq_body := Some (body, None)\<rparr>)))"

subsection \<open>Decryption\<close>

definition decryptRequestBody :: "('pub, 'priv) crypto \<Rightarrow> 'priv \<Rightarrow> body \<Rightarrow> http_request \<Rightarrow> goerr + http_request" where
  "decryptRequestBody cr priv b r =
     (case io_ReadAll b of
        Inl err \<Rightarrow> Inl err
      | Inr encryptedBody \<Rightarrow>
          (case Decrypt cr encryptedBody (Some priv) of
             Inl err \<Rightarrow> Inl err
           | Inr decryptedBody \<Rightarrow>
               Inr (r\<lparr>rq_body := Some (decryptedBody, None),
                      rq_header := Header_Del (rq_header r) HeaderContentEncryption\<rparr>)))"

definition WithDecryption :: "('pub, 'priv) crypto \<Rightarrow> 'priv option \<Rightarrow> 'w middleware" where
  "WithDecryption cr privateKey next r w =
     (let scheme = Header_Get (rq_header r) HeaderContentEncryption
      in if scheme = [] then next r w
         else case privateKey of
             None \<Rightarrow> (Return [WriteHeader 400], w)
           | Some priv \<Rightarrow>
               if \<not> strings_EqualFold scheme SchemeRSAOAEPWithAESGCM then (Return [WriteHeader 400], w)
               else (case rq_body r of
                   None \<Rightarrow> (Return [WriteHeader 400], w)
                 | Some b \<Rightarrow>
                     (case decryptRequestBody cr priv b r of
                        Inl _ \<Rightarrow> (Return [WriteHeader 400], w)
                      | Inr r' \<Rightarrow> next r' w)))"

subsection \<open>Gzip\<close>

text \<open>
  The library: what the writer emits, up to and including \<^verbatim>\<open>Close\<close>, for a sequence of writes, and
  what \<^verbatim>\<open>gzip.NewReader\<close> gives for a body, which is an error or the decompressed stream.
\<close>

record gzip_lib =
  gzip_compress :: "bytes list \<Rightarrow> bytes"
  gzip_NewReader :: "body \<Rightarrow> goerr + body"

record compressWriter =
  cw_header :: header
  cw_gzip :: "bool option"
  cw_chunks :: "bytes list"
  cw_out :: "rw_op list"

definition newCompressWriter :: compressWriter where
  "newCompressWriter = \<lparr>cw_header = Map.empty, cw_gzip = None, cw_chunks = [], cw_out = []\<rparr>"

definition cw_emit :: "rw_op \<Rightarrow> compressWriter \<Rightarrow> compressWriter" where
  "cw_emit op cw = cw\<lparr>cw_out := cw_out cw @ [op]\<rparr>"

definition initWriter :: "compressWriter \<Rightarrow> compressWriter" where
  "initWriter cw =
     (if cw_gzip cw \<noteq> None then cw
      else
        let contentType = strings_ToLower (Header_Get (cw_header cw) HeaderContentType)
        in if strings_HasPrefix contentType ContentTypeJSON \<or> strings_HasPrefix contentType ContentTypeHTML
           then (cw_emit (SetHeader HeaderContentEncoding EncodingGzip) cw)
                  \<lparr>cw_header := Header_Set (cw_header cw) HeaderContentEncoding EncodingGzip, cw_gzip := Some True\<rparr>
           else cw\<lparr>cw_gzip := Some False\<rparr>)"

definition cw_WriteHeader :: "int \<Rightarrow> compressWriter \<Rightarrow> compressWriter" where
  "cw_WriteHeader c cw = cw_emit (WriteHeader c) (if cw_gzip cw = None then initWriter cw else cw)"

definition cw_Write :: "bytes \<Rightarrow> compressWriter \<Rightarrow> compressWriter" where
  "cw_Write p cw =
     (let cw' = (if cw_gzip cw = None then cw_WriteHeader 200 cw else cw)
      in if cw_gzip cw' = Some True then cw'\<lparr>cw_chunks := cw_chunks cw' @ [p]\<rparr> else cw_emit (WriteBody p) cw')"

fun compress_step :: "rw_op \<Rightarrow> compressWriter \<Rightarrow> compressWriter" where
  "compress_step (SetHeader k v) cw = (cw_emit (SetHeader k v) cw)\<lparr>cw_header := Header_Set (cw_header cw) k v\<rparr>"
| "compress_step (AddHeader k v) cw = (cw_emit (AddHeader k v) cw)\<lparr>cw_header := Header_Add (cw_header cw) k v\<rparr>"
| "compress_step (WriteHeader c) cw = cw_WriteHeader c cw"
| "compress_step (WriteBody p) cw = cw_Write p cw"

definition cw_Close :: "gzip_lib \<Rightarrow> compressWriter \<Rightarrow> compressWriter" where
  "cw_Close gz cw =
     (if cw_gzip cw = Some True then cw_emit (WriteBody (gzip_compress gz (cw_chunks cw))) cw else cw)"

definition compress_ops :: "gzip_lib \<Rightarrow> rw_op list \<Rightarrow> rw_op list" where
  "compress_ops gz ops = cw_out (cw_Close gz (fold compress_step ops newCompressWriter))"

definition newCompressReader :: "gzip_lib \<Rightarrow> body \<Rightarrow> goerr + body" where
  "newCompressReader gz b = gzip_NewReader gz b"

definition WithGzip :: "gzip_lib \<Rightarrow> 'w middleware" where
  "WithGzip gz h r w =
     (let supportsGzip = strings_Contains (strings_ToLower (Header_Get (rq_header r) HeaderAcceptEncoding)) EncodingGzip;
          sendsGzip = strings_Contains (strings_ToLower (Header_Get (rq_header r) HeaderContentEncoding)) EncodingGzip;
          run = (\<lambda>r. case h r w of
              (Panic p, w') \<Rightarrow> (Panic p, w')
            | (Return ops, w') \<Rightarrow> (Return (if supportsGzip then compress_ops gz ops else ops), w'))
      in if sendsGzip then
           (case rq_body r of
              None \<Rightarrow> (Panic nil_pointer, w)
            | Some b \<Rightarrow>
                (case newCompressReader gz b of
                   Inl _ \<Rightarrow> (Return [WriteHeader 500], w)
                 | Inr b' \<Rightarrow> run (r\<lparr>rq_body := Some b'\<rparr>)))
         else run r)"

subsection \<open>The router\<close>

datatype endpoint = EpPing | EpUpdate | EpUpdatesJSON | EpUpdateJSON | EpValue | EpValueJSON | EpIndex

record ('pub, 'priv) Options =
  HashKey :: string
  PrivateKey :: "'priv option"
  TrustedSubnet :: "IPNet option"

text \<open>
  The libraries a router uses: ciphers, gzip, and chi, which gives the endpoint and the path
  parameters of a request, or the calls that answer a request without a route. The orders are those
  of the loops over header and metric maps.
\<close>

record ('pub, 'priv) http_env =
  env_crypto :: "('pub, 'priv) crypto"
  env_gzip :: gzip_lib
  env_route :: "http_request \<Rightarrow> rw_op list + endpoint \<times> (string \<Rightarrow> string)"
  env_headers :: "string list range_order"
  env_gauges :: "float64 range_order"
  env_counters :: "int64 range_order"

fun dispatch :: "('pub, 'priv) http_env \<Rightarrow> 'w Handler \<Rightarrow> IPNet option \<Rightarrow> endpoint \<Rightarrow> 'w http_handler" where
  "dispatch env h subnet EpPing = Ping h"
| "dispatch env h subnet EpUpdate = WithTrustedSubnet subnet (Update h)"
| "dispatch env h subnet EpUpdatesJSON = WithTrustedSubnet subnet (UpdatesJSON h)"
| "dispatch env h subnet EpUpdateJSON = WithTrustedSubnet subnet (UpdateJSON h)"
| "dispatch env h subnet EpValue = Handler_Value h"
| "dispatch env h subnet EpValueJSON = ValueJSON h"
| "dispatch env h subnet EpIndex = Index (env_gauges env) (env_counters env) h"

definition routes :: "('pub, 'priv) http_env \<Rightarrow> 'w Handler \<Rightarrow> IPNet option \<Rightarrow> 'w http_handler" where
  "routes env h subnet r w =
     (case env_route env r of
        Inl ops \<Rightarrow> (Return ops, w)
      | Inr (ep, params) \<Rightarrow> dispatch env h subnet ep (r\<lparr>rq_params := params\<rparr>) w)"

definition router_New ::
    "('pub, 'priv) http_env \<Rightarrow> 'w Handler \<Rightarrow> 'w logger \<Rightarrow> ('pub, 'priv) Options \<Rightarrow> 'w http_handler" where
  "router_New env h l opts =
     (let base = WithGzip (env_gzip env) (routes env h (TrustedSubnet opts));
          decrypted = (if PrivateKey opts \<noteq> None then WithDecryption (env_crypto env) (PrivateKey opts) base else base);
          hashed = (if HashKey opts \<noteq> [] then WithHash (env_headers env) (HashKey opts) decrypted else decrypted)
      in WithLogging l hashed)"

subsection \<open>Canonical keys\<close>

lemma ascii_case_code:
  "char_code (ascii_upper c) = (if 97 \<le> char_code c \<and> char_code c \<le> 122 then char_code c - 32 else char_code c)"
  "char_code (ascii_lower c) = (if 65 \<le> char_code c \<and> char_code c \<le> 90 then char_code c + 32 else char_code c)"
  by (auto simp: ascii_upper_def ascii_lower_def)

lemma char_code_eq: "char_code c = char_code d \<longleftrightarrow> c = d"
  by (metis char_of_char)

lemma ascii_case_idem [simp]:
  "ascii_upper (ascii_upper c) = ascii_upper c" "ascii_lower (ascii_lower c) = ascii_lower c"
  by (auto simp: char_code_eq [symmetric] ascii_case_code)

lemma ascii_case_hyphen [simp]:
  "ascii_upper c = CHR ''-'' \<longleftrightarrow> c = CHR ''-''" "ascii_lower c = CHR ''-'' \<longleftrightarrow> c = CHR ''-''"
  by (auto simp: char_code_eq [symmetric] ascii_case_code)

lemma is_letter_case: "is_letter (ascii_upper c) = is_letter c" "is_letter (ascii_lower c) = is_letter c"
  by (auto simp: is_letter_def ascii_case_code)

lemma nonletter_case: "\<not> is_letter c \<Longrightarrow> ascii_upper c = c" "\<not> is_letter c \<Longrightarrow> ascii_lower c = c"
  by (auto simp: is_letter_def ascii_upper_def ascii_lower_def)

lemma is_token_char_case: "is_token_char (ascii_upper c) = is_token_char c" "is_token_char (ascii_lower c) = is_token_char c"
  by (cases "is_letter c"; simp add: is_token_char_def is_letter_case nonletter_case)+

lemma canonical_loop_tokens: "list_all is_token_char (canonical_loop u k) = list_all is_token_char k"
  by (induction k arbitrary: u) (auto simp: is_token_char_case)

lemma canonical_loop_idem: "canonical_loop u (canonical_loop u k) = canonical_loop u k"
  by (induction k arbitrary: u) auto

lemma canonical_key_idem [simp]: "canonical_key (canonical_key k) = canonical_key k"
  by (simp add: canonical_key_def canonical_loop_tokens canonical_loop_idem)

subsection \<open>Signed responses\<close>

definition header_wf :: "header \<Rightarrow> bool" where
  "header_wf h \<longleftrightarrow> finite (dom h) \<and> (\<forall>k vs. h k = Some vs \<longrightarrow> canonical_key k = k \<and> vs \<noteq> [])"

lemma header_wf_ops [intro]:
  "header_wf Map.empty" "header_wf h \<Longrightarrow> header_wf (Header_Set h k v)" "header_wf h \<Longrightarrow> header_wf (Header_Add h k v)"
  by (auto simp: header_wf_def Header_Set_def Header_Add_def split: option.splits)

lemma hash_writer_wf: "header_wf (hw_header hw) \<Longrightarrow> header_wf (hw_header (fold hash_step ops hw))"
proof (induction ops arbitrary: hw)
  case (Cons op ops)
  have "header_wf (hw_header (hash_step op hw))"
    using Cons.prems by (cases op) (auto simp: Let_def)
  then show ?case using Cons.IH by simp
qed simp

lemma add_header_values:
  "rw_run (map (AddHeader k) vs) s =
     (if vs = [] then s
      else s\<lparr>rw_header := (rw_header s)(canonical_key k \<mapsto>
        (case rw_header s (canonical_key k) of None \<Rightarrow> [] | Some us \<Rightarrow> us) @ vs)\<rparr>)"
  by (induction vs arbitrary: s) (auto simp: Header_Add_def split: option.splits)

lemma add_headers_run:
  assumes "distinct (map fst kvs)" and "\<forall>(k, vs) \<in> set kvs. canonical_key k = k \<and> vs \<noteq> [] \<and> rw_header s k = None"
  shows "rw_run (add_headers kvs) s = s\<lparr>rw_header := rw_header s ++ map_of kvs\<rparr>"
  using assms
proof (induction kvs arbitrary: s)
  case (Cons kv kvs)
  obtain k vs where kv: "kv = (k, vs)" by force
  let ?s = "s\<lparr>rw_header := (rw_header s)(k \<mapsto> vs)\<rparr>"
  have "rw_run (map (AddHeader k) vs) s = ?s"
    using Cons.prems kv by (auto simp: add_header_values)
  moreover have "rw_run (add_headers kvs) ?s = ?s\<lparr>rw_header := rw_header ?s ++ map_of kvs\<rparr>"
    using Cons.prems kv by (intro Cons.IH) force+
  moreover have "(rw_header s)(k \<mapsto> vs) ++ map_of kvs = rw_header s ++ (map_of kvs)(k \<mapsto> vs)"
    using Cons.prems kv
    by (auto simp: fun_eq_iff map_add_def dest: map_of_SomeD image_eqI [of _ fst] split: option.splits) force
  moreover have "map_of (kv # kvs) = (map_of kvs)(k \<mapsto> vs)" by (simp add: kv fun_upd_def)
  ultimately show ?case
    unfolding add_headers_def kv by (simp del: map_of.simps fun_upd_apply map_add_upd)
qed (simp add: add_headers_def)

lemma sign_response_serve:
  assumes "fair_order ord" and "header_wf (hw_header hw)" and "hashKey \<noteq> []"
  shows "serve (sign_response ord hashKey hw) =
    \<lparr>rs_status = (if hw_statusCode hw = 0 then 200 else hw_statusCode hw),
     rs_header = Header_Set (hw_header hw) HeaderHashSHA256 (CalcHash (hw_body hw) hashKey), rs_body = hw_body hw\<rparr>"
proof -
  let ?h = "Header_Set (hw_header hw) HeaderHashSHA256 (CalcHash (hw_body hw) hashKey)"
  have wf: "header_wf ?h" using assms(2) by (rule header_wf_ops)
  then have e: "enumerates (ord ?h) ?h" using assms(1) by (simp add: fair_order_def header_wf_def)
  have "rw_run (add_headers (ord ?h)) rw_init = rw_init\<lparr>rw_header := Map.empty ++ map_of (ord ?h)\<rparr>"
  proof -
    have "\<forall>(k, vs) \<in> set (ord ?h). canonical_key k = k \<and> vs \<noteq> [] \<and> rw_header rw_init k = None"
      using wf enumerates_mem [OF e] by (auto simp: header_wf_def rw_init_def)
    moreover have "distinct (map fst (ord ?h))" using e by (simp add: enumerates_def)
    ultimately show ?thesis using add_headers_run [of "ord ?h" rw_init] by (simp add: rw_init_def)
  qed
  then have "rw_run (add_headers (ord ?h)) rw_init = rw_init\<lparr>rw_header := ?h\<rparr>"
    using e by (simp add: enumerates_def)
  then show ?thesis
    using assms(3)
    by (auto simp: sign_response_def Let_def serve_def rw_init_def rw_WriteHeader_def rw_response_def)
qed

subsection \<open>Compressed responses\<close>

definition cw_related :: "compressWriter \<Rightarrow> rw_state \<Rightarrow> rw_state \<Rightarrow> bool" where
  "cw_related cw s s' \<longleftrightarrow>
     (case cw_gzip cw of
        None \<Rightarrow> s' = s \<and> rw_sent s = None \<and> cw_header cw = rw_header s \<and> cw_chunks cw = [] \<and> rw_body s = []
      | Some False \<Rightarrow> s' = s \<and> rw_sent s \<noteq> None
      | Some True \<Rightarrow> (\<exists>c h. rw_sent s = Some (c, h) \<and> rw_sent s' = Some (c, Header_Set h HeaderContentEncoding EncodingGzip)) \<and>
          rw_body s' = [] \<and> concat (cw_chunks cw) = rw_body s)"

lemma rw_run_out: "cw_out (cw_emit op cw) = cw_out cw @ [op]"
  by (simp add: cw_emit_def)

lemma cw_related_step:
  assumes "cw_related cw s (rw_run (cw_out cw) rw_init)"
  shows "cw_related (compress_step op cw) (rw_step op s) (rw_run (cw_out (compress_step op cw)) rw_init)"
proof (cases "cw_gzip cw")
  case None
  then show ?thesis
    using assms
    by (cases op) (auto simp: cw_related_def cw_emit_def cw_WriteHeader_def cw_Write_def initWriter_def Let_def
        rw_WriteHeader_def)
next
  case (Some b)
  then show ?thesis
    using assms
    by (cases op; cases b) (auto simp: cw_related_def cw_emit_def cw_WriteHeader_def cw_Write_def Let_def
        rw_WriteHeader_def)
qed

lemma cw_related_fold:
  "cw_related cw s (rw_run (cw_out cw) rw_init) \<Longrightarrow>
     cw_related (fold compress_step ops cw) (rw_run ops s) (rw_run (cw_out (fold compress_step ops cw)) rw_init)"
  by (induction ops arbitrary: cw s) (simp_all add: cw_related_step)

lemma compress_ops_serve:
  obtains (plain) "serve (compress_ops gz ops) = serve ops"
  | (gzipped) cs where "concat cs = rs_body (serve ops)" "serve (compress_ops gz ops) =
      \<lparr>rs_status = rs_status (serve ops), rs_header = Header_Set (rs_header (serve ops)) HeaderContentEncoding EncodingGzip,
       rs_body = gzip_compress gz cs\<rparr>"
proof -
  define cw where "cw = fold compress_step ops newCompressWriter"
  have rel: "cw_related cw (rw_run ops rw_init) (rw_run (cw_out cw) rw_init)"
    unfolding cw_def by (rule cw_related_fold) (simp add: cw_related_def newCompressWriter_def rw_init_def)
  show ?thesis
  proof (cases "cw_gzip cw = Some True")
    case True
    then obtain c h where "rw_sent (rw_run ops rw_init) = Some (c, h)"
      "rw_sent (rw_run (cw_out cw) rw_init) = Some (c, Header_Set h HeaderContentEncoding EncodingGzip)"
      "rw_body (rw_run (cw_out cw) rw_init) = []" "concat (cw_chunks cw) = rw_body (rw_run ops rw_init)"
      using rel by (auto simp: cw_related_def)
    then show ?thesis
      using True gzipped [of "cw_chunks cw"]
      by (simp add: compress_ops_def cw_def [symmetric] cw_Close_def cw_emit_def serve_def rw_response_def
          rw_WriteHeader_def)
  next
    case False
    then have "rw_run (cw_out cw) rw_init = rw_run ops rw_init"
      using rel by (auto simp: cw_related_def split: option.splits bool.splits)
    then show ?thesis
      using False plain by (simp add: compress_ops_def cw_def [symmetric] cw_Close_def serve_def)
  qed
qed

definition gzip_correct :: "gzip_lib \<Rightarrow> bool" where
  "gzip_correct gz \<longleftrightarrow> (\<forall>cs. gzip_NewReader gz (gzip_compress gz cs, None) = Inr (concat cs, None))"

text \<open>The buffering writer and the server's writer agree on status and body.\<close>

definition hw_related :: "hashResponseWriter \<Rightarrow> rw_state \<Rightarrow> bool" where
  "hw_related hw s \<longleftrightarrow> hw_body hw = rw_body s \<and>
     (case rw_sent s of None \<Rightarrow> hw_statusCode hw = 0 | Some (c, _) \<Rightarrow> hw_statusCode hw = c \<and> c \<noteq> 0)"

lemma hw_related_fold:
  "hw_related hw s \<Longrightarrow> (\<forall>c. WriteHeader c \<in> set ops \<longrightarrow> c \<noteq> 0) \<Longrightarrow> hw_related (fold hash_step ops hw) (rw_run ops s)"
proof (induction ops arbitrary: hw s)
  case (Cons op ops)
  have "hw_related (hash_step op hw) (rw_step op s)"
    using Cons.prems
    by (cases op) (auto simp: hw_related_def rw_WriteHeader_def Let_def split: option.splits)
  then show ?case using Cons by simp
qed simp

lemma hash_writer_serve:
  assumes "\<forall>c. WriteHeader c \<in> set ops \<longrightarrow> c \<noteq> 0"
  shows "hw_body (fold hash_step ops newHashResponseWriter) = rs_body (serve ops)"
    and "(if hw_statusCode (fold hash_step ops newHashResponseWriter) = 0 then 200
          else hw_statusCode (fold hash_step ops newHashResponseWriter)) = rs_status (serve ops)"
  using hw_related_fold [OF _ assms, of newHashResponseWriter rw_init]
  by (auto simp: hw_related_def newHashResponseWriter_def rw_init_def serve_def rw_response_def split: option.splits)

subsection \<open>Properties\<close>

text \<open>
  C11: A request with a forged signature is stopped: when a key is configured and the signature header
  is not the hash of the received bytes, the answer is 400, the next handler is not called and the
  world is unchanged.
\<close>

theorem hash_rejects_forged:
  assumes "hashKey \<noteq> []" and "rq_body r = Some (bs, None)"
    and "Header_Get (rq_header r) HeaderHashSHA256 \<noteq> []"
    and "Header_Get (rq_header r) HeaderHashSHA256 \<noteq> CalcHash bs hashKey"
  shows "WithHash ord hashKey next r w = (Return [WriteHeader 400], w)"
  using assms by (simp add: WithHash_def io_ReadAll_def Let_def)

definition signed_request :: "bytes \<Rightarrow> string \<Rightarrow> http_request" where
  "signed_request bs sig = (json_post bs)\<lparr>rq_header := [''Hashsha256'' \<mapsto> [sig]]\<rparr>"

theorem hash_rejects_forged_witness:
  "WithHash sorted_range ''key'' (\<lambda>r w. (Return [], w + 1)) (signed_request ''x'' ''forged'') (0 :: nat) =
     (Return [WriteHeader 400], 0)"
proof -
  have h: "Header_Get (rq_header (signed_request ''x'' ''forged'')) HeaderHashSHA256 = ''forged''"
    by (simp add: signed_request_def Header_Get_def)
  have "length (CalcHash ''x'' ''key'') = 64" by (rule CalcHash_length) simp
  then have "CalcHash ''x'' ''key'' \<noteq> ''forged''" by auto
  then show ?thesis
    using hash_rejects_forged [of "''key''" "signed_request ''x'' ''forged''" "''x''"] h
    by (simp add: signed_request_def json_post_def)
qed

text \<open>
  C29: Every response that passes the signing middleware is signed: status and body are those of the
  handler, and the signature header is the hash, under the configured key, of exactly the body sent.
\<close>

theorem hash_signs_response:
  assumes "hashKey \<noteq> []" and "fair_order ord" and "rq_body r = Some (bs, None)"
    and "Header_Get (rq_header r) HeaderHashSHA256 \<in> {[], CalcHash bs hashKey}"
    and "next (r\<lparr>rq_body := Some (bs, None)\<rparr>) w = (Return ops, w')"
    and "\<forall>c. WriteHeader c \<in> set ops \<longrightarrow> c \<noteq> 0"
  shows "\<exists>ops'. WithHash ord hashKey next r w = (Return ops', w') \<and>
    rs_status (serve ops') = rs_status (serve ops) \<and> rs_body (serve ops') = rs_body (serve ops) \<and>
    Header_Get (rs_header (serve ops')) HeaderHashSHA256 = CalcHash (rs_body (serve ops')) hashKey"
proof -
  define hw where "hw = fold hash_step ops newHashResponseWriter"
  have "header_wf (hw_header hw)"
    unfolding hw_def by (rule hash_writer_wf) (simp add: newHashResponseWriter_def header_wf_ops)
  from sign_response_serve [OF assms(2) this assms(1)]
  have "serve (sign_response ord hashKey hw) = \<lparr>rs_status = rs_status (serve ops),
      rs_header = Header_Set (hw_header hw) HeaderHashSHA256 (CalcHash (rs_body (serve ops)) hashKey),
      rs_body = rs_body (serve ops)\<rparr>"
    unfolding hw_def hash_writer_serve [OF assms(6)] .
  moreover have "WithHash ord hashKey next r w = (Return (sign_response ord hashKey hw), w')"
    using assms(1,3,4,5) by (auto simp: WithHash_def io_ReadAll_def Let_def hw_def)
  ultimately show ?thesis by (simp add: Header_Get_def Header_Set_def)
qed

theorem hash_signs_response_witness:
  "\<exists>ops' w'. WithHash sorted_range ''key'' (\<lambda>r w. (Return [WriteHeader 201, WriteBody ''hi''], w)) (json_post ''x'') (0 :: nat) =
      (Return ops', w') \<and> rs_status (serve ops') = 201 \<and> rs_body (serve ops') = ''hi'' \<and>
    Header_Get (rs_header (serve ops')) HeaderHashSHA256 = CalcHash ''hi'' ''key''"
proof -
  have s: "serve [WriteHeader 201, WriteBody ''hi''] = \<lparr>rs_status = 201, rs_header = Map.empty, rs_body = ''hi''\<rparr>"
    by (simp add: serve_def rw_init_def rw_WriteHeader_def rw_response_def)
  have "Header_Get (rq_header (json_post ''x'')) HeaderHashSHA256 = []"
    by (simp add: json_post_def Header_Get_def)
  then show ?thesis
    using hash_signs_response [of "''key''" sorted_range "json_post ''x''" "''x''"
        "\<lambda>r w. (Return [WriteHeader 201, WriteBody ''hi''], w)" "0 :: nat" "[WriteHeader 201, WriteBody ''hi'']" 0]
      sorted_range_fair s by fastforce
qed

text \<open>
  C28: Response compression is transparent: whatever calls a handler makes, the compressing writer
  sends the same status, and either the very same response or one that is marked as gzip and
  decompresses to the same body, with the other headers unchanged.
\<close>

theorem gzip_response_transparent:
  assumes "gzip_correct gz"
  shows "rs_status (serve (compress_ops gz ops)) = rs_status (serve ops) \<and>
    (serve (compress_ops gz ops) = serve ops \<or>
     gzip_NewReader gz (rs_body (serve (compress_ops gz ops)), None) = Inr (rs_body (serve ops), None) \<and>
     rs_header (serve (compress_ops gz ops)) = Header_Set (rs_header (serve ops)) HeaderContentEncoding EncodingGzip)"
  by (rule compress_ops_serve [of gz ops]) (use assms in \<open>auto simp: gzip_correct_def\<close>)

definition demo_gzip :: gzip_lib where
  "demo_gzip =
     \<lparr>gzip_compress = (\<lambda>cs. ''gz'' @ concat cs),
      gzip_NewReader = (\<lambda>b. if prefix ''gz'' (fst b) then Inr (drop 2 (fst b), snd b) else Inl (LibError ''gzip: invalid header''))\<rparr>"

lemma demo_gzip_correct: "gzip_correct demo_gzip"
  by (simp add: gzip_correct_def demo_gzip_def)

theorem gzip_response_transparent_witness:
  "gzip_correct demo_gzip \<and> rs_status (serve (compress_ops demo_gzip [SetHeader HeaderContentType ContentTypeJSON, WriteHeader 404, WriteBody ''{}''])) = 404"
  using gzip_response_transparent [OF demo_gzip_correct, of "[SetHeader HeaderContentType ContentTypeJSON, WriteHeader 404, WriteBody ''{}'']"]
    demo_gzip_correct by simp

text \<open>
  Logging is invisible: the client of a logged handler gets exactly the response, or the abort,
  of the handler itself, and the log entry is the only addition to the world.
\<close>

theorem logging_transparent:
  "fst (respond (WithLogging l next) r w) = fst (respond next r w) \<and>
   (case next r w of
      (Return ops, w') \<Rightarrow> (\<exists>e. snd (respond (WithLogging l next) r w) = l e w')
    | (Panic p, w') \<Rightarrow> snd (respond (WithLogging l next) r w) = w')"
  by (auto simp: respond_def WithLogging_def Let_def split: prod.splits outcome.splits)

text \<open>The guard of the subnet through the whole stack: no layer changes the address header.\<close>

definition same_origin :: "http_request \<Rightarrow> http_request \<Rightarrow> bool" where
  "same_origin r r' \<longleftrightarrow> rq_method r' = rq_method r \<and> rq_uri r' = rq_uri r \<and>
     Header_Get (rq_header r') HeaderRealIP = Header_Get (rq_header r) HeaderRealIP"

lemma same_origin_body: "same_origin r r' \<Longrightarrow> same_origin r (r'\<lparr>rq_body := b\<rparr>)"
  by (simp add: same_origin_def)

lemma same_origin_decrypt: "decryptRequestBody cr priv b r' = Inr r'' \<Longrightarrow> same_origin r r' \<Longrightarrow> same_origin r r''"
  by (auto simp: decryptRequestBody_def same_origin_def Header_Get_def Header_Del_def split: sum.splits)

definition inert :: "http_request \<Rightarrow> 'w http_handler \<Rightarrow> bool" where
  "inert r h \<longleftrightarrow> (\<forall>r' w. same_origin r r' \<longrightarrow> snd (h r' w) = w)"

lemma run_world:
  "snd (case x of (Panic p, w') \<Rightarrow> (Panic p, w') | (Return ops, w') \<Rightarrow> (Return (f ops), w')) = snd x"
  by (auto split: prod.splits outcome.splits)

lemma rq_body_self: "r\<lparr>rq_body := rq_body r\<rparr> = r"
  by simp

lemma gzip_world:
  obtains (kept) "snd (WithGzip gz h r w) = w" | (ran) b where "snd (WithGzip gz h r w) = snd (h (r\<lparr>rq_body := b\<rparr>) w)"
proof (cases "strings_Contains (strings_ToLower (Header_Get (rq_header r) HeaderContentEncoding)) EncodingGzip")
  case False
  then show ?thesis using ran [of "rq_body r"] by (simp add: WithGzip_def Let_def run_world)
next
  case True
  show ?thesis
  proof (cases "rq_body r")
    case (Some b)
    then show ?thesis
      using True kept ran by (cases "newCompressReader gz b") (auto simp: WithGzip_def Let_def run_world)
  qed (use True kept in \<open>simp add: WithGzip_def Let_def\<close>)
qed

lemma inert_gzip: "inert r h \<Longrightarrow> inert r (WithGzip gz h)"
  unfolding inert_def by (metis gzip_world same_origin_body)

lemma inert_decryption: "inert r h \<Longrightarrow> inert r (WithDecryption cr k h)"
  unfolding inert_def WithDecryption_def Let_def
  by (auto split: option.splits sum.splits dest: same_origin_decrypt)

lemma hash_world:
  obtains (kept) "snd (WithHash ord key h r w) = w" | (ran) b where "snd (WithHash ord key h r w) = snd (h (r\<lparr>rq_body := b\<rparr>) w)"
proof (cases "key = []")
  case True
  then show ?thesis using ran [of "rq_body r"] by (simp add: WithHash_def)
next
  case key: False
  show ?thesis
  proof (cases "rq_body r")
    case None
    have "snd (WithHash ord key h r w) = snd (h r w)"
      using key None by (simp add: WithHash_def Let_def run_world)
    then show ?thesis using ran [of "rq_body r"] by simp
  next
    case (Some b)
    show ?thesis
    proof (cases "io_ReadAll b")
      case (Inr body)
      then show ?thesis
        using Some key kept ran [of "Some (body, None)"]
        by (cases "Header_Get (rq_header r) HeaderHashSHA256 \<noteq> [] \<and>
            Header_Get (rq_header r) HeaderHashSHA256 \<noteq> CalcHash body key")
          (simp_all add: WithHash_def Let_def run_world)
    qed (use Some key kept in \<open>simp add: WithHash_def Let_def\<close>)
  qed
qed

lemma inert_hash: "inert r h \<Longrightarrow> inert r (WithHash ord key h)"
  unfolding inert_def by (metis hash_world same_origin_body)

text \<open>
  C13: With a trusted subnet configured, a request to an update endpoint whose \<^verbatim>\<open>X-Real-IP\<close> is missing,
  malformed or outside the subnet changes nothing, whatever signature, encryption or compression it
  carries: the world after the whole middleware stack differs at most by the log entry.
\<close>

theorem router_subnet_guard:
  assumes "TrustedSubnet opts = Some n"
    and "case ParseIP (Header_Get (rq_header r) HeaderRealIP) of None \<Rightarrow> True | Some ip \<Rightarrow> \<not> IPNet_Contains n ip"
    and "\<forall>r'. same_origin r r' \<longrightarrow>
      (\<exists>ep ps. env_route env r' = Inr (ep, ps) \<and> ep \<in> {EpUpdate, EpUpdatesJSON, EpUpdateJSON})"
  shows "snd (router_New env h l opts r w) = w \<or> (\<exists>e. snd (router_New env h l opts r w) = l e w)"
proof -
  have guard: "snd (WithTrustedSubnet (Some n) nx (r'\<lparr>rq_params := ps\<rparr>) w) = w" if "same_origin r r'" for nx r' ps w
    using assms(2) that by (auto simp: WithTrustedSubnet_def same_origin_def split: option.splits)
  have "inert r (routes env h (Some n))"
    unfolding inert_def
  proof (intro allI impI)
    fix r' w assume so: "same_origin r r'"
    then obtain ep ps where ep: "env_route env r' = Inr (ep, ps)" "ep \<in> {EpUpdate, EpUpdatesJSON, EpUpdateJSON}"
      using assms(3) by blast
    from ep(2) show "snd (routes env h (Some n) r' w) = w"
      by (elim insertE) (auto simp: routes_def ep(1) guard [OF so])
  qed
  then have inert: "inert r (let base = WithGzip (env_gzip env) (routes env h (TrustedSubnet opts));
      decrypted = (if PrivateKey opts \<noteq> None then WithDecryption (env_crypto env) (PrivateKey opts) base else base)
      in if HashKey opts \<noteq> [] then WithHash (env_headers env) (HashKey opts) decrypted else decrypted)"
    (is "inert r ?stack")
    using assms(1) by (simp add: Let_def inert_gzip inert_decryption inert_hash)
  have "router_New env h l opts = WithLogging l ?stack" by (simp add: router_New_def Let_def)
  moreover have "snd (?stack r w) = w" using inert by (simp add: inert_def same_origin_def)
  moreover have "snd (WithLogging l nx r w) = snd (nx r w) \<or> (\<exists>e. snd (WithLogging l nx r w) = l e (snd (nx r w)))" for nx
    by (auto simp: WithLogging_def Let_def split: prod.splits outcome.splits)
  ultimately show ?thesis by metis
qed


definition demo_env :: "(unit, unit) http_env" where
  "demo_env =
     \<lparr>env_crypto = demo_crypto, env_gzip = demo_gzip, env_route = (\<lambda>r. Inr (EpUpdatesJSON, \<lambda>_. [])),
      env_headers = sorted_range, env_gauges = sorted_range, env_counters = sorted_range\<rparr>"

theorem router_subnet_guard_witness:
  "snd (router_New demo_env (mem_handler null_auditor (\<lambda>_ x. x)) (\<lambda>_ w. w)
      \<lparr>HashKey = ''key'', PrivateKey = None, TrustedSubnet = Some (ipv4_net [10, 0, 0, 0] 8)\<rparr>
      (json_post ''[]'') (demo_storage, ())) = (demo_storage, ())"
proof -
  let ?opts = "\<lparr>HashKey = ''key'', PrivateKey = None, TrustedSubnet = Some (ipv4_net [10, 0, 0, 0] 8)\<rparr> :: (unit, unit) Options"
  have ip: "Header_Get (rq_header (json_post ''[]'')) HeaderRealIP = []" by (simp add: json_post_def Header_Get_def)
  have "ParseIP [] = None" by (simp add: ParseIP_def ParseAddr_def)
  then have "snd (router_New demo_env (mem_handler null_auditor (\<lambda>_ x. x)) (\<lambda>_ w. w) ?opts (json_post ''[]'') (demo_storage, ())) =
      (demo_storage, ()) \<or>
    (\<exists>e::log_entry. snd (router_New demo_env (mem_handler null_auditor (\<lambda>_ x. x)) (\<lambda>_ w. w) ?opts (json_post ''[]'') (demo_storage, ())) =
      (demo_storage, ()))"
    using router_subnet_guard [of ?opts "ipv4_net [10, 0, 0, 0] 8" "json_post ''[]''" demo_env
        "mem_handler null_auditor (\<lambda>_ x. x)" "\<lambda>_ w. w" "(demo_storage, ())"] ip
    by (simp add: demo_env_def)
  then show ?thesis by blast
qed

end
