(* ===== verification/Retry.thy ===== *)
theory Retry
  imports Prelude
begin

text \<open>
  The retry loop that the HTTP sender, the gRPC sender and the PostgreSQL storage each write out: try,
  and while the error is retriable and delays are left, wait and try again. An attempt gives an error
  or a result; waiting ends with \<^term>\<open>None\<close> when the timer fired, or with the error of the context.

  Two contracts are stated as locales: attempts that leave a trace, which bounds how often the loop
  tries, and attempts that fail without an effect, which makes the loop take effect exactly once.
\<close>

fun retry_loop ::
    "('n \<Rightarrow> (goerr + 'a) \<times> 'n) \<Rightarrow> (goerr \<Rightarrow> bool) \<Rightarrow> (nat \<Rightarrow> 'n \<Rightarrow> goerr option \<times> 'n) \<Rightarrow> nat list \<Rightarrow>
       'n \<Rightarrow> (goerr + 'a) \<times> 'n" where
  "retry_loop attempt retriable wait [] n = attempt n"
| "retry_loop attempt retriable wait (d # ds) n =
     (case attempt n of
        (Inr x, n') \<Rightarrow> (Inr x, n')
      | (Inl e, n') \<Rightarrow>
          if \<not> retriable e then (Inl e, n')
          else (case wait d n' of
              (Some e', n'') \<Rightarrow> (Inl e', n'')
            | (None, n'') \<Rightarrow> retry_loop attempt retriable wait ds n''))"

definition retryDelays :: "nat list" where
  "retryDelays = [1, 3, 5]"

lemma length_retryDelays [simp]: "length retryDelays = 3"
  by (simp add: retryDelays_def)

locale logged_attempts =
  fixes attempt :: "'n \<Rightarrow> (goerr + 'a) \<times> 'n"
    and retriable :: "goerr \<Rightarrow> bool"
    and wait :: "nat \<Rightarrow> 'n \<Rightarrow> goerr option \<times> 'n"
    and trace :: "'n \<Rightarrow> 'e list"
    and entry :: 'e
  assumes attempt_logs: "attempt n = (r, n') \<Longrightarrow> trace n' = trace n @ [entry]"
    and wait_free: "wait d n = (e, n') \<Longrightarrow> trace n' = trace n"
begin

lemma retry_trace:
  assumes "retry_loop attempt retriable wait ds n = (r, n')"
  shows "\<exists>k. 1 \<le> k \<and> k \<le> length ds + 1 \<and> trace n' = trace n @ replicate k entry"
  using assms
proof (induction ds arbitrary: n)
  case Nil
  then show ?case using attempt_logs by (intro exI [of _ 1]) simp
next
  case (Cons d ds)
  obtain r1 n1 where a: "attempt n = (r1, n1)" by force
  obtain e n2 where w: "wait d n1 = (e, n2)" by force
  from attempt_logs [OF a] wait_free [OF w] have t: "trace n1 = trace n @ [entry]" "trace n2 = trace n @ [entry]" by simp_all
  consider "n' = n1" | "n' = n2" | "retry_loop attempt retriable wait ds n2 = (r, n')"
    using Cons.prems a w by (auto split: sum.splits if_splits option.splits)
  then show ?case
  proof cases
    case 3
    from Cons.IH [OF 3] obtain k where "1 \<le> k" "k \<le> length ds + 1" "trace n' = trace n @ replicate (Suc k) entry"
      using t by auto
    then show ?thesis by (intro exI [of _ "Suc k"]) simp
  qed (use t in \<open>auto intro!: exI [of _ 1]\<close>)
qed

end

locale effective_attempts =
  fixes attempt :: "'n \<Rightarrow> (goerr + 'a) \<times> 'n"
    and retriable :: "goerr \<Rightarrow> bool"
    and wait :: "nat \<Rightarrow> 'n \<Rightarrow> goerr option \<times> 'n"
    and view :: "'n \<Rightarrow> 'v"
    and eff :: "'v \<Rightarrow> 'a \<times> 'v"
    and invar :: "'n \<Rightarrow> bool"
  assumes attempt_fails: "invar n \<Longrightarrow> attempt n = (Inl e, n') \<Longrightarrow> invar n' \<and> view n' = view n"
    and attempt_works: "invar n \<Longrightarrow> attempt n = (Inr x, n') \<Longrightarrow> invar n' \<and> (x, view n') = eff (view n)"
    and wait_keeps: "invar n \<Longrightarrow> wait d n = (e', n') \<Longrightarrow> invar n' \<and> view n' = view n"
begin

lemma retry_exactly_once:
  assumes "retry_loop attempt retriable wait ds n = (r, n')" "invar n"
  shows "invar n' \<and> (case r of Inl e \<Rightarrow> view n' = view n | Inr x \<Rightarrow> (x, view n') = eff (view n))"
  using assms
proof (induction ds arbitrary: n)
  case Nil
  then show ?case using attempt_fails [of n _ n'] attempt_works [of n _ n'] by (cases r) simp_all
next
  case (Cons d ds)
  obtain r1 n1 where a: "attempt n = (r1, n1)" by force
  show ?case
  proof (cases r1)
    case (Inr x)
    then show ?thesis using Cons.prems a attempt_works [of n x n'] by (cases r) simp_all
  next
    case (Inl e)
    obtain e' n2 where w: "wait d n1 = (e', n2)" by force
    have n1: "invar n1" "view n1 = view n" using attempt_fails [OF Cons.prems(2)] a Inl by simp_all
    with wait_keeps [OF n1(1) w] have n2: "invar n2" "view n2 = view n" by simp_all
    show ?thesis
      using Cons.prems(1) Cons.IH [of n2] a Inl w n1 n2
      by (cases r) (auto split: if_splits option.splits)
  qed
qed

end

text \<open>
  When the loop gives a result: after a number of retriable failures that the delays allow. The
  outcomes are those of a fixed script of attempts, with waits that are not interrupted.
\<close>

definition script_attempt :: "('b \<Rightarrow> goerr + 'a) \<Rightarrow> 'b list \<Rightarrow> (goerr + 'a) \<times> 'b list" where
  "script_attempt f rs = (f (hd rs), tl rs)"

lemma script_attempt_Cons [simp]: "script_attempt f (r # rs) = (f r, rs)"
  by (simp add: script_attempt_def)

lemma retry_script:
  assumes "length ds < length rs"
  shows "(\<exists>x. fst (retry_loop (script_attempt f) retriable (\<lambda>d n. (None, n)) ds rs) = Inr x) \<longleftrightarrow>
    (\<exists>i \<le> length ds. (\<exists>x. f (rs ! i) = Inr x) \<and> (\<forall>j < i. \<exists>e. f (rs ! j) = Inl e \<and> retriable e))"
  using assms
proof (induction ds arbitrary: rs)
  case Nil
  then show ?case by (cases rs) (auto simp: script_attempt_def)
next
  case (Cons d ds)
  then obtain r rs' where rs: "rs = r # rs'" by (cases rs) auto
  have IH: "(\<exists>x. fst (retry_loop (script_attempt f) retriable (\<lambda>d n. (None, n)) ds rs') = Inr x) \<longleftrightarrow>
    (\<exists>i \<le> length ds. (\<exists>x. f (rs' ! i) = Inr x) \<and> (\<forall>j < i. \<exists>e. f (rs' ! j) = Inl e \<and> retriable e))"
    using Cons rs by simp
  show ?case
  proof (cases "f r")
    case (Inr x)
    then show ?thesis using rs by (auto intro!: exI [of _ 0])
  next
    case (Inl e)
    have shift: "(\<exists>i \<le> length (d # ds). (\<exists>x. f (rs ! i) = Inr x) \<and> (\<forall>j < i. \<exists>e. f (rs ! j) = Inl e \<and> retriable e)) \<longleftrightarrow>
      retriable e \<and> (\<exists>i \<le> length ds. (\<exists>x. f (rs' ! i) = Inr x) \<and> (\<forall>j < i. \<exists>e. f (rs' ! j) = Inl e \<and> retriable e))"
      (is "?L \<longleftrightarrow> ?R")
    proof
      assume ?L
      then obtain i x where i: "i \<le> length (d # ds)" "f (rs ! i) = Inr x" "\<forall>j < i. \<exists>e. f (rs ! j) = Inl e \<and> retriable e" by blast
      then obtain k where k: "i = Suc k" using rs Inl by (cases i) auto
      have "retriable e" using i(3) k rs Inl by auto
      moreover have "f (rs' ! k) = Inr x" "k \<le> length ds" using i k rs by auto
      moreover have "\<forall>j < k. \<exists>e. f (rs' ! j) = Inl e \<and> retriable e" using i(3) k rs by fastforce
      ultimately show ?R by blast
    next
      assume ?R
      then obtain i x where "retriable e" "i \<le> length ds" "f (rs' ! i) = Inr x" "\<forall>j < i. \<exists>e. f (rs' ! j) = Inl e \<and> retriable e" by blast
      then show ?L using rs Inl by (intro exI [of _ "Suc i"]) (auto simp: nth_Cons split: nat.splits)
    qed
    show ?thesis using IH rs Inl unfolding shift by simp
  qed
qed

end
