(* ===== verification/Proto.thy ===== *)
theory Proto
  imports Storage
begin

text \<open>
  What the two gRPC sides share: the messages of \<^verbatim>\<open>src/api/metrics.proto\<close> as the generated code exposes
  them, status codes, and metadata (\<^verbatim>\<open>src/internal/protocol/metadata.go\<close>). The transport between client
  and server is not modelled here.
\<close>

record pb_Metric =
  pb_Id :: string
  pb_Type :: int
  pb_Delta :: int64
  pb_Value :: float64

definition Metric_GAUGE :: int where
  "Metric_GAUGE = 0"

definition Metric_COUNTER :: int where
  "Metric_COUNTER = 1"

text \<open>A request holds pointers to metrics, which may be nil.\<close>

type_synonym UpdateMetricsRequest = "pb_Metric option list"

text \<open>\<^verbatim>\<open>status.Code(err)\<close>: the code of a status error in the tree of the error, else \<^verbatim>\<open>Unknown\<close>.\<close>

fun status_of :: "goerr \<Rightarrow> grpc_code option" where
  "status_of (StatusError c _) = Some c"
| "status_of _ = None"

definition status_Code :: "goerr option \<Rightarrow> grpc_code" where
  "status_Code err =
     (case err of
        None \<Rightarrow> OK
      | Some e \<Rightarrow> (case errors_As status_of e of Some c \<Rightarrow> c | None \<Rightarrow> Unknown))"

subsection \<open>Metadata\<close>

type_synonym MD = "string \<rightharpoonup> string list"

definition MetadataRealIP :: string where
  "MetadataRealIP = ''x-real-ip''"

definition MD_Set :: "MD \<Rightarrow> string \<Rightarrow> string list \<Rightarrow> MD" where
  "MD_Set md k vs = (if vs = [] then md else md(map ascii_lower k \<mapsto> vs))"

definition MD_Get :: "MD \<Rightarrow> string \<Rightarrow> string list" where
  "MD_Get md k = (case md (map ascii_lower k) of None \<Rightarrow> [] | Some vs \<Rightarrow> vs)"

lemma MD_Get_Set [simp]: "vs \<noteq> [] \<Longrightarrow> MD_Get (MD_Set md k vs) k = vs"
  by (simp add: MD_Get_def MD_Set_def)

end
