(* ===== verification/AgentTransport.thy ===== *)
theory AgentTransport
  imports Middleware AgentService Retry Proto
begin

text \<open>
  The two senders of the agent (\<^verbatim>\<open>src/internal/agent/transport/\<close>): one posts a batch as JSON, compressed,
  optionally encrypted and signed; the other calls \<^verbatim>\<open>Metrics.UpdateMetrics\<close>. Both put the first
  non-loopback IPv4 address of the host into the request and retry up to three times.

  The network, the wait for a timer or for the end of the context, the interface addresses and the
  random generator are given by a record of functions on the world \<open>'n\<close>. The HTTP client library adds
  headers of its own, which are left out. An error that implements \<^verbatim>\<open>net.Error\<close>, as every
  \<^verbatim>\<open>*url.Error\<close> does, is a \<open>NetError\<close> or the deadline error of the context.

  The main facts: at most four attempts, all with the same request; which outcomes lead to another
  attempt; and, for gRPC, that conversion to messages loses nothing that the server's conversion
  cannot bring back.
\<close>

subsection \<open>The local address\<close>

datatype iface_addr = AddrIPNet IP | AddrOther

definition IsLoopback :: "IP \<Rightarrow> bool" where
  "IsLoopback ip =
     (case To4 ip of Some ip4 \<Rightarrow> ip4 ! 0 = 127 | None \<Rightarrow> ip = replicate 15 0 @ [1])"

definition IPv4_String :: "IP \<Rightarrow> string" where
  "IPv4_String ip = join_with (CHR ''.'') (map (\<lambda>b. format_nat (unat b)) ip)"

fun first_local_ip :: "iface_addr list \<Rightarrow> goerr + string" where
  "first_local_ip [] = Inl (ErrorNew ''local IPv4 address not found'')"
| "first_local_ip (AddrOther # addrs) = first_local_ip addrs"
| "first_local_ip (AddrIPNet ip # addrs) =
     (if IsLoopback ip then first_local_ip addrs
      else case To4 ip of Some ip4 \<Rightarrow> Inr (IPv4_String ip4) | None \<Rightarrow> first_local_ip addrs)"

definition LocalIP :: "goerr + iface_addr list \<Rightarrow> goerr + string" where
  "LocalIP addrs =
     (case addrs of
        Inl err \<Rightarrow> Inl (ErrorfW ''get interface addresses: %w'' [] err)
      | Inr as \<Rightarrow> first_local_ip as)"

subsection \<open>The HTTP sender\<close>

record client_request =
  cr_url :: string
  cr_header :: header
  cr_body :: bytes

text \<open>The case that the select of a wait takes: the context has ended, with its error, or the timer has fired.\<close>

datatype wait_case = CtxDone goerr | TimerC

record 'n agent_io =
  io_post :: "client_request \<Rightarrow> 'n \<Rightarrow> (goerr + int) \<times> 'n"
  io_update :: "MD \<Rightarrow> UpdateMetricsRequest \<Rightarrow> 'n \<Rightarrow> goerr option \<times> 'n"
  io_wait :: "nat \<Rightarrow> 'n \<Rightarrow> wait_case \<times> 'n"
  io_addrs :: "'n \<Rightarrow> goerr + iface_addr list"
  io_rand :: "nat \<Rightarrow> 'n \<Rightarrow> goerr + bytes"

record 'pub HTTPSender =
  baseURL :: string
  hashKey :: string
  publicKey :: "'pub option"

definition NewHTTPSender ::
    "('pub, 'priv) x509 \<Rightarrow> filesystem \<Rightarrow> string \<Rightarrow> string \<Rightarrow> string \<Rightarrow> goerr + 'pub HTTPSender" where
  "NewHTTPSender x fs serverAddr hkey cryptoKey =
     (let url = (if \<not> strings_Contains serverAddr ''://'' then ''http://'' @ serverAddr else serverAddr)
      in if cryptoKey \<noteq> [] then
           (case LoadPublicKey x cryptoKey fs of
              Inl err \<Rightarrow> Inl (ErrorfW ''load public key: %w'' [] err)
            | Inr k \<Rightarrow> Inr \<lparr>baseURL = url, hashKey = hkey, publicKey = Some k\<rparr>)
         else Inr \<lparr>baseURL = url, hashKey = hkey, publicKey = None\<rparr>)"

definition gzipCompress :: "gzip_lib \<Rightarrow> bytes \<Rightarrow> goerr + bytes" where
  "gzipCompress gz data = Inr (gzip_compress gz [data])"

definition prepareRequestBody :: "gzip_lib \<Rightarrow> Metrics list \<Rightarrow> goerr + bytes" where
  "prepareRequestBody gz metrics =
     (case metrics_list_Marshal metrics of
        Inl err \<Rightarrow> Inl (ErrorfW ''marshal metrics batch: %w'' [] err)
      | Inr body \<Rightarrow>
          (case gzipCompress gz body of
             Inl err \<Rightarrow> Inl (ErrorfW ''gzip compress metrics batch: %w'' [] err)
           | Inr compressedBody \<Rightarrow> Inr compressedBody))"

definition isRetriableStatusCode :: "int \<Rightarrow> bool" where
  "isRetriableStatusCode c \<longleftrightarrow> c = 429 \<or> (500 \<le> c \<and> c < 600)"

fun unexpected_status :: "goerr \<Rightarrow> int option" where
  "unexpected_status (UnexpectedStatus c) = Some c"
| "unexpected_status _ = None"

fun net_error :: "goerr \<Rightarrow> unit option" where
  "net_error (NetError _) = Some ()"
| "net_error ErrContextDeadlineExceeded = Some ()"
| "net_error _ = None"

definition isRetriableHTTPError :: "goerr \<Rightarrow> bool" where
  "isRetriableHTTPError err \<longleftrightarrow> errors_As net_error err \<noteq> None"

definition isRetriableSendError :: "goerr \<Rightarrow> bool" where
  "isRetriableSendError err \<longleftrightarrow>
     (case errors_As unexpected_status err of
        Some c \<Rightarrow> isRetriableStatusCode c
      | None \<Rightarrow> isRetriableHTTPError err)"

definition http_batch_request :: "'pub HTTPSender \<Rightarrow> string \<Rightarrow> bytes \<Rightarrow> string \<Rightarrow> string \<Rightarrow> client_request" where
  "http_batch_request s p body hashValue realIP =
     (let h = Header_Set (Header_Set (Header_Set Map.empty HeaderContentType ContentTypeJSON)
                HeaderContentEncoding EncodingGzip) HeaderRealIP realIP;
          h = (if publicKey s \<noteq> None then Header_Set h HeaderContentEncryption SchemeRSAOAEPWithAESGCM else h);
          h = (if hashValue \<noteq> [] then Header_Set h HeaderHashSHA256 hashValue else h)
      in \<lparr>cr_url = baseURL s @ p, cr_header = h, cr_body = body\<rparr>)"

definition sendAttempt ::
    "'n agent_io \<Rightarrow> 'pub HTTPSender \<Rightarrow> string \<Rightarrow> bytes \<Rightarrow> string \<Rightarrow> string \<Rightarrow> 'n \<Rightarrow> (goerr + unit) \<times> 'n" where
  "sendAttempt io s p body hashValue realIP n =
     (case io_post io (http_batch_request s p body hashValue realIP) n of
        (Inl err, n') \<Rightarrow> (Inl err, n')
      | (Inr code, n') \<Rightarrow> (if code \<noteq> 200 then Inl (UnexpectedStatus code) else Inr (), n'))"

text \<open>The wait between two attempts; the sending packages have one each.\<close>

definition waitRetry :: "'n agent_io \<Rightarrow> nat \<Rightarrow> 'n \<Rightarrow> goerr option \<times> 'n" where
  "waitRetry io delay n =
     (case io_wait io delay n of (CtxDone err, n') \<Rightarrow> (Some err, n') | (TimerC, n') \<Rightarrow> (None, n'))"

definition postWithRetry ::
    "'n agent_io \<Rightarrow> 'pub HTTPSender \<Rightarrow> string \<Rightarrow> bytes \<Rightarrow> string \<Rightarrow> 'n \<Rightarrow> (goerr + unit) \<times> 'n" where
  "postWithRetry io s p body hashValue n =
     (case LocalIP (io_addrs io n) of
        Inl err \<Rightarrow> (Inl (ErrorfW ''get local IP: %w'' [] err), n)
      | Inr realIP \<Rightarrow>
          retry_loop (sendAttempt io s p body hashValue realIP) isRetriableSendError (waitRetry io) retryDelays n)"

definition encrypt_body ::
    "('pub, 'priv) crypto \<Rightarrow> 'n agent_io \<Rightarrow> 'pub HTTPSender \<Rightarrow> bytes \<Rightarrow> 'n \<Rightarrow> goerr + bytes" where
  "encrypt_body cr io s body n =
     (if publicKey s \<noteq> None then
        (case Encrypt cr (io_rand io 32 n) (io_rand io gcm_NonceSize n) body (publicKey s) of
           Inl err \<Rightarrow> Inl (ErrorfW ''encrypt metrics batch: %w'' [] err)
         | Inr enc \<Rightarrow> Inr enc)
      else Inr body)"

definition HTTPSender_Send ::
    "('pub, 'priv) crypto \<Rightarrow> gzip_lib \<Rightarrow> 'n agent_io \<Rightarrow> 'pub HTTPSender \<Rightarrow> 'n MetricsSender" where
  "HTTPSender_Send cr gz io s metrics n =
     (case prepareRequestBody gz metrics of
        Inl err \<Rightarrow> (Some err, n)
      | Inr plain \<Rightarrow>
          (case encrypt_body cr io s plain n of
             Inl err \<Rightarrow> (Some err, n)
           | Inr body \<Rightarrow>
               (case postWithRetry io s ''/updates'' body (CalcHash body (hashKey s)) n of
                  (Inl err, n2) \<Rightarrow> (Some (ErrorfW ''send metrics batch: %w'' [] err), n2)
                | (Inr _, n2) \<Rightarrow> (None, n2))))"

subsection \<open>The gRPC sender\<close>

definition metricToProto :: "Metrics \<Rightarrow> goerr + pb_Metric" where
  "metricToProto metric =
     (if ID metric = [] then Inl (Errorf ''metric ID must not be empty'' [])
      else if MType metric = Gauge then
        (case Value metric of
           None \<Rightarrow> Inl (Errorf ''gauge metric %q has nil value'' [FStr (ID metric)])
         | Some v \<Rightarrow> Inr \<lparr>pb_Id = ID metric, pb_Type = Metric_GAUGE, pb_Delta = 0, pb_Value = v\<rparr>)
      else if MType metric = Counter then
        (case Delta metric of
           None \<Rightarrow> Inl (Errorf ''counter metric %q has nil delta'' [FStr (ID metric)])
         | Some d \<Rightarrow> Inr \<lparr>pb_Id = ID metric, pb_Type = Metric_COUNTER, pb_Delta = d, pb_Value = float64_of_nat 0\<rparr>)
      else Inl (Errorf ''metric %q has unknown type %q'' [FStr (ID metric), FStr (MType metric)]))"

fun request_loop :: "nat \<Rightarrow> Metrics list \<Rightarrow> goerr + UpdateMetricsRequest" where
  "request_loop i [] = Inr []"
| "request_loop i (metric # metrics) =
     (case metricToProto metric of
        Inl err \<Rightarrow> Inl (ErrorfW ''convert metric %d: %w'' [FInt (int i)] err)
      | Inr converted \<Rightarrow> map_sum id ((#) (Some converted)) (request_loop (Suc i) metrics))"

definition requestFromMetrics :: "Metrics list \<Rightarrow> goerr + UpdateMetricsRequest" where
  "requestFromMetrics metrics = request_loop 0 metrics"

definition contextWithRealIP :: "MD option \<Rightarrow> string \<Rightarrow> MD" where
  "contextWithRealIP out realIP =
     MD_Set (case out of Some md \<Rightarrow> md | None \<Rightarrow> Map.empty) MetadataRealIP [realIP]"

definition isRetriableGRPCError :: "goerr \<Rightarrow> bool" where
  "isRetriableGRPCError err \<longleftrightarrow>
     (if errors_Is err ErrContextCanceled \<or> errors_Is err ErrContextDeadlineExceeded then False
      else status_Code (Some err) \<in> {Unavailable, ResourceExhausted})"

text \<open>The connection of a sender: its credentials, and what closing it gives; a sender may have none.\<close>

datatype 'cred credentials = Insecure | ClientTLS 'cred

record ('cred, 'n) GRPCSender =
  gs_creds :: "'cred credentials"
  gs_closer :: "('n \<Rightarrow> goerr option \<times> 'n) option"
  gs_retryDelays :: "nat list"

definition newTransportCredentials :: "(string \<Rightarrow> goerr + 'cred) \<Rightarrow> string \<Rightarrow> goerr + 'cred credentials" where
  "newTransportCredentials NewClientTLSFromFile tlsCAPath =
     (if tlsCAPath = [] then Inr Insecure
      else case NewClientTLSFromFile tlsCAPath of
          Inl err \<Rightarrow> Inl (ErrorfW ''load gRPC TLS CA certificate %q: %w'' [FStr tlsCAPath] err)
        | Inr c \<Rightarrow> Inr (ClientTLS c))"

definition newGRPCSender :: "'cred credentials \<Rightarrow> ('n \<Rightarrow> goerr option \<times> 'n) option \<Rightarrow> ('cred, 'n) GRPCSender" where
  "newGRPCSender creds closer = \<lparr>gs_creds = creds, gs_closer = closer, gs_retryDelays = retryDelays\<rparr>"

definition NewGRPCSender ::
    "(string \<Rightarrow> goerr + 'cred) \<Rightarrow> (string \<Rightarrow> 'cred credentials \<Rightarrow> goerr + ('n \<Rightarrow> goerr option \<times> 'n)) \<Rightarrow>
       string \<Rightarrow> string \<Rightarrow> goerr + ('cred, 'n) GRPCSender" where
  "NewGRPCSender NewClientTLSFromFile NewClient serverAddr tlsCAPath =
     (if serverAddr = [] then Inl (Errorf ''server address must not be empty'' [])
      else case newTransportCredentials NewClientTLSFromFile tlsCAPath of
          Inl err \<Rightarrow> Inl err
        | Inr creds \<Rightarrow>
            (case NewClient serverAddr creds of
               Inl err \<Rightarrow> Inl (ErrorfW ''create gRPC client: %w'' [] err)
             | Inr close \<Rightarrow> Inr (newGRPCSender creds (Some close))))"

definition grpc_waitRetry :: "'n agent_io \<Rightarrow> nat \<Rightarrow> 'n \<Rightarrow> goerr option \<times> 'n" where
  "grpc_waitRetry io delay n =
     (case io_wait io delay n of (CtxDone err, n') \<Rightarrow> (Some err, n') | (TimerC, n') \<Rightarrow> (None, n'))"

definition GRPCSender_attempt :: "'n agent_io \<Rightarrow> MD \<Rightarrow> UpdateMetricsRequest \<Rightarrow> 'n \<Rightarrow> (goerr + unit) \<times> 'n" where
  "GRPCSender_attempt io md rq n =
     (case io_update io md rq n of (None, n') \<Rightarrow> (Inr (), n') | (Some err, n') \<Rightarrow> (Inl err, n'))"

definition GRPCSender_Send :: "'n agent_io \<Rightarrow> ('cred, 'n) GRPCSender \<Rightarrow> 'n MetricsSender" where
  "GRPCSender_Send io s metrics n =
     (case requestFromMetrics metrics of
        Inl err \<Rightarrow> (Some err, n)
      | Inr rq \<Rightarrow>
          (case LocalIP (io_addrs io n) of
             Inl err \<Rightarrow> (Some (ErrorfW ''get local IP: %w'' [] err), n)
           | Inr realIP \<Rightarrow>
               (case retry_loop (GRPCSender_attempt io (contextWithRealIP None realIP) rq)
                       isRetriableGRPCError (grpc_waitRetry io) (gs_retryDelays s) n of
                  (Inl err, n') \<Rightarrow> (Some (ErrorfW ''send metrics batch: %w'' [] err), n')
                | (Inr _, n') \<Rightarrow> (None, n'))))"

definition GRPCSender_Close :: "('cred, 'n) GRPCSender \<Rightarrow> 'n \<Rightarrow> goerr option \<times> 'n" where
  "GRPCSender_Close s n = (case gs_closer s of None \<Rightarrow> (None, n) | Some close \<Rightarrow> close n)"

subsection \<open>Attempts\<close>

text \<open>The same environment with a record of what was sent.\<close>

datatype sent = SentHTTP client_request | SentRPC MD UpdateMetricsRequest

definition traced :: "'n agent_io \<Rightarrow> ('n \<times> sent list) agent_io" where
  "traced io =
     \<lparr>io_post = (\<lambda>rq (n, tr). case io_post io rq n of (r, n') \<Rightarrow> (r, n', tr @ [SentHTTP rq])),
      io_update = (\<lambda>md rq (n, tr). case io_update io md rq n of (r, n') \<Rightarrow> (r, n', tr @ [SentRPC md rq])),
      io_wait = (\<lambda>d (n, tr). case io_wait io d n of (r, n') \<Rightarrow> (r, n', tr)),
      io_addrs = (\<lambda>(n, tr). io_addrs io n), io_rand = (\<lambda>k (n, tr). io_rand io k n)\<rparr>"

lemma traced_sel [simp]:
  "io_post (traced io) rq (n, tr) = (case io_post io rq n of (r, n') \<Rightarrow> (r, n', tr @ [SentHTTP rq]))"
  "io_update (traced io) md u (n, tr) = (case io_update io md u n of (r, n') \<Rightarrow> (r, n', tr @ [SentRPC md u]))"
  "io_wait (traced io) d (n, tr) = (case io_wait io d n of (r, n') \<Rightarrow> (r, n', tr))"
  "io_addrs (traced io) (n, tr) = io_addrs io n"
  "io_rand (traced io) k (n, tr) = io_rand io k n"
  by (simp_all add: traced_def)

interpretation http_attempts: logged_attempts
  "sendAttempt (traced io) s p body hv ip" isRetriableSendError "waitRetry (traced io)" snd
  "SentHTTP (http_batch_request s p body hv ip)" for io s p body hv ip
  by unfold_locales (auto simp: sendAttempt_def waitRetry_def split: prod.splits sum.splits wait_case.splits)

interpretation grpc_attempts: logged_attempts
  "GRPCSender_attempt (traced io) md rq" isRetriableGRPCError "grpc_waitRetry (traced io)" snd "SentRPC md rq" for io md rq
  by unfold_locales (auto simp: GRPCSender_attempt_def grpc_waitRetry_def split: prod.splits option.splits wait_case.splits)

lemma postWithRetry_trace:
  assumes "postWithRetry (traced io) s p body hv n = (r, n')"
  shows "(\<exists>e. r = Inl e) \<and> snd n' = snd n \<or>
    (\<exists>k ip. 1 \<le> k \<and> k \<le> 4 \<and> LocalIP (io_addrs io (fst n)) = Inr ip \<and>
       snd n' = snd n @ replicate k (SentHTTP (http_batch_request s p body hv ip)))"
proof (cases "LocalIP (io_addrs io (fst n))")
  case (Inl e)
  then show ?thesis using assms by (cases n) (auto simp: postWithRetry_def)
next
  case (Inr ip)
  then have "retry_loop (sendAttempt (traced io) s p body hv ip) isRetriableSendError (waitRetry (traced io)) retryDelays n = (r, n')"
    using assms by (cases n) (simp add: postWithRetry_def)
  from http_attempts.retry_trace [OF this] Inr show ?thesis by (auto simp: retryDelays_def)
qed

lemma http_sender_script:
  "io_post io rq = (\<lambda>rs. (hd rs, tl rs)) \<Longrightarrow> rq = http_batch_request s p body hv ip \<Longrightarrow>
   sendAttempt io s p body hv ip =
     script_attempt (\<lambda>r. case r of Inl e \<Rightarrow> Inl e | Inr c \<Rightarrow> if c \<noteq> 200 then Inl (UnexpectedStatus c) else Inr ())"
  by (auto simp: sendAttempt_def script_attempt_def fun_eq_iff split: sum.splits)

text \<open>A network whose answers are given in advance; the host has the one address 192.168.1.7.\<close>

definition script_io :: "((goerr + int) list) agent_io" where
  "script_io =
     \<lparr>io_post = (\<lambda>rq rs. (hd rs, tl rs)),
      io_update = (\<lambda>md rq rs. (case hd rs of Inl e \<Rightarrow> Some e | Inr _ \<Rightarrow> None, tl rs)),
      io_wait = (\<lambda>d rs. (TimerC, rs)), io_addrs = (\<lambda>rs. Inr [AddrIPNet [127, 0, 0, 1], AddrIPNet [192, 168, 1, 7]]),
      io_rand = (\<lambda>k rs. Inr (replicate k (CHR ''x'')))\<rparr>"

lemma script_io_sel [simp]:
  "io_post script_io rq = (\<lambda>rs. (hd rs, tl rs))"
  "io_update script_io md u = (\<lambda>rs. (case hd rs of Inl e \<Rightarrow> Some e | Inr _ \<Rightarrow> None, tl rs))"
  "io_wait script_io = (\<lambda>d rs. (TimerC, rs))"
  "io_addrs script_io = (\<lambda>rs. Inr [AddrIPNet [127, 0, 0, 1], AddrIPNet [192, 168, 1, 7]])"
  by (simp_all add: script_io_def)

lemma script_wait:
  "waitRetry script_io = (\<lambda>d n. (None, n))" "grpc_waitRetry script_io = (\<lambda>d n. (None, n))"
  by (simp_all add: waitRetry_def grpc_waitRetry_def fun_eq_iff)

lemma script_local_ip: "LocalIP (io_addrs script_io rs) = Inr ''192.168.1.7''"
proof -
  have "format_nat 192 = ''192''" "format_nat 168 = ''168''" "format_nat 1 = ''1''" "format_nat 7 = ''7''" by code_simp+
  then show ?thesis by (simp add: LocalIP_def IsLoopback_def To4_def IPv4_String_def)
qed

subsection \<open>Properties\<close>

text \<open>
  However the network behaves, one call of the HTTP sender posts at most four requests, all of
  them identical, and none when the batch cannot be encoded or encrypted or the host has no address;
  it succeeds only after at least one request.
\<close>

theorem http_send_bounded:
  assumes "HTTPSender_Send cr gz (traced io) s ms (n, tr) = (e, n', tr')"
  shows "\<exists>k rq. tr' = tr @ replicate k (SentHTTP rq) \<and> k \<le> 4 \<and> (e = None \<longrightarrow> 1 \<le> k)"
proof -
  consider (early) "tr' = tr" "e \<noteq> None" | (post) body r where
    "postWithRetry (traced io) s ''/updates'' body (CalcHash body (hashKey s)) (n, tr) = (r, n', tr')"
    "e = None \<longleftrightarrow> r = Inr ()"
    using assms by (auto simp: HTTPSender_Send_def encrypt_body_def split: sum.splits prod.splits if_splits option.splits)
  then show ?thesis
  proof cases
    case early
    then show ?thesis by (intro exI [of _ 0]) simp
  next
    case post
    from postWithRetry_trace [OF post(1)] show ?thesis
    proof (elim disjE exE conjE)
      fix err assume "r = Inl err" "snd (n', tr') = snd (n, tr)"
      with post(2) show ?thesis by (intro exI [of _ 0]) simp
    next
      fix k ip assume "1 \<le> k" "k \<le> 4"
        "snd (n', tr') = snd (n, tr) @ replicate k (SentHTTP (http_batch_request s ''/updates'' body (CalcHash body (hashKey s)) ip))"
      then show ?thesis by (intro exI [of _ k]) auto
    qed
  qed
qed

definition demo_sender :: "unit HTTPSender" where
  "demo_sender = \<lparr>baseURL = ''http://localhost:8080'', hashKey = [], publicKey = None\<rparr>"

lemma demo_send_body: "\<exists>body. prepareRequestBody demo_gzip [counter_metric ''PollCount'' 3] = Inr body"
proof -
  have "metrics_json (counter_metric ''PollCount'' 3) \<noteq> None" by (simp add: metrics_json_None)
  then show ?thesis by (auto simp: prepareRequestBody_def gzipCompress_def metrics_list_Marshal_def)
qed

theorem http_send_bounded_witness:
  "\<exists>e n' tr' k rq. HTTPSender_Send demo_crypto demo_gzip (traced script_io) demo_sender [counter_metric ''PollCount'' 3]
     ([Inr 503, Inr 200], []) = (e, n', tr') \<and> tr' = replicate k (SentHTTP rq) \<and> k \<le> 4"
proof -
  obtain e n' tr' where s: "HTTPSender_Send demo_crypto demo_gzip (traced script_io) demo_sender [counter_metric ''PollCount'' 3]
     ([Inr 503, Inr 200], []) = (e, n', tr')" by (metis prod_cases3)
  from http_send_bounded [OF s] s show ?thesis by auto
qed

text \<open>
  C17: The retry policy of the HTTP sender: with a network that answers with the given outcomes and
  waits that are not interrupted, sending an encodable batch without encryption succeeds exactly when
  one of the first four outcomes is status 200 and all before it are retriable, that is network
  errors or the statuses 429 and 500 to 599.
\<close>

theorem http_retry_policy:
  assumes "prepareRequestBody gz ms = Inr body" "publicKey s = None" "4 \<le> length outs"
  shows "fst (HTTPSender_Send cr gz script_io s ms outs) = None \<longleftrightarrow>
    (\<exists>i \<le> 3. outs ! i = Inr 200 \<and>
       (\<forall>j < i. case outs ! j of Inl e \<Rightarrow> isRetriableSendError e | Inr c \<Rightarrow> c = 429 \<or> 500 \<le> c \<and> c < 600))"
proof -
  let ?f = "\<lambda>r. case r of Inl e \<Rightarrow> Inl e | Inr c \<Rightarrow> if c \<noteq> 200 then Inl (UnexpectedStatus c) else Inr ()"
  have "fst (HTTPSender_Send cr gz script_io s ms outs) = None \<longleftrightarrow>
      (\<exists>x. fst (retry_loop (script_attempt ?f) isRetriableSendError (\<lambda>d n. (None, n)) retryDelays outs) = Inr x)"
    using assms(1,2)
    by (auto simp: HTTPSender_Send_def encrypt_body_def postWithRetry_def script_local_ip [simplified] script_wait
        http_sender_script [OF script_io_sel(1) refl] split: sum.splits prod.splits)
  also have "\<dots> \<longleftrightarrow> (\<exists>i \<le> length retryDelays. (\<exists>x. ?f (outs ! i) = Inr x) \<and>
      (\<forall>j < i. \<exists>e. ?f (outs ! j) = Inl e \<and> isRetriableSendError e))"
    by (rule retry_script) (use assms(3) in \<open>simp add: retryDelays_def\<close>)
  finally have run: "fst (HTTPSender_Send cr gz script_io s ms outs) = None \<longleftrightarrow>
      (\<exists>i \<le> length retryDelays. (\<exists>x. ?f (outs ! i) = Inr x) \<and>
        (\<forall>j < i. \<exists>e. ?f (outs ! j) = Inl e \<and> isRetriableSendError e))" .
  have ok: "(\<exists>x. ?f r = Inr x) \<longleftrightarrow> r = Inr 200" for r :: "goerr + int"
    by (auto split: sum.splits)
  have again: "(\<exists>e. ?f r = Inl e \<and> isRetriableSendError e) \<longleftrightarrow>
      (case r of Inl e \<Rightarrow> isRetriableSendError e | Inr c \<Rightarrow> c = 429 \<or> 500 \<le> c \<and> c < 600)" for r :: "goerr + int"
    by (auto simp: isRetriableSendError_def isRetriableStatusCode_def split: sum.splits)
  show ?thesis unfolding run ok again by simp
qed

theorem http_retry_policy_witness:
  "fst (HTTPSender_Send demo_crypto demo_gzip script_io demo_sender [counter_metric ''PollCount'' 3]
      [Inr 503, Inl (NetError ''refused''), Inr 200, Inr 200]) = None \<and>
   fst (HTTPSender_Send demo_crypto demo_gzip script_io demo_sender [counter_metric ''PollCount'' 3]
      [Inr 400, Inr 200, Inr 200, Inr 200]) \<noteq> None"
proof -
  obtain body where b: "prepareRequestBody demo_gzip [counter_metric ''PollCount'' 3] = Inr body"
    using demo_send_body by blast
  have k: "publicKey demo_sender = None" by (simp add: demo_sender_def)
  have "\<exists>i \<le> (3 :: nat). [Inr 503, Inl (NetError ''refused''), Inr 200, Inr 200] ! i = (Inr 200 :: goerr + int) \<and>
     (\<forall>j < i. case [Inr 503, Inl (NetError ''refused''), Inr 200, Inr (200 :: int)] ! j of
        Inl e \<Rightarrow> isRetriableSendError e | Inr c \<Rightarrow> c = 429 \<or> 500 \<le> c \<and> c < 600)"
    by (intro exI [of _ 2]) (auto simp: isRetriableSendError_def isRetriableHTTPError_def less_2_cases_iff)
  moreover have "\<not> (\<exists>i \<le> (3 :: nat). [Inr 400, Inr 200, Inr 200, Inr 200] ! i = (Inr 200 :: goerr + int) \<and>
     (\<forall>j < i. case [Inr 400, Inr 200, Inr 200, Inr (200 :: int)] ! j of
        Inl e \<Rightarrow> isRetriableSendError e | Inr c \<Rightarrow> c = 429 \<or> 500 \<le> c \<and> c < 600))"
  proof (rule notI, elim exE conjE)
    fix i assume i: "[Inr 400, Inr 200, Inr 200, Inr 200] ! i = (Inr 200 :: goerr + int)"
      and j: "\<forall>j < i. case [Inr 400, Inr 200, Inr 200, Inr (200 :: int)] ! j of
        Inl e \<Rightarrow> isRetriableSendError e | Inr c \<Rightarrow> c = 429 \<or> 500 \<le> c \<and> c < 600"
    from i have "0 < i" by (cases i) auto
    with j show False by (auto dest: spec [of _ 0])
  qed
  ultimately show ?thesis
    using http_retry_policy [OF b k, of "[Inr 503, Inl (NetError ''refused''), Inr 200, Inr 200]" demo_crypto]
      http_retry_policy [OF b k, of "[Inr 400, Inr 200, Inr 200, Inr 200]" demo_crypto] by simp
qed

text \<open>
  The retry policy of the gRPC sender: with a network that answers with the given outcomes and
  waits that are not interrupted, a convertible batch is sent successfully exactly when one of the
  first four calls succeeds after failures that are retriable: status \<^verbatim>\<open>Unavailable\<close> or
  \<^verbatim>\<open>ResourceExhausted\<close>, and not the end of the context.
\<close>

theorem grpc_retry_policy:
  assumes "requestFromMetrics ms = Inr rq" "gs_retryDelays s = retryDelays" "4 \<le> length outs"
  shows "fst (GRPCSender_Send script_io s ms outs) = None \<longleftrightarrow>
    (\<exists>i \<le> 3. (\<exists>c. outs ! i = Inr c) \<and> (\<forall>j < i. \<exists>e. outs ! j = Inl e \<and> isRetriableGRPCError e))"
proof -
  let ?f = "\<lambda>r :: goerr + int. case r of Inl e \<Rightarrow> Inl e | Inr c \<Rightarrow> Inr ()"
  have at: "GRPCSender_attempt script_io md rq = script_attempt ?f" for md
    by (auto simp: GRPCSender_attempt_def script_attempt_def fun_eq_iff split: sum.splits)
  have "fst (GRPCSender_Send script_io s ms outs) = None \<longleftrightarrow>
      (\<exists>x. fst (retry_loop (script_attempt ?f) isRetriableGRPCError (\<lambda>d n. (None, n)) retryDelays outs) = Inr x)"
    using assms(1,2)
    by (auto simp: GRPCSender_Send_def script_local_ip [simplified] script_wait at split: sum.splits prod.splits)
  also have "\<dots> \<longleftrightarrow> (\<exists>i \<le> length retryDelays. (\<exists>x. ?f (outs ! i) = Inr x) \<and>
      (\<forall>j < i. \<exists>e. ?f (outs ! j) = Inl e \<and> isRetriableGRPCError e))"
    by (rule retry_script) (use assms(3) in \<open>simp add: retryDelays_def\<close>)
  finally have run: "fst (GRPCSender_Send script_io s ms outs) = None \<longleftrightarrow>
      (\<exists>i \<le> length retryDelays. (\<exists>x. ?f (outs ! i) = Inr x) \<and>
        (\<forall>j < i. \<exists>e. ?f (outs ! j) = Inl e \<and> isRetriableGRPCError e))" .
  have ok: "(\<exists>x. ?f r = Inr x) \<longleftrightarrow> (\<exists>c. r = Inr c)" for r by (auto split: sum.splits)
  have again: "(\<exists>e. ?f r = Inl e \<and> isRetriableGRPCError e) \<longleftrightarrow> (\<exists>e. r = Inl e \<and> isRetriableGRPCError e)" for r
    by (auto split: sum.splits)
  show ?thesis unfolding run ok again by simp
qed

theorem grpc_retry_policy_witness:
  "fst (GRPCSender_Send script_io (newGRPCSender Insecure None :: (unit, (goerr + int) list) GRPCSender) [counter_metric ''PollCount'' 3]
      [Inl (StatusError Unavailable []), Inr 0, Inr 0, Inr 0]) = None"
proof -
  have r: "requestFromMetrics [counter_metric ''PollCount'' 3] =
      Inr [Some \<lparr>pb_Id = ''PollCount'', pb_Type = Metric_COUNTER, pb_Delta = 3, pb_Value = float64_of_nat 0\<rparr>]"
    by (simp add: requestFromMetrics_def metricToProto_def)
  have "\<exists>i \<le> (3 :: nat). (\<exists>c. [Inl (StatusError Unavailable []), Inr 0, Inr 0, Inr (0 :: int)] ! i = Inr c) \<and>
      (\<forall>j < i. \<exists>e. [Inl (StatusError Unavailable []), Inr 0, Inr 0, Inr (0 :: int)] ! j = Inl e \<and> isRetriableGRPCError e)"
    by (intro exI [of _ 1]) (simp add: isRetriableGRPCError_def status_Code_def)
  moreover have "gs_retryDelays (newGRPCSender Insecure None :: (unit, (goerr + int) list) GRPCSender) = retryDelays"
    by (simp add: newGRPCSender_def)
  ultimately show ?thesis
    using grpc_retry_policy [OF r, of "newGRPCSender Insecure None :: (unit, (goerr + int) list) GRPCSender"
        "[Inl (StatusError Unavailable []), Inr 0, Inr 0, Inr 0]"] by simp
qed

text \<open>
  However the network behaves, one send of the gRPC sender makes at most four calls, all with the
  same message and with the host's address as the only metadata.
\<close>

theorem grpc_send_bounded:
  assumes "GRPCSender_Send (traced io) s ms (n, tr) = (e, n', tr')" "gs_retryDelays s = retryDelays"
  shows "tr' = tr \<and> e \<noteq> None \<or>
    (\<exists>k ip rq. LocalIP (io_addrs io n) = Inr ip \<and> requestFromMetrics ms = Inr rq \<and> 1 \<le> k \<and> k \<le> 4 \<and>
       tr' = tr @ replicate k (SentRPC [MetadataRealIP \<mapsto> [ip]] rq))"
proof (cases "requestFromMetrics ms")
  case rq: (Inr rq)
  show ?thesis
  proof (cases "LocalIP (io_addrs io n)")
    case (Inr ip)
    have md: "contextWithRealIP None ip = [MetadataRealIP \<mapsto> [ip]]"
    proof -
      have "map ascii_lower MetadataRealIP = MetadataRealIP" by code_simp
      then show ?thesis by (simp add: contextWithRealIP_def MD_Set_def)
    qed
    obtain r where "retry_loop (GRPCSender_attempt (traced io) [MetadataRealIP \<mapsto> [ip]] rq) isRetriableGRPCError
        (grpc_waitRetry (traced io)) retryDelays (n, tr) = (r, n', tr')"
      using assms rq Inr md by (auto simp: GRPCSender_Send_def split: sum.splits prod.splits)
    from grpc_attempts.retry_trace [OF this] rq Inr show ?thesis by auto
  qed (use assms rq in \<open>auto simp: GRPCSender_Send_def\<close>)
qed (use assms in \<open>auto simp: GRPCSender_Send_def\<close>)

theorem grpc_send_bounded_witness:
  "\<exists>e n' tr'. GRPCSender_Send (traced script_io) (newGRPCSender Insecure None :: (unit, (goerr + int) list \<times> sent list) GRPCSender)
     [counter_metric ''PollCount'' 3] ([Inl (StatusError Unavailable []), Inr 0], []) = (e, n', tr') \<and> length tr' \<le> 4"
proof -
  let ?s = "newGRPCSender Insecure None :: (unit, (goerr + int) list \<times> sent list) GRPCSender"
  obtain e n' tr' where s: "GRPCSender_Send (traced script_io) ?s [counter_metric ''PollCount'' 3]
     ([Inl (StatusError Unavailable []), Inr 0], []) = (e, n', tr')" by (metis prod_cases3)
  have "gs_retryDelays ?s = retryDelays" by (simp add: newGRPCSender_def)
  from grpc_send_bounded [OF s this] s show ?thesis by auto
qed

end
