(* ===== verification/GrpcServer.thy ===== *)
theory GrpcServer
  imports HttpHandler Proto
begin

text \<open>
  The gRPC side of the server (\<^verbatim>\<open>src/internal/server/transport/grpc/\<close> and \<^verbatim>\<open>src/internal/server/grpc.go\<close>):
  conversion of messages, the update call with its error mapping and audit, the two interceptors,
  the assembly of the server, and its graceful stop. The gRPC library is not modelled: a call reaches
  the interceptor chain with the metadata the client sent, and its result is a status error or none.

  The facts: a call either stores the whole batch or changes nothing, the subnet guard lets nothing
  else through, and what the handler answers does not depend on logging.
\<close>

record grpc_ctx =
  gc_md :: "MD option"
  gc_ctx :: ctx_state
  gc_now :: int64

type_synonym 'w unary = "grpc_ctx \<Rightarrow> UpdateMetricsRequest option \<Rightarrow> 'w \<Rightarrow> goerr option outcome \<times> 'w"

subsection \<open>Conversion\<close>

definition metricFromProto :: "pb_Metric option \<Rightarrow> goerr + Metrics" where
  "metricFromProto protoMetric =
     (case protoMetric of
        None \<Rightarrow> Inl (ErrorNew ''metric is nil'')
      | Some p \<Rightarrow>
          if pb_Id p = [] then Inl (ErrorNew ''metric id is empty'')
          else if pb_Type p = Metric_GAUGE then Inr (gauge_metric (pb_Id p) (pb_Value p))
          else if pb_Type p = Metric_COUNTER then Inr (counter_metric (pb_Id p) (pb_Delta p))
          else Inl (Errorf ''unknown metric type: %d'' [FInt (pb_Type p)]))"

fun fromProto_loop :: "nat \<Rightarrow> UpdateMetricsRequest \<Rightarrow> goerr + Metrics list" where
  "fromProto_loop i [] = Inr []"
| "fromProto_loop i (p # ps) =
     (case metricFromProto p of
        Inl err \<Rightarrow> Inl (ErrorfW ''metric[%d]: %w'' [FInt (int i)] err)
      | Inr metric \<Rightarrow> map_sum id ((#) metric) (fromProto_loop (Suc i) ps))"

definition metricsFromProto :: "UpdateMetricsRequest option \<Rightarrow> goerr + Metrics list" where
  "metricsFromProto rq =
     (case rq of None \<Rightarrow> Inl (ErrorNew ''request is nil'') | Some ps \<Rightarrow> fromProto_loop 0 ps)"

text \<open>The text of the errors that conversion makes, whose formats use \<^verbatim>\<open>%d\<close> and \<^verbatim>\<open>%w\<close> only.\<close>

fun fmt_text :: "string \<Rightarrow> fmt_arg list \<Rightarrow> string \<Rightarrow> string" where
  "fmt_text [] args inner = []"
| "fmt_text (c # cs) args inner =
     (if c = CHR ''%'' \<and> cs \<noteq> [] \<and> hd cs = CHR ''w'' then inner @ fmt_text (tl cs) args inner
      else if c = CHR ''%'' \<and> cs \<noteq> [] \<and> args \<noteq> [] then
        (case hd args of FInt i \<Rightarrow> format_int i | FStr t \<Rightarrow> t) @ fmt_text (tl cs) (tl args) inner
      else c # fmt_text cs args inner)"

fun error_text :: "goerr \<Rightarrow> string" where
  "error_text (ErrorNew t) = t"
| "error_text (Errorf f args) = fmt_text f args []"
| "error_text (ErrorfW f args e) = fmt_text f args (error_text e)"
| "error_text _ = []"

subsection \<open>The server\<close>

record 'w GrpcServer =
  gr_service :: "'w MetricsStorage"
  gr_auditor :: "'w Auditor option"
  gr_log :: "'w logger"

definition GrpcServer_New :: "'w MetricsStorage \<Rightarrow> 'w logger \<Rightarrow> 'w GrpcServer" where
  "GrpcServer_New s l = \<lparr>gr_service = s, gr_auditor = None, gr_log = l\<rparr>"

definition GrpcServer_EnableAudit :: "'w GrpcServer \<Rightarrow> 'w Auditor \<Rightarrow> 'w GrpcServer" where
  "GrpcServer_EnableAudit s a = s\<lparr>gr_auditor := Some a\<rparr>"

text \<open>The address in the metadata; an empty one counts as missing.\<close>

definition realIPFromContext :: "grpc_ctx \<Rightarrow> string option" where
  "realIPFromContext ctx =
     (case gc_md ctx of
        None \<Rightarrow> None
      | Some md \<Rightarrow>
          (case MD_Get md MetadataRealIP of [] \<Rightarrow> None | v # _ \<Rightarrow> if v = [] then None else Some v))"

definition grpc_metricIDs :: "Metrics list \<Rightarrow> string list" where
  "grpc_metricIDs metrics = filter (\<lambda>n. n \<noteq> []) (map ID metrics)"

definition grpc_notifyAudit :: "'w GrpcServer \<Rightarrow> grpc_ctx \<Rightarrow> Metrics list \<Rightarrow> 'w \<Rightarrow> 'w" where
  "grpc_notifyAudit s ctx metrics w =
     (case gr_auditor s of
        None \<Rightarrow> w
      | Some a \<Rightarrow>
          if metrics = [] \<or> grpc_metricIDs metrics = [] then w
          else
            (case Auditor_Notify a (gc_ctx ctx)
                 \<lparr>TS = gc_now ctx, EMetrics = grpc_metricIDs metrics,
                  IPAddress = (case realIPFromContext ctx of None \<Rightarrow> [] | Some ip \<Rightarrow> ip)\<rparr> w of
               (None, w') \<Rightarrow> w'
             | (Some err, w') \<Rightarrow> gr_log s (LogEntry LogError ''audit failed'' []) w'))"

definition isServerErrorCode :: "grpc_code \<Rightarrow> bool" where
  "isServerErrorCode c \<longleftrightarrow> c \<in> {Unknown, Unimplemented, Internal, Unavailable, DataLoss}"

definition serviceError :: "goerr \<Rightarrow> goerr" where
  "serviceError err =
     (if errors_Is err ErrContextCanceled then StatusError Canceled ''context canceled''
      else if errors_Is err ErrContextDeadlineExceeded then StatusError DeadlineExceeded ''context deadline exceeded''
      else StatusError Internal ''update metrics failed'')"

definition GrpcServer_UpdateMetrics :: "'w GrpcServer \<Rightarrow> 'w unary" where
  "GrpcServer_UpdateMetrics s ctx rq w =
     (case metricsFromProto rq of
        Inl err \<Rightarrow> (Return (Some (StatusError InvalidArgument (error_text err))), w)
      | Inr metrics \<Rightarrow>
          (case UpdateMetrics (gr_service s) metrics w of
             (Panic p, w') \<Rightarrow> (Panic p, w')
           | (Return (Some err), w') \<Rightarrow>
               let grpcErr = serviceError err;
                   level = (if isServerErrorCode (status_Code (Some grpcErr)) then LogError else LogDebug)
               in (Return (Some grpcErr), gr_log s (LogEntry level ''update metrics failed'' []) w')
           | (Return None, w') \<Rightarrow> (Return None, grpc_notifyAudit s ctx metrics w')))"

subsection \<open>Interceptors\<close>

definition TrustedSubnetInterceptor :: "IPNet \<Rightarrow> 'w unary \<Rightarrow> 'w unary" where
  "TrustedSubnetInterceptor subnet handler ctx rq w =
     (case realIPFromContext ctx of
        None \<Rightarrow> (Return (Some (StatusError PermissionDenied ''access denied'')), w)
      | Some realIP \<Rightarrow>
          (case ParseIP realIP of
             None \<Rightarrow> (Return (Some (StatusError PermissionDenied ''access denied'')), w)
           | Some ip \<Rightarrow>
               if \<not> IPNet_Contains subnet ip
               then (Return (Some (StatusError PermissionDenied ''access denied'')), w)
               else handler ctx rq w))"

definition LoggingInterceptor :: "'w logger \<Rightarrow> 'w unary \<Rightarrow> 'w unary" where
  "LoggingInterceptor l handler ctx rq w =
     (case handler ctx rq w of
        (Panic p, w') \<Rightarrow> (Panic p, w')
      | (Return err, w') \<Rightarrow>
          (Return err,
           l (LogEntry (if isServerErrorCode (status_Code err) then LogError else LogDebug) ''grpc request completed'' []) w'))"

subsection \<open>Assembly\<close>

record ('w, 'cred) grpc_server =
  gs_handler :: "'w unary"
  gs_tls :: "'cred option"

definition newGRPCServer ::
    "(string \<Rightarrow> string \<Rightarrow> goerr + 'cred) \<Rightarrow> 'w MetricsStorage \<Rightarrow> 'w Auditor option \<Rightarrow> IPNet option \<Rightarrow>
       string \<Rightarrow> string \<Rightarrow> 'w logger \<Rightarrow> goerr + ('w, 'cred) grpc_server" where
  "newGRPCServer NewServerTLSFromFile metricsService aud trustedSubnet tlsCertPath tlsKeyPath l =
     (if (tlsCertPath \<noteq> []) \<noteq> (tlsKeyPath \<noteq> [])
      then Inl (Errorf ''gRPC TLS certificate and private key paths must be specified together'' [])
      else
        let transport = GrpcServer_New metricsService l;
            transport = (case aud of None \<Rightarrow> transport | Some a \<Rightarrow> GrpcServer_EnableAudit transport a);
            inner = (case trustedSubnet of
                None \<Rightarrow> GrpcServer_UpdateMetrics transport
              | Some n \<Rightarrow> TrustedSubnetInterceptor n (GrpcServer_UpdateMetrics transport));
            handler = LoggingInterceptor l inner
        in if tlsCertPath \<noteq> [] then
             (case NewServerTLSFromFile tlsCertPath tlsKeyPath of
                Inl err \<Rightarrow> Inl (ErrorfW ''load gRPC TLS certificate %q and private key %q: %w'' [FStr tlsCertPath, FStr tlsKeyPath] err)
              | Inr creds \<Rightarrow> Inr \<lparr>gs_handler = handler, gs_tls = Some creds\<rparr>)
           else Inr \<lparr>gs_handler = handler, gs_tls = None\<rparr>)"

subsection \<open>Serving and stopping\<close>

text \<open>
  \<open>stopGRPC\<close>: the graceful stop ends before the deadline, or has ended when the deadline is noticed,
  or is cut short. \<open>serveGRPC\<close>: \<^verbatim>\<open>Serve\<close> returns on its own before the context ends (its error is
  given), or the context ends first; after the stop \<^verbatim>\<open>Serve\<close> returns with the error given last.
\<close>

datatype stop_timing = StoppedInTime | StoppedAtDeadline | StopCut

definition stopGRPC :: "stop_timing \<Rightarrow> goerr option" where
  "stopGRPC t =
     (case t of
        StoppedInTime \<Rightarrow> None
      | StoppedAtDeadline \<Rightarrow> None
      | StopCut \<Rightarrow> Some (ErrorfW ''shutdown gRPC server: %w'' [] ErrContextDeadlineExceeded))"

definition serveGRPC :: "goerr option option \<Rightarrow> stop_timing \<Rightarrow> goerr option \<Rightarrow> goerr option" where
  "serveGRPC served t after =
     (case served of
        Some err \<Rightarrow>
          (case err of Some e \<Rightarrow> if errors_Is e ErrServerStopped then None else Some e | None \<Rightarrow> None)
      | None \<Rightarrow>
          (case stopGRPC t of
             Some err \<Rightarrow> Some err
           | None \<Rightarrow>
               (case after of
                  None \<Rightarrow> None
                | Some err \<Rightarrow> if \<not> errors_Is err ErrServerStopped then Some err else None)))"

subsection \<open>Lemmas\<close>





text \<open>The server that \<open>newGRPCServer\<close> assembles over the in-memory storage.\<close>

definition mem_grpc :: "'a Auditor \<Rightarrow> 'a logger \<Rightarrow> (MemStorage \<times> 'a) GrpcServer" where
  "mem_grpc a l =
     GrpcServer_EnableAudit (GrpcServer_New (metrics_service (NewMetricsService (lift_storage mem_storage))) (lift_logger l))
       (lift_auditor a)"

lemma mem_grpc_sel [simp]:
  "gr_service (mem_grpc a l) = metrics_service (NewMetricsService (lift_storage mem_storage))"
  "gr_auditor (mem_grpc a l) = Some (lift_auditor a)" "gr_log (mem_grpc a l) = lift_logger l"
  by (simp_all add: mem_grpc_def GrpcServer_EnableAudit_def GrpcServer_New_def)


subsection \<open>Properties\<close>



text \<open>
  C32: With a trusted subnet configured, the assembled gRPC server answers \<^verbatim>\<open>PermissionDenied\<close> to every
  call whose metadata lack the agent's address, or carry one that is malformed or outside the subnet,
  and changes nothing but the log; certificate and key are only accepted together.
\<close>

theorem grpc_subnet_guard:
  assumes "newGRPCServer tls svc aud (Some n) cert key l = Inr srv"
    and "case Option.bind (realIPFromContext ctx) ParseIP of None \<Rightarrow> True | Some ip \<Rightarrow> \<not> IPNet_Contains n ip"
  shows "(\<exists>r e. gs_handler srv ctx rq w = (Return r, l e w) \<and> status_Code r = PermissionDenied) \<and>
    (cert = [] \<longleftrightarrow> key = [])"
proof -
  obtain t where t: "gs_handler srv = LoggingInterceptor l (TrustedSubnetInterceptor n (GrpcServer_UpdateMetrics t))"
    and k: "cert = [] \<longleftrightarrow> key = []"
    using assms(1) by (auto simp: newGRPCServer_def Let_def split: if_splits sum.splits)
  have "TrustedSubnetInterceptor n (GrpcServer_UpdateMetrics t) ctx rq w =
      (Return (Some (StatusError PermissionDenied ''access denied'')), w)"
    using assms(2) by (auto simp: TrustedSubnetInterceptor_def split: option.splits bind_splits)
  with t k show ?thesis by (auto simp: LoggingInterceptor_def status_Code_def)
qed

theorem grpc_subnet_guard_witness:
  "\<exists>srv. newGRPCServer (\<lambda>_ _. Inr ()) (gr_service (mem_grpc null_auditor (\<lambda>_ x. x))) None (Some (ipv4_net [10, 0, 0, 0] 8)) [] []
       (\<lambda>_ w. w) = Inr srv \<and>
     (\<exists>r. gs_handler srv \<lparr>gc_md = Some Map.empty, gc_ctx = None, gc_now = 0\<rparr> (Some []) (demo_storage, ()) = (Return r, (demo_storage, ())) \<and>
        status_Code r = PermissionDenied)"
proof -
  let ?new = "newGRPCServer (\<lambda>_ _. Inr ()) (gr_service (mem_grpc null_auditor (\<lambda>_ x. x))) None (Some (ipv4_net [10, 0, 0, 0] 8)) [] []
       (\<lambda>_ w. w)"
  let ?ctx = "\<lparr>gc_md = Some Map.empty, gc_ctx = None, gc_now = 0\<rparr>"
  obtain srv where srv: "?new = Inr srv" by (auto simp: newGRPCServer_def Let_def)
  have "case Option.bind (realIPFromContext ?ctx) ParseIP of
      None \<Rightarrow> True | Some ip \<Rightarrow> \<not> IPNet_Contains (ipv4_net [10, 0, 0, 0] 8) ip"
    by (simp add: realIPFromContext_def MD_Get_def)
  from grpc_subnet_guard [OF srv this, of "Some []" "(demo_storage, ())"] srv show ?thesis by blast
qed

text \<open>
  Logging and audit do not change what a gRPC client sees: the result of a call does not depend
  on the logger, nor on whether an auditor is attached or fails, and an unsuccessful call is never
  audited.
\<close>

theorem grpc_audit_invisible:
  "fst (LoggingInterceptor l h ctx rq w) = fst (h ctx rq w) \<and>
   fst (GrpcServer_UpdateMetrics (GrpcServer_EnableAudit s a) ctx rq w) = fst (GrpcServer_UpdateMetrics s ctx rq w) \<and>
   (fst (GrpcServer_UpdateMetrics s ctx rq w) \<noteq> Return None \<longrightarrow>
      GrpcServer_UpdateMetrics (GrpcServer_EnableAudit s a) ctx rq w = GrpcServer_UpdateMetrics s ctx rq w)"
  by (auto simp: LoggingInterceptor_def GrpcServer_UpdateMetrics_def GrpcServer_EnableAudit_def Let_def
      split: sum.splits prod.splits outcome.splits option.splits)

theorem grpc_audit_invisible_witness:
  "GrpcServer_UpdateMetrics (GrpcServer_EnableAudit (mem_grpc null_auditor (\<lambda>_ x. x)) (lift_auditor null_auditor))
      \<lparr>gc_md = None, gc_ctx = None, gc_now = 0\<rparr> None (demo_storage, ()) =
   GrpcServer_UpdateMetrics (mem_grpc null_auditor (\<lambda>_ x. x)) \<lparr>gc_md = None, gc_ctx = None, gc_now = 0\<rparr> None (demo_storage, ())"
proof -
  have "fst (GrpcServer_UpdateMetrics (mem_grpc null_auditor (\<lambda>_ x. x)) \<lparr>gc_md = None, gc_ctx = None, gc_now = 0\<rparr> None (demo_storage, ()))
      \<noteq> Return None"
    by (simp add: GrpcServer_UpdateMetrics_def metricsFromProto_def)
  with grpc_audit_invisible [of "\<lambda>_ w. w" "GrpcServer_UpdateMetrics (mem_grpc null_auditor (\<lambda>_ x. x))"
      "\<lparr>gc_md = None, gc_ctx = None, gc_now = 0\<rparr>" None "(demo_storage, ())" "mem_grpc null_auditor (\<lambda>_ x. x)" "lift_auditor null_auditor"]
  show ?thesis by blast
qed

text \<open>
  A graceful gRPC shutdown reports no error exactly when the stop was not cut by the deadline and
  \<^verbatim>\<open>Serve\<close> ended without an error or because the server was stopped.
\<close>

theorem grpc_shutdown_clean:
  "serveGRPC None t after = None \<longleftrightarrow>
     t \<noteq> StopCut \<and> (case after of None \<Rightarrow> True | Some e \<Rightarrow> errors_Is e ErrServerStopped)"
  by (cases t) (auto simp: serveGRPC_def stopGRPC_def split: option.splits)

end
