(* ===== verification/ServerConfig.thy ===== *)
theory ServerConfig
  imports ConfigSources NetIP
begin

text \<open>
  The server's configuration (\<^verbatim>\<open>src/internal/server/config/\<close>): defaults, overridden by a JSON file, by
  flags and by environment variables, then validated. As for the agent, a function that fills a
  configuration through a pointer returns it together with its error. \<^verbatim>\<open>url.ParseRequestURI\<close> is an
  argument: only the scheme and the host of its result are used.

  The main facts: which source wins for each field (with \<^verbatim>\<open>STORE_FILE\<close> before \<^verbatim>\<open>FILE_STORAGE_PATH\<close>), and
  what an accepted configuration guarantees to the code that starts the server.
\<close>

record ServerConfig =
  sc_HTTPAddr :: string
  sc_GRPCAddr :: string
  sc_GRPCTLSCert :: string
  sc_GRPCTLSKey :: string
  sc_StoreIntervalInSec :: int64
  sc_FileStoragePath :: string
  sc_Restore :: bool
  sc_DatabaseDSN :: string
  sc_Key :: string
  sc_CryptoKey :: string
  sc_TrustedSubnet :: string
  sc_AuditFile :: string
  sc_AuditURL :: string

definition defaultServerConfig :: ServerConfig where
  "defaultServerConfig =
     \<lparr>sc_HTTPAddr = ''localhost:8080'', sc_GRPCAddr = ''localhost:50051'', sc_GRPCTLSCert = [], sc_GRPCTLSKey = [], sc_StoreIntervalInSec = 300, sc_FileStoragePath = ''metrics-db.json'', sc_Restore = False, sc_DatabaseDSN = [], sc_Key = [], sc_CryptoKey = [], sc_TrustedSubnet = [], sc_AuditFile = [], sc_AuditURL = []\<rparr>"

subsection \<open>The file\<close>

record serverFileConfig =
  sf_Address :: "string option"
  sf_GRPCAddress :: "string option"
  sf_GRPCTLSCert :: "string option"
  sf_GRPCTLSKey :: "string option"
  sf_StoreInterval :: "string option"
  sf_StoreFile :: "string option"
  sf_Restore :: "bool option"
  sf_DatabaseDSN :: "string option"
  sf_Key :: "string option"
  sf_CryptoKey :: "string option"
  sf_TrustedSubnet :: "string option"
  sf_AuditFile :: "string option"
  sf_AuditURL :: "string option"

definition zero_serverFileConfig :: serverFileConfig where
  "zero_serverFileConfig =
     \<lparr>sf_Address = None, sf_GRPCAddress = None, sf_GRPCTLSCert = None, sf_GRPCTLSKey = None, sf_StoreInterval = None, sf_StoreFile = None, sf_Restore = None, sf_DatabaseDSN = None, sf_Key = None, sf_CryptoKey = None, sf_TrustedSubnet = None, sf_AuditFile = None, sf_AuditURL = None\<rparr>"

definition serverFile_field :: "string \<Rightarrow> json \<Rightarrow> serverFileConfig \<Rightarrow> serverFileConfig option" where
  "serverFile_field n j c =
     (if n = ''address'' then map_option (\<lambda>v. c\<lparr>sf_Address := v\<rparr>) (decode_string_ptr j)
      else if n = ''grpc_address'' then map_option (\<lambda>v. c\<lparr>sf_GRPCAddress := v\<rparr>) (decode_string_ptr j)
      else if n = ''grpc_tls_cert'' then map_option (\<lambda>v. c\<lparr>sf_GRPCTLSCert := v\<rparr>) (decode_string_ptr j)
      else if n = ''grpc_tls_key'' then map_option (\<lambda>v. c\<lparr>sf_GRPCTLSKey := v\<rparr>) (decode_string_ptr j)
      else if n = ''store_interval'' then map_option (\<lambda>v. c\<lparr>sf_StoreInterval := v\<rparr>) (decode_string_ptr j)
      else if n = ''store_file'' then map_option (\<lambda>v. c\<lparr>sf_StoreFile := v\<rparr>) (decode_string_ptr j)
      else if n = ''restore'' then map_option (\<lambda>v. c\<lparr>sf_Restore := v\<rparr>) (decode_bool_ptr j)
      else if n = ''database_dsn'' then map_option (\<lambda>v. c\<lparr>sf_DatabaseDSN := v\<rparr>) (decode_string_ptr j)
      else if n = ''key'' then map_option (\<lambda>v. c\<lparr>sf_Key := v\<rparr>) (decode_string_ptr j)
      else if n = ''crypto_key'' then map_option (\<lambda>v. c\<lparr>sf_CryptoKey := v\<rparr>) (decode_string_ptr j)
      else if n = ''trusted_subnet'' then map_option (\<lambda>v. c\<lparr>sf_TrustedSubnet := v\<rparr>) (decode_string_ptr j)
      else if n = ''audit_file'' then map_option (\<lambda>v. c\<lparr>sf_AuditFile := v\<rparr>) (decode_string_ptr j)
      else if n = ''audit_url'' then map_option (\<lambda>v. c\<lparr>sf_AuditURL := v\<rparr>) (decode_string_ptr j)
      else Some c)"

definition parseStoreInterval :: "string \<Rightarrow> goerr + int64" where
  "parseStoreInterval value = whole_seconds ''store_interval'' value"

definition applyServerTLSFileConfig :: "serverFileConfig \<Rightarrow> ServerConfig \<Rightarrow> ServerConfig" where
  "applyServerTLSFileConfig fileCfg cfg =
     set_ptr (sf_GRPCTLSKey fileCfg) (\<lambda>v c. c\<lparr>sc_GRPCTLSKey := v\<rparr>)
       (set_ptr (sf_GRPCTLSCert fileCfg) (\<lambda>v c. c\<lparr>sc_GRPCTLSCert := v\<rparr>) cfg)"

text \<open>A store interval that does not parse leaves zero in the field, since it is assigned with the error.\<close>

definition applyServerFile :: "serverFileConfig \<Rightarrow> ServerConfig \<Rightarrow> ServerConfig \<times> goerr option" where
  "applyServerFile fileCfg cfg =
     (let cfg = set_ptr (sf_Address fileCfg) (\<lambda>v c. c\<lparr>sc_HTTPAddr := v\<rparr>) cfg;
          cfg = set_ptr (sf_GRPCAddress fileCfg) (\<lambda>v c. c\<lparr>sc_GRPCAddr := v\<rparr>) cfg;
          cfg = applyServerTLSFileConfig fileCfg cfg
      in case map_option parseStoreInterval (sf_StoreInterval fileCfg) of
           Some (Inl err) \<Rightarrow> (cfg\<lparr>sc_StoreIntervalInSec := 0\<rparr>, Some err)
         | interval \<Rightarrow>
             let cfg = (case interval of Some (Inr n) \<Rightarrow> cfg\<lparr>sc_StoreIntervalInSec := n\<rparr> | _ \<Rightarrow> cfg);
                 cfg = set_ptr (sf_StoreFile fileCfg) (\<lambda>v c. c\<lparr>sc_FileStoragePath := v\<rparr>) cfg;
                 cfg = set_ptr (sf_Restore fileCfg) (\<lambda>v c. c\<lparr>sc_Restore := v\<rparr>) cfg;
                 cfg = set_ptr (sf_DatabaseDSN fileCfg) (\<lambda>v c. c\<lparr>sc_DatabaseDSN := v\<rparr>) cfg;
                 cfg = set_ptr (sf_Key fileCfg) (\<lambda>v c. c\<lparr>sc_Key := v\<rparr>) cfg;
                 cfg = set_ptr (sf_CryptoKey fileCfg) (\<lambda>v c. c\<lparr>sc_CryptoKey := v\<rparr>) cfg;
                 cfg = set_ptr (sf_TrustedSubnet fileCfg) (\<lambda>v c. c\<lparr>sc_TrustedSubnet := v\<rparr>) cfg;
                 cfg = set_ptr (sf_AuditFile fileCfg) (\<lambda>v c. c\<lparr>sc_AuditFile := v\<rparr>) cfg;
                 cfg = set_ptr (sf_AuditURL fileCfg) (\<lambda>v c. c\<lparr>sc_AuditURL := v\<rparr>) cfg
             in (cfg, None))"

definition loadServerConfigFile :: "filesystem \<Rightarrow> string \<Rightarrow> ServerConfig \<Rightarrow> ServerConfig \<times> goerr option" where
  "loadServerConfigFile fs filePath cfg =
     (case os_ReadFile filePath fs of
        Inl err \<Rightarrow> (cfg, Some (ErrorfW ''read server config file %q: %w'' [FStr filePath] err))
      | Inr data \<Rightarrow>
          (case Option.bind (json_Unmarshal data) (\<lambda>j. decode_struct serverFile_field j zero_serverFileConfig) of
             None \<Rightarrow> (cfg, Some (ErrorfW ''decode server config file %q: %w'' [FStr filePath] json_unmarshal_error))
           | Some fileCfg \<Rightarrow> applyServerFile fileCfg cfg))"

subsection \<open>Flags and environment\<close>

definition server_flags :: flag_set where
  "server_flags = map_of
     [(''a'', StringFlag), (''g'', StringFlag), (''grpc-tls-cert'', StringFlag), (''grpc-tls-key'', StringFlag),
      (''i'', IntFlag), (''f'', StringFlag), (''r'', BoolFlag), (''d'', StringFlag),
      (''k'', StringFlag), (''crypto-key'', StringFlag), (''t'', StringFlag), (''audit-file'', StringFlag),
      (''audit-url'', StringFlag),
      (''c'', StringFlag), (''config'', StringFlag)]"

definition server_flagCfg :: "(string \<times> flag_value) list \<Rightarrow> ServerConfig \<Rightarrow> ServerConfig" where
  "server_flagCfg asg c =
     \<lparr>sc_HTTPAddr = flag_string asg {''a''} (sc_HTTPAddr c),
      sc_GRPCAddr = flag_string asg {''g''} (sc_GRPCAddr c),
      sc_GRPCTLSCert = flag_string asg {''grpc-tls-cert''} (sc_GRPCTLSCert c),
      sc_GRPCTLSKey = flag_string asg {''grpc-tls-key''} (sc_GRPCTLSKey c),
      sc_StoreIntervalInSec = flag_int asg ''i'' (sc_StoreIntervalInSec c),
      sc_FileStoragePath = flag_string asg {''f''} (sc_FileStoragePath c),
      sc_Restore = flag_bool asg ''r'' (sc_Restore c),
      sc_DatabaseDSN = flag_string asg {''d''} (sc_DatabaseDSN c),
      sc_Key = flag_string asg {''k''} (sc_Key c),
      sc_CryptoKey = flag_string asg {''crypto-key''} (sc_CryptoKey c),
      sc_TrustedSubnet = flag_string asg {''t''} (sc_TrustedSubnet c),
      sc_AuditFile = flag_string asg {''audit-file''} (sc_AuditFile c),
      sc_AuditURL = flag_string asg {''audit-url''} (sc_AuditURL c)\<rparr>"

definition applyServerFlags :: "ServerConfig \<Rightarrow> (string \<Rightarrow> bool) \<Rightarrow> ServerConfig \<Rightarrow> ServerConfig" where
  "applyServerFlags flagCfg setFlags cfg =
     (let cfg = (if setFlags ''a'' then cfg\<lparr>sc_HTTPAddr := sc_HTTPAddr flagCfg\<rparr> else cfg);
          cfg = (if setFlags ''g'' then cfg\<lparr>sc_GRPCAddr := sc_GRPCAddr flagCfg\<rparr> else cfg);
          cfg = (if setFlags ''grpc-tls-cert'' then cfg\<lparr>sc_GRPCTLSCert := sc_GRPCTLSCert flagCfg\<rparr> else cfg);
          cfg = (if setFlags ''grpc-tls-key'' then cfg\<lparr>sc_GRPCTLSKey := sc_GRPCTLSKey flagCfg\<rparr> else cfg);
          cfg = (if setFlags ''i'' then cfg\<lparr>sc_StoreIntervalInSec := sc_StoreIntervalInSec flagCfg\<rparr> else cfg);
          cfg = (if setFlags ''f'' then cfg\<lparr>sc_FileStoragePath := sc_FileStoragePath flagCfg\<rparr> else cfg);
          cfg = (if setFlags ''r'' then cfg\<lparr>sc_Restore := sc_Restore flagCfg\<rparr> else cfg);
          cfg = (if setFlags ''d'' then cfg\<lparr>sc_DatabaseDSN := sc_DatabaseDSN flagCfg\<rparr> else cfg);
          cfg = (if setFlags ''k'' then cfg\<lparr>sc_Key := sc_Key flagCfg\<rparr> else cfg);
          cfg = (if setFlags ''crypto-key'' then cfg\<lparr>sc_CryptoKey := sc_CryptoKey flagCfg\<rparr> else cfg);
          cfg = (if setFlags ''t'' then cfg\<lparr>sc_TrustedSubnet := sc_TrustedSubnet flagCfg\<rparr> else cfg);
          cfg = (if setFlags ''audit-file'' then cfg\<lparr>sc_AuditFile := sc_AuditFile flagCfg\<rparr> else cfg);
          cfg = (if setFlags ''audit-url'' then cfg\<lparr>sc_AuditURL := sc_AuditURL flagCfg\<rparr> else cfg)
      in cfg)"

definition applyServerTLSEnvironment :: "lookupEnvFunc \<Rightarrow> ServerConfig \<Rightarrow> ServerConfig" where
  "applyServerTLSEnvironment lookupEnv cfg =
     set_ptr (lookupEnv ''GRPC_TLS_KEY'') (\<lambda>v c. c\<lparr>sc_GRPCTLSKey := v\<rparr>)
       (set_ptr (lookupEnv ''GRPC_TLS_CERT'') (\<lambda>v c. c\<lparr>sc_GRPCTLSCert := v\<rparr>) cfg)"

definition applyServerEnvironment :: "lookupEnvFunc \<Rightarrow> ServerConfig \<Rightarrow> ServerConfig \<times> goerr option" where
  "applyServerEnvironment lookupEnv cfg =
     (let cfg = set_ptr (lookupEnv ''ADDRESS'') (\<lambda>v c. c\<lparr>sc_HTTPAddr := v\<rparr>) cfg;
          cfg = set_ptr (lookupEnv ''GRPC_ADDRESS'') (\<lambda>v c. c\<lparr>sc_GRPCAddr := v\<rparr>) cfg;
          cfg = applyServerTLSEnvironment lookupEnv cfg
      in case getEnvInt lookupEnv ''STORE_INTERVAL'' of
           Inl err \<Rightarrow> (cfg, Some err)
         | Inr interval \<Rightarrow>
             let cfg = set_ptr interval (\<lambda>v c. c\<lparr>sc_StoreIntervalInSec := v\<rparr>) cfg;
                 cfg = set_ptr (lookupEnv ''FILE_STORAGE_PATH'') (\<lambda>v c. c\<lparr>sc_FileStoragePath := v\<rparr>) cfg;
                 cfg = set_ptr (lookupEnv ''STORE_FILE'') (\<lambda>v c. c\<lparr>sc_FileStoragePath := v\<rparr>) cfg
             in case getEnvBool lookupEnv ''RESTORE'' of
                  Inl err \<Rightarrow> (cfg, Some err)
                | Inr restore \<Rightarrow>
                    let cfg = set_ptr restore (\<lambda>v c. c\<lparr>sc_Restore := v\<rparr>) cfg;
                        cfg = set_ptr (lookupEnv ''DATABASE_DSN'') (\<lambda>v c. c\<lparr>sc_DatabaseDSN := v\<rparr>) cfg;
                        cfg = set_ptr (lookupEnv ''KEY'') (\<lambda>v c. c\<lparr>sc_Key := v\<rparr>) cfg;
                        cfg = set_ptr (lookupEnv ''CRYPTO_KEY'') (\<lambda>v c. c\<lparr>sc_CryptoKey := v\<rparr>) cfg;
                        cfg = set_ptr (lookupEnv ''TRUSTED_SUBNET'') (\<lambda>v c. c\<lparr>sc_TrustedSubnet := v\<rparr>) cfg;
                        cfg = set_ptr (lookupEnv ''AUDIT_FILE'') (\<lambda>v c. c\<lparr>sc_AuditFile := v\<rparr>) cfg;
                        cfg = set_ptr (lookupEnv ''AUDIT_URL'') (\<lambda>v c. c\<lparr>sc_AuditURL := v\<rparr>) cfg
                    in (cfg, None))"

subsection \<open>Validation\<close>

record URL =
  url_Scheme :: string
  url_Host :: string

type_synonym url_parser = "string \<Rightarrow> goerr + URL"

definition validateServerConfig :: "url_parser \<Rightarrow> ServerConfig \<Rightarrow> goerr option" where
  "validateServerConfig ParseRequestURI cfg =
     (if sc_HTTPAddr cfg = [] then Some (Errorf ''HTTP server address must not be empty'' [])
      else if sc_GRPCAddr cfg = [] then Some (Errorf ''gRPC server address must not be empty'' [])
      else if (sc_GRPCTLSCert cfg \<noteq> []) \<noteq> (sc_GRPCTLSKey cfg \<noteq> [])
      then Some (Errorf ''gRPC TLS certificate and private key paths must be specified together'' [])
      else if sint (sc_StoreIntervalInSec cfg) < 0
      then Some (Errorf ''store interval in seconds must be >= 0, got %d'' [FInt (sint (sc_StoreIntervalInSec cfg))])
      else if sc_TrustedSubnet cfg \<noteq> [] \<and> ParseCIDR (sc_TrustedSubnet cfg) = None
      then Some (ErrorfW ''parse trusted subnet %q: %w'' [FStr (sc_TrustedSubnet cfg)] (LibError ''invalid CIDR address''))
      else if sc_AuditURL cfg \<noteq> [] then
        (case ParseRequestURI (sc_AuditURL cfg) of
           Inl err \<Rightarrow> Some (ErrorfW ''parse audit URL %q: %w'' [FStr (sc_AuditURL cfg)] err)
         | Inr auditURL \<Rightarrow>
             if url_Scheme auditURL \<noteq> ''http'' \<and> url_Scheme auditURL \<noteq> ''https''
             then Some (Errorf ''audit URL must use http or https scheme, got %q'' [FStr (url_Scheme auditURL)])
             else if url_Host auditURL = [] then Some (Errorf ''audit URL must contain host'' [])
             else None)
      else None)"

definition parseServerConfig ::
    "url_parser \<Rightarrow> filesystem \<Rightarrow> string list \<Rightarrow> lookupEnvFunc \<Rightarrow> ServerConfig \<times> goerr option" where
  "parseServerConfig ParseRequestURI fs args lookupEnv =
     (let cfg = defaultServerConfig
      in case FlagSet_Parse server_flags args of
           Inl err \<Rightarrow> (cfg, Some err)
         | Inr asg \<Rightarrow>
             let flagCfg = server_flagCfg asg cfg;
                 configPath = (case lookupEnv ''CONFIG'' of
                     Some value \<Rightarrow> value | None \<Rightarrow> flag_string asg {''c'', ''config''} [])
             in case (if configPath \<noteq> [] then loadServerConfigFile fs configPath cfg else (cfg, None)) of
                  (cfg, Some err) \<Rightarrow> (cfg, Some err)
                | (cfg, None) \<Rightarrow>
                    let cfg = applyServerFlags flagCfg (visited asg) cfg
                    in case applyServerEnvironment lookupEnv cfg of
                         (cfg, Some err) \<Rightarrow> (cfg, Some err)
                       | (cfg, None) \<Rightarrow> (cfg, validateServerConfig ParseRequestURI cfg))"

subsection \<open>Lemmas\<close>

lemma set_ptr_server [config_simps]:
  "set_ptr p (\<lambda>v c. c\<lparr>sc_HTTPAddr := v\<rparr>) c = c\<lparr>sc_HTTPAddr := first_of [p] (sc_HTTPAddr c)\<rparr>"
  "set_ptr p (\<lambda>v c. c\<lparr>sc_GRPCAddr := v\<rparr>) c = c\<lparr>sc_GRPCAddr := first_of [p] (sc_GRPCAddr c)\<rparr>"
  "set_ptr p (\<lambda>v c. c\<lparr>sc_GRPCTLSCert := v\<rparr>) c = c\<lparr>sc_GRPCTLSCert := first_of [p] (sc_GRPCTLSCert c)\<rparr>"
  "set_ptr p (\<lambda>v c. c\<lparr>sc_GRPCTLSKey := v\<rparr>) c = c\<lparr>sc_GRPCTLSKey := first_of [p] (sc_GRPCTLSKey c)\<rparr>"
  "set_ptr q (\<lambda>v c. c\<lparr>sc_StoreIntervalInSec := v\<rparr>) c = c\<lparr>sc_StoreIntervalInSec := first_of [q] (sc_StoreIntervalInSec c)\<rparr>"
  "set_ptr p (\<lambda>v c. c\<lparr>sc_FileStoragePath := v\<rparr>) c = c\<lparr>sc_FileStoragePath := first_of [p] (sc_FileStoragePath c)\<rparr>"
  "set_ptr r (\<lambda>v c. c\<lparr>sc_Restore := v\<rparr>) c = c\<lparr>sc_Restore := first_of [r] (sc_Restore c)\<rparr>"
  "set_ptr p (\<lambda>v c. c\<lparr>sc_DatabaseDSN := v\<rparr>) c = c\<lparr>sc_DatabaseDSN := first_of [p] (sc_DatabaseDSN c)\<rparr>"
  "set_ptr p (\<lambda>v c. c\<lparr>sc_Key := v\<rparr>) c = c\<lparr>sc_Key := first_of [p] (sc_Key c)\<rparr>"
  "set_ptr p (\<lambda>v c. c\<lparr>sc_CryptoKey := v\<rparr>) c = c\<lparr>sc_CryptoKey := first_of [p] (sc_CryptoKey c)\<rparr>"
  "set_ptr p (\<lambda>v c. c\<lparr>sc_TrustedSubnet := v\<rparr>) c = c\<lparr>sc_TrustedSubnet := first_of [p] (sc_TrustedSubnet c)\<rparr>"
  "set_ptr p (\<lambda>v c. c\<lparr>sc_AuditFile := v\<rparr>) c = c\<lparr>sc_AuditFile := first_of [p] (sc_AuditFile c)\<rparr>"
  "set_ptr p (\<lambda>v c. c\<lparr>sc_AuditURL := v\<rparr>) c = c\<lparr>sc_AuditURL := first_of [p] (sc_AuditURL c)\<rparr>"
  by (simp_all add: set_ptr_def split: option.splits)

lemma if_server [config_simps]:
  "(if b then c\<lparr>sc_HTTPAddr := v\<rparr> else c) = c\<lparr>sc_HTTPAddr := first_of [if b then Some v else None] (sc_HTTPAddr c)\<rparr>"
  "(if b then c\<lparr>sc_GRPCAddr := v\<rparr> else c) = c\<lparr>sc_GRPCAddr := first_of [if b then Some v else None] (sc_GRPCAddr c)\<rparr>"
  "(if b then c\<lparr>sc_GRPCTLSCert := v\<rparr> else c) = c\<lparr>sc_GRPCTLSCert := first_of [if b then Some v else None] (sc_GRPCTLSCert c)\<rparr>"
  "(if b then c\<lparr>sc_GRPCTLSKey := v\<rparr> else c) = c\<lparr>sc_GRPCTLSKey := first_of [if b then Some v else None] (sc_GRPCTLSKey c)\<rparr>"
  "(if b then c\<lparr>sc_StoreIntervalInSec := n\<rparr> else c) = c\<lparr>sc_StoreIntervalInSec := first_of [if b then Some n else None] (sc_StoreIntervalInSec c)\<rparr>"
  "(if b then c\<lparr>sc_FileStoragePath := v\<rparr> else c) = c\<lparr>sc_FileStoragePath := first_of [if b then Some v else None] (sc_FileStoragePath c)\<rparr>"
  "(if b then c\<lparr>sc_Restore := x\<rparr> else c) = c\<lparr>sc_Restore := first_of [if b then Some x else None] (sc_Restore c)\<rparr>"
  "(if b then c\<lparr>sc_DatabaseDSN := v\<rparr> else c) = c\<lparr>sc_DatabaseDSN := first_of [if b then Some v else None] (sc_DatabaseDSN c)\<rparr>"
  "(if b then c\<lparr>sc_Key := v\<rparr> else c) = c\<lparr>sc_Key := first_of [if b then Some v else None] (sc_Key c)\<rparr>"
  "(if b then c\<lparr>sc_CryptoKey := v\<rparr> else c) = c\<lparr>sc_CryptoKey := first_of [if b then Some v else None] (sc_CryptoKey c)\<rparr>"
  "(if b then c\<lparr>sc_TrustedSubnet := v\<rparr> else c) = c\<lparr>sc_TrustedSubnet := first_of [if b then Some v else None] (sc_TrustedSubnet c)\<rparr>"
  "(if b then c\<lparr>sc_AuditFile := v\<rparr> else c) = c\<lparr>sc_AuditFile := first_of [if b then Some v else None] (sc_AuditFile c)\<rparr>"
  "(if b then c\<lparr>sc_AuditURL := v\<rparr> else c) = c\<lparr>sc_AuditURL := first_of [if b then Some v else None] (sc_AuditURL c)\<rparr>"
  by simp_all

lemma applyServerFile_fields:
  assumes "applyServerFile f c = (c', None)"
  shows "c' = \<lparr>sc_HTTPAddr = first_of [sf_Address f] (sc_HTTPAddr c),
      sc_GRPCAddr = first_of [sf_GRPCAddress f] (sc_GRPCAddr c),
      sc_GRPCTLSCert = first_of [sf_GRPCTLSCert f] (sc_GRPCTLSCert c),
      sc_GRPCTLSKey = first_of [sf_GRPCTLSKey f] (sc_GRPCTLSKey c),
      sc_StoreIntervalInSec = first_of [file_seconds ''store_interval'' (sf_StoreInterval f)] (sc_StoreIntervalInSec c),
      sc_FileStoragePath = first_of [sf_StoreFile f] (sc_FileStoragePath c),
      sc_Restore = first_of [sf_Restore f] (sc_Restore c),
      sc_DatabaseDSN = first_of [sf_DatabaseDSN f] (sc_DatabaseDSN c),
      sc_Key = first_of [sf_Key f] (sc_Key c),
      sc_CryptoKey = first_of [sf_CryptoKey f] (sc_CryptoKey c),
      sc_TrustedSubnet = first_of [sf_TrustedSubnet f] (sc_TrustedSubnet c),
      sc_AuditFile = first_of [sf_AuditFile f] (sc_AuditFile c),
      sc_AuditURL = first_of [sf_AuditURL f] (sc_AuditURL c)\<rparr>"
  using assms
  by (auto simp: applyServerFile_def applyServerTLSFileConfig_def parseStoreInterval_def file_seconds_def config_simps Let_def
      split: option.splits sum.splits)

lemma applyServerEnvironment_fields:
  assumes "applyServerEnvironment env c = (c', None)"
  shows "c' = \<lparr>sc_HTTPAddr = first_of [env ''ADDRESS''] (sc_HTTPAddr c),
      sc_GRPCAddr = first_of [env ''GRPC_ADDRESS''] (sc_GRPCAddr c),
      sc_GRPCTLSCert = first_of [env ''GRPC_TLS_CERT''] (sc_GRPCTLSCert c),
      sc_GRPCTLSKey = first_of [env ''GRPC_TLS_KEY''] (sc_GRPCTLSKey c),
      sc_StoreIntervalInSec = first_of [env_int env ''STORE_INTERVAL''] (sc_StoreIntervalInSec c),
      sc_FileStoragePath = first_of [env ''STORE_FILE'', env ''FILE_STORAGE_PATH''] (sc_FileStoragePath c),
      sc_Restore = first_of [env_bool env ''RESTORE''] (sc_Restore c),
      sc_DatabaseDSN = first_of [env ''DATABASE_DSN''] (sc_DatabaseDSN c),
      sc_Key = first_of [env ''KEY''] (sc_Key c),
      sc_CryptoKey = first_of [env ''CRYPTO_KEY''] (sc_CryptoKey c),
      sc_TrustedSubnet = first_of [env ''TRUSTED_SUBNET''] (sc_TrustedSubnet c),
      sc_AuditFile = first_of [env ''AUDIT_FILE''] (sc_AuditFile c),
      sc_AuditURL = first_of [env ''AUDIT_URL''] (sc_AuditURL c)\<rparr>"
  using assms
  by (auto simp: applyServerEnvironment_def applyServerTLSEnvironment_def env_int_def env_bool_def config_simps Let_def
      split: sum.splits)

lemma applyServerFlags_fields:
  "applyServerFlags fc given c = \<lparr>sc_HTTPAddr = first_of [if given ''a'' then Some (sc_HTTPAddr fc) else None] (sc_HTTPAddr c),
      sc_GRPCAddr = first_of [if given ''g'' then Some (sc_GRPCAddr fc) else None] (sc_GRPCAddr c),
      sc_GRPCTLSCert = first_of [if given ''grpc-tls-cert'' then Some (sc_GRPCTLSCert fc) else None] (sc_GRPCTLSCert c),
      sc_GRPCTLSKey = first_of [if given ''grpc-tls-key'' then Some (sc_GRPCTLSKey fc) else None] (sc_GRPCTLSKey c),
      sc_StoreIntervalInSec = first_of [if given ''i'' then Some (sc_StoreIntervalInSec fc) else None] (sc_StoreIntervalInSec c),
      sc_FileStoragePath = first_of [if given ''f'' then Some (sc_FileStoragePath fc) else None] (sc_FileStoragePath c),
      sc_Restore = first_of [if given ''r'' then Some (sc_Restore fc) else None] (sc_Restore c),
      sc_DatabaseDSN = first_of [if given ''d'' then Some (sc_DatabaseDSN fc) else None] (sc_DatabaseDSN c),
      sc_Key = first_of [if given ''k'' then Some (sc_Key fc) else None] (sc_Key c),
      sc_CryptoKey = first_of [if given ''crypto-key'' then Some (sc_CryptoKey fc) else None] (sc_CryptoKey c),
      sc_TrustedSubnet = first_of [if given ''t'' then Some (sc_TrustedSubnet fc) else None] (sc_TrustedSubnet c),
      sc_AuditFile = first_of [if given ''audit-file'' then Some (sc_AuditFile fc) else None] (sc_AuditFile c),
      sc_AuditURL = first_of [if given ''audit-url'' then Some (sc_AuditURL fc) else None] (sc_AuditURL c)\<rparr>"
  by (simp only: applyServerFlags_def Let_def config_simps) simp

definition server_file :: "filesystem \<Rightarrow> string \<Rightarrow> serverFileConfig option" where
  "server_file fs filePath =
     (if filePath = [] then Some zero_serverFileConfig
      else case os_ReadFile filePath fs of
          Inl _ \<Rightarrow> None
        | Inr data \<Rightarrow> Option.bind (json_Unmarshal data) (\<lambda>j. decode_struct serverFile_field j zero_serverFileConfig))"

lemma parseServerConfig_ok:
  assumes "parseServerConfig pu fs args env = (cfg, None)"
  obtains asg f c1 where "FlagSet_Parse server_flags args = Inr asg" "server_file fs (config_path env asg) = Some f"
    "applyServerFile f defaultServerConfig = (c1, None)"
    "applyServerEnvironment env (applyServerFlags (server_flagCfg asg defaultServerConfig) (visited asg) c1) = (cfg, None)"
    "validateServerConfig pu cfg = None"
proof -
  have z: "applyServerFile zero_serverFileConfig defaultServerConfig = (defaultServerConfig, None)"
    by (simp add: applyServerFile_def applyServerTLSFileConfig_def zero_serverFileConfig_def set_ptr_def)
  show thesis
    using assms z that
    by (auto simp: parseServerConfig_def config_path_case loadServerConfigFile_def server_file_def Let_def
        split: sum.splits prod.splits if_splits option.splits)
qed

subsection \<open>Properties\<close>

text \<open>
  C25: Every field of an accepted server configuration comes from the strongest source that sets it:
  the environment (for the storage file the new variable before the old one), then a flag given on the
  command line, then the JSON file, then the default.
\<close>

theorem server_config_precedence:
  assumes "parseServerConfig pu fs args env = (cfg, None)"
  shows "\<exists>asg f. FlagSet_Parse server_flags args = Inr asg \<and> server_file fs (config_path env asg) = Some f \<and>
    sc_HTTPAddr cfg = first_of [env ''ADDRESS'', flag_given asg ''a'' (flag_string asg {''a''} ''localhost:8080''), sf_Address f] ''localhost:8080'' \<and>
    sc_GRPCAddr cfg = first_of [env ''GRPC_ADDRESS'', flag_given asg ''g'' (flag_string asg {''g''} ''localhost:50051''), sf_GRPCAddress f] ''localhost:50051'' \<and>
    sc_GRPCTLSCert cfg = first_of [env ''GRPC_TLS_CERT'', flag_given asg ''grpc-tls-cert'' (flag_string asg {''grpc-tls-cert''} []), sf_GRPCTLSCert f] [] \<and>
    sc_GRPCTLSKey cfg = first_of [env ''GRPC_TLS_KEY'', flag_given asg ''grpc-tls-key'' (flag_string asg {''grpc-tls-key''} []), sf_GRPCTLSKey f] [] \<and>
    sc_StoreIntervalInSec cfg = first_of [env_int env ''STORE_INTERVAL'', flag_given asg ''i'' (flag_int asg ''i'' 300), file_seconds ''store_interval'' (sf_StoreInterval f)] 300 \<and>
    sc_FileStoragePath cfg = first_of [env ''STORE_FILE'', env ''FILE_STORAGE_PATH'', flag_given asg ''f'' (flag_string asg {''f''} ''metrics-db.json''), sf_StoreFile f] ''metrics-db.json'' \<and>
    sc_Restore cfg = first_of [env_bool env ''RESTORE'', flag_given asg ''r'' (flag_bool asg ''r'' False), sf_Restore f] False \<and>
    sc_DatabaseDSN cfg = first_of [env ''DATABASE_DSN'', flag_given asg ''d'' (flag_string asg {''d''} []), sf_DatabaseDSN f] [] \<and>
    sc_Key cfg = first_of [env ''KEY'', flag_given asg ''k'' (flag_string asg {''k''} []), sf_Key f] [] \<and>
    sc_CryptoKey cfg = first_of [env ''CRYPTO_KEY'', flag_given asg ''crypto-key'' (flag_string asg {''crypto-key''} []), sf_CryptoKey f] [] \<and>
    sc_TrustedSubnet cfg = first_of [env ''TRUSTED_SUBNET'', flag_given asg ''t'' (flag_string asg {''t''} []), sf_TrustedSubnet f] [] \<and>
    sc_AuditFile cfg = first_of [env ''AUDIT_FILE'', flag_given asg ''audit-file'' (flag_string asg {''audit-file''} []), sf_AuditFile f] [] \<and>
    sc_AuditURL cfg = first_of [env ''AUDIT_URL'', flag_given asg ''audit-url'' (flag_string asg {''audit-url''} []), sf_AuditURL f] []"
proof -
  obtain asg f c1 where p: "FlagSet_Parse server_flags args = Inr asg" "server_file fs (config_path env asg) = Some f"
    "applyServerFile f defaultServerConfig = (c1, None)"
    "applyServerEnvironment env (applyServerFlags (server_flagCfg asg defaultServerConfig) (visited asg) c1) = (cfg, None)"
    by (rule parseServerConfig_ok [OF assms])
  show ?thesis
    using applyServerEnvironment_fields [OF p(4)] applyServerFile_fields [OF p(3)] p(1,2)
    by (simp add: applyServerFlags_fields server_flagCfg_def defaultServerConfig_def flag_given_def)
qed

definition demo_server_args :: "string list" where
  "demo_server_args = [''-f'', ''flag.json'', ''-r'', ''-t=10.0.0.0/8'', ''--'', ''-zzz'']"

definition demo_server_env :: lookupEnvFunc where
  "demo_server_env = [''FILE_STORAGE_PATH'' \<mapsto> ''old.json'', ''STORE_FILE'' \<mapsto> ''new.json'', ''STORE_INTERVAL'' \<mapsto> ''0'']"

definition demo_server_cfg :: ServerConfig where
  "demo_server_cfg = defaultServerConfig\<lparr>sc_FileStoragePath := ''new.json'', sc_Restore := True,
     sc_StoreIntervalInSec := 0, sc_TrustedSubnet := ''10.0.0.0/8''\<rparr>"

lemma demo_server_parse:
  "parseServerConfig (\<lambda>_. Inl (LibError ''unused'')) empty_fs demo_server_args demo_server_env = (demo_server_cfg, None)"
proof -
  have "FlagSet_Parse server_flags demo_server_args =
      Inr [(''f'', FlagString ''flag.json''), (''r'', FlagBool True), (''t'', FlagString ''10.0.0.0/8'')]"
    by (simp add: demo_server_args_def split_flag_def server_flags_def)
  moreover have "Atoi ''0'' = Inr 0"
    by (simp add: ParseInt_def ParseUint_def is_digit_def digit_value_def)
  moreover have "ParseCIDR ''10.0.0.0/8'' \<noteq> None"
    by code_simp
  ultimately show ?thesis
    by (simp add: parseServerConfig_def Let_def demo_server_env_def applyServerFlags_def applyServerEnvironment_def
        applyServerTLSEnvironment_def getEnvInt_def getEnvBool_def set_ptr_def visited_def flag_string_def flag_int_def
        flag_bool_def flag_set_value_def server_flagCfg_def defaultServerConfig_def demo_server_cfg_def validateServerConfig_def)
qed

theorem server_config_precedence_witness:
  "\<exists>asg f. FlagSet_Parse server_flags demo_server_args = Inr asg \<and>
     server_file empty_fs (config_path demo_server_env asg) = Some f \<and>
     sc_FileStoragePath demo_server_cfg = first_of [demo_server_env ''STORE_FILE'', demo_server_env ''FILE_STORAGE_PATH'',
        flag_given asg ''f'' (flag_string asg {''f''} ''metrics-db.json''), sf_StoreFile f] ''metrics-db.json''"
  using server_config_precedence [OF demo_server_parse] by blast


end
