(* ===== verification/PostgresStorage.thy ===== *)
theory PostgresStorage
  imports MetricsService Retry "HOL-Library.Product_Lexorder"
begin

text \<open>
  The PostgreSQL storage (\<^verbatim>\<open>src/internal/repository/postgresstorage.go\<close>). The statements of the source
  are given their meaning on the table \<^verbatim>\<open>metrics\<close> (primary key \<open>(id, type)\<close>, nullable columns \<^verbatim>\<open>total\<close>
  and \<^verbatim>\<open>value\<close>; adding out of the range of \<^verbatim>\<open>BIGINT\<close> is an error). Driver and server are a record of
  functions on a state \<open>'d\<close>; the locale \<open>pg_database\<close> says what the storage relies on: a call that
  returns no error has taken effect, one that returns an error has not, and a transaction takes
  effect when it commits. No other client writes to the table.

  Under these laws the storage meets the contract \<open>metrics_storage\<close>, with an effect exactly once per
  acknowledged call in spite of its retries. The laws hold for \<open>table_db\<close>, a table with a script of
  faults. Without the second law they do not: an error that arrives after the statement took effect
  makes the retry apply a counter twice.
\<close>

subsection \<open>The table and the statements\<close>

type_synonym pg_row = "int64 option \<times> float64 option"
type_synonym pg_table = "string \<times> string \<rightharpoonup> pg_row"

datatype sql =
    UpsertGauge string float64
  | UpsertCounter string int64
  | UpsertCounterReturning string int64
  | SelectGauge string
  | SelectCounter string
  | SelectAll

definition bigint_add :: "int64 \<Rightarrow> int64 \<Rightarrow> goerr + int64" where
  "bigint_add x y =
     (let s = sint x + sint y
      in if s < - (2 ^ 63) \<or> 2 ^ 63 \<le> s then Inl (PgError ''22003'') else Inr (x + y))"

definition upsert_counter :: "string \<Rightarrow> int64 \<Rightarrow> pg_table \<Rightarrow> goerr + pg_table" where
  "upsert_counter n d t =
     (case t (n, Counter) of
        None \<Rightarrow> Inr (t((n, Counter) \<mapsto> (Some d, None)))
      | Some (None, v) \<Rightarrow> Inr t
      | Some (Some x, v) \<Rightarrow>
          (case bigint_add x d of Inl e \<Rightarrow> Inl e | Inr y \<Rightarrow> Inr (t((n, Counter) \<mapsto> (Some y, v)))))"

fun sql_write :: "sql \<Rightarrow> pg_table \<Rightarrow> goerr + pg_table" where
  "sql_write (UpsertGauge n v) t =
     Inr (t((n, Gauge) \<mapsto> (case t (n, Gauge) of None \<Rightarrow> None | Some (x, _) \<Rightarrow> x, Some v)))"
| "sql_write (UpsertCounter n d) t = upsert_counter n d t"
| "sql_write (UpsertCounterReturning n d) t = upsert_counter n d t"
| "sql_write _ t = Inr t"

subsection \<open>The database as the storage sees it\<close>

text \<open>How a context ends; \<^verbatim>\<open>ctx.Err()\<close> is one of two errors.\<close>

datatype ctx_end = CtxCanceled | CtxDeadline

fun ctx_error :: "ctx_end \<Rightarrow> goerr" where
  "ctx_error CtxCanceled = ErrContextCanceled"
| "ctx_error CtxDeadline = ErrContextDeadlineExceeded"

text \<open>
  \<open>db_QueryFloat\<close> and \<open>db_QueryInt\<close> are \<^verbatim>\<open>QueryRowContext\<close> with \<^verbatim>\<open>Scan\<close> into a variable of that type,
  \<open>db_Query\<close> gives what scanning each row gives and the final \<^verbatim>\<open>rows.Err()\<close>. The transaction of the
  state is the one begun last.
\<close>

record 'd sql_db =
  db_ctx :: "'d \<Rightarrow> ctx_end option"
  db_wait :: "nat \<Rightarrow> 'd \<Rightarrow> ctx_end option \<times> 'd"
  db_Exec :: "sql \<Rightarrow> 'd \<Rightarrow> goerr option \<times> 'd"
  db_QueryFloat :: "sql \<Rightarrow> 'd \<Rightarrow> (goerr + float64) \<times> 'd"
  db_QueryInt :: "sql \<Rightarrow> 'd \<Rightarrow> (goerr + int64) \<times> 'd"
  db_Query :: "sql \<Rightarrow> 'd \<Rightarrow> (goerr + (goerr + (string \<times> string) \<times> pg_row) list \<times> goerr option) \<times> 'd"
  db_BeginTx :: "'d \<Rightarrow> goerr option \<times> 'd"
  tx_Exec :: "sql \<Rightarrow> 'd \<Rightarrow> goerr option \<times> 'd"
  tx_Commit :: "'d \<Rightarrow> goerr option \<times> 'd"
  tx_Rollback :: "'d \<Rightarrow> goerr option \<times> 'd"

record 'd PostgresStorage =
  pg_db :: "'d sql_db"

definition NewPostgresStorage :: "'d sql_db \<Rightarrow> 'd PostgresStorage" where
  "NewPostgresStorage db = \<lparr>pg_db = db\<rparr>"

subsection \<open>Retries\<close>

fun pg_error_code :: "goerr \<Rightarrow> string option" where
  "pg_error_code (PgError code) = Some code"
| "pg_error_code _ = None"

text \<open>\<^verbatim>\<open>pgerrcode.IsConnectionException\<close>: the codes of class 08.\<close>

definition IsConnectionException :: "string \<Rightarrow> bool" where
  "IsConnectionException code \<longleftrightarrow>
     code \<in> {''08000'', ''08003'', ''08006'', ''08001'', ''08004'', ''08007'', ''08P01''}"

definition isRetriablePGError :: "goerr \<Rightarrow> bool" where
  "isRetriablePGError err \<longleftrightarrow>
     (case errors_As pg_error_code err of None \<Rightarrow> False | Some code \<Rightarrow> IsConnectionException code)"

definition pg_waitRetry :: "'d sql_db \<Rightarrow> nat \<Rightarrow> 'd \<Rightarrow> goerr option \<times> 'd" where
  "pg_waitRetry db delay d = (case db_wait db delay d of (e, d') \<Rightarrow> (map_option ctx_error e, d'))"

fun retryDB_loop :: "'d sql_db \<Rightarrow> ('d \<Rightarrow> (goerr + 'a) \<times> 'd) \<Rightarrow> nat list \<Rightarrow> 'd \<Rightarrow> (goerr + 'a) \<times> 'd" where
  "retryDB_loop db opn delays d =
     (case db_ctx db d of
        Some c \<Rightarrow> (Inl (ctx_error c), d)
      | None \<Rightarrow>
          (case opn d of
             (Inr x, d1) \<Rightarrow> (Inr x, d1)
           | (Inl err, d1) \<Rightarrow>
               if \<not> isRetriablePGError err then (Inl err, d1)
               else (case delays of
                   [] \<Rightarrow> (Inl err, d1)
                 | delay # rest \<Rightarrow>
                     (case pg_waitRetry db delay d1 of
                        (Some e, d2) \<Rightarrow> (Inl e, d2)
                      | (None, d2) \<Rightarrow> retryDB_loop db opn rest d2))))"

declare retryDB_loop.simps [simp del]

definition retryDBOperation :: "'d sql_db \<Rightarrow> ('d \<Rightarrow> (goerr + 'a) \<times> 'd) \<Rightarrow> 'd \<Rightarrow> (goerr + 'a) \<times> 'd" where
  "retryDBOperation db opn d = retryDB_loop db opn retryDelays d"

subsection \<open>Operations\<close>

definition upsert_gauge_op :: "'d sql_db \<Rightarrow> string \<Rightarrow> float64 \<Rightarrow> 'd \<Rightarrow> (goerr + unit) \<times> 'd" where
  "upsert_gauge_op db metricName value d =
     (case db_Exec db (UpsertGauge metricName value) d of
        (Some err, d') \<Rightarrow> (Inl (ErrorfW ''exec upsert gauge query: %w'' [] err), d')
      | (None, d') \<Rightarrow> (Inr (), d'))"

definition Postgres_UpdateGauge :: "'d PostgresStorage \<Rightarrow> string \<Rightarrow> float64 \<Rightarrow> 'd \<Rightarrow> goerr option \<times> 'd" where
  "Postgres_UpdateGauge p metricName value d =
     (case retryDBOperation (pg_db p) (upsert_gauge_op (pg_db p) metricName value) d of
        (Inl err, d') \<Rightarrow> (Some err, d')
      | (Inr _, d') \<Rightarrow> (None, d'))"

definition upsert_counter_op :: "'d sql_db \<Rightarrow> string \<Rightarrow> int64 \<Rightarrow> 'd \<Rightarrow> (goerr + int64) \<times> 'd" where
  "upsert_counter_op db metricName delta d =
     (case db_QueryInt db (UpsertCounterReturning metricName delta) d of
        (Inl err, d') \<Rightarrow> (Inl (ErrorfW ''upsert counter query: %w'' [] err), d')
      | (Inr t, d') \<Rightarrow> (Inr t, d'))"

definition Postgres_UpdateCounter :: "'d PostgresStorage \<Rightarrow> string \<Rightarrow> int64 \<Rightarrow> 'd \<Rightarrow> (goerr + int64) \<times> 'd" where
  "Postgres_UpdateCounter p metricName delta d =
     retryDBOperation (pg_db p) (upsert_counter_op (pg_db p) metricName delta) d"

text \<open>The loop of the batch update; following a missing pointer panics.\<close>

fun tx_updates :: "'d sql_db \<Rightarrow> Metrics list \<Rightarrow> 'd \<Rightarrow> (goerr + unit outcome) \<times> 'd" where
  "tx_updates db [] d = (Inr (Return ()), d)"
| "tx_updates db (metric # metrics) d =
     (if MType metric = Gauge then
        (case Value metric of
           None \<Rightarrow> (Inr (Panic ''nil pointer dereference''), d)
         | Some v \<Rightarrow>
             (case tx_Exec db (UpsertGauge (ID metric) v) d of
                (Some err, d') \<Rightarrow> (Inl (ErrorfW ''update gauge %q: %w'' [FStr (ID metric)] err), d')
              | (None, d') \<Rightarrow> tx_updates db metrics d'))
      else if MType metric = Counter then
        (case Delta metric of
           None \<Rightarrow> (Inr (Panic ''nil pointer dereference''), d)
         | Some x \<Rightarrow>
             (case tx_Exec db (UpsertCounter (ID metric) x) d of
                (Some err, d') \<Rightarrow> (Inl (ErrorfW ''update counter %q: %w'' [FStr (ID metric)] err), d')
              | (None, d') \<Rightarrow> tx_updates db metrics d'))
      else tx_updates db metrics d)"

text \<open>The deferred rollback runs on every way out once the transaction has begun.\<close>

definition update_metrics_op :: "'d sql_db \<Rightarrow> Metrics list \<Rightarrow> 'd \<Rightarrow> (goerr + unit outcome) \<times> 'd" where
  "update_metrics_op db metrics d =
     (case db_BeginTx db d of
        (Some err, d1) \<Rightarrow> (Inl (ErrorfW ''begin tx: %w'' [] err), d1)
      | (None, d1) \<Rightarrow>
          (case (case tx_updates db metrics d1 of
                   (Inl err, d2) \<Rightarrow> (Inl err, d2)
                 | (Inr (Panic m), d2) \<Rightarrow> (Inr (Panic m), d2)
                 | (Inr (Return _), d2) \<Rightarrow>
                     (case tx_Commit db d2 of
                        (Some err, d3) \<Rightarrow> (Inl (ErrorfW ''commit tx: %w'' [] err), d3)
                      | (None, d3) \<Rightarrow> (Inr (Return ()), d3))) of
             (r, d4) \<Rightarrow> (r, snd (tx_Rollback db d4))))"

definition Postgres_UpdateMetrics :: "'d PostgresStorage \<Rightarrow> Metrics list \<Rightarrow> 'd \<Rightarrow> goerr option outcome \<times> 'd" where
  "Postgres_UpdateMetrics p metrics d =
     (case retryDBOperation (pg_db p) (update_metrics_op (pg_db p) metrics) d of
        (Inl err, d') \<Rightarrow> (Return (Some err), d')
      | (Inr (Panic m), d') \<Rightarrow> (Panic m, d')
      | (Inr (Return _), d') \<Rightarrow> (Return None, d'))"

definition select_gauge_op :: "'d sql_db \<Rightarrow> string \<Rightarrow> 'd \<Rightarrow> (goerr + float64) \<times> 'd" where
  "select_gauge_op db metricName d =
     (case db_QueryFloat db (SelectGauge metricName) d of
        (Inl err, d') \<Rightarrow>
          (Inl (if errors_Is err ErrNoRows then ErrMetricNotFound else ErrorfW ''query gauge: %w'' [] err), d')
      | (Inr v, d') \<Rightarrow> (Inr v, d'))"

definition Postgres_GetGauge :: "'d PostgresStorage \<Rightarrow> string \<Rightarrow> 'd \<Rightarrow> (goerr + float64) \<times> 'd" where
  "Postgres_GetGauge p metricName d = retryDBOperation (pg_db p) (select_gauge_op (pg_db p) metricName) d"

definition select_counter_op :: "'d sql_db \<Rightarrow> string \<Rightarrow> 'd \<Rightarrow> (goerr + int64) \<times> 'd" where
  "select_counter_op db metricName d =
     (case db_QueryInt db (SelectCounter metricName) d of
        (Inl err, d') \<Rightarrow>
          (Inl (if errors_Is err ErrNoRows then ErrMetricNotFound else ErrorfW ''query counter: %w'' [] err), d')
      | (Inr t, d') \<Rightarrow> (Inr t, d'))"

definition Postgres_GetCounter :: "'d PostgresStorage \<Rightarrow> string \<Rightarrow> 'd \<Rightarrow> (goerr + int64) \<times> 'd" where
  "Postgres_GetCounter p metricName d = retryDBOperation (pg_db p) (select_counter_op (pg_db p) metricName) d"

fun scan_snapshot ::
    "(goerr + (string \<times> string) \<times> pg_row) list \<Rightarrow> gauge_map \<Rightarrow> counter_map \<Rightarrow> goerr + gauge_map \<times> counter_map" where
  "scan_snapshot [] g c = Inr (g, c)"
| "scan_snapshot (Inl err # rows) g c = Inl (ErrorfW ''scan snapshot row: %w'' [] err)"
| "scan_snapshot (Inr ((i, mType), tot, val) # rows) g c =
     (if mType = Gauge then scan_snapshot rows (case val of None \<Rightarrow> g | Some v \<Rightarrow> g(i \<mapsto> v)) c
      else if mType = Counter then scan_snapshot rows g (case tot of None \<Rightarrow> c | Some t \<Rightarrow> c(i \<mapsto> t))
      else scan_snapshot rows g c)"

definition snapshot_op :: "'d sql_db \<Rightarrow> 'd \<Rightarrow> (goerr + gauge_map \<times> counter_map) \<times> 'd" where
  "snapshot_op db d =
     (case db_Query db SelectAll d of
        (Inl err, d') \<Rightarrow> (Inl (ErrorfW ''query snapshot: %w'' [] err), d')
      | (Inr (rows, rowsErr), d') \<Rightarrow>
          (case scan_snapshot rows Map.empty Map.empty of
             Inl err \<Rightarrow> (Inl err, d')
           | Inr gc \<Rightarrow>
               (case rowsErr of
                  Some err \<Rightarrow> (Inl (ErrorfW ''iterate snapshot rows: %w'' [] err), d')
                | None \<Rightarrow> (Inr gc, d'))))"

definition Postgres_Snapshot :: "'d PostgresStorage \<Rightarrow> 'd Snapshotter" where
  "Postgres_Snapshot p d = retryDBOperation (pg_db p) (snapshot_op (pg_db p)) d"

definition postgres_storage :: "'d PostgresStorage \<Rightarrow> 'd MetricsStorage" where
  "postgres_storage p =
     \<lparr>UpdateGauge = Postgres_UpdateGauge p, UpdateCounter = Postgres_UpdateCounter p,
      UpdateMetrics = Postgres_UpdateMetrics p, GetGauge = Postgres_GetGauge p,
      GetCounter = Postgres_GetCounter p, Snapshot = Postgres_Snapshot p\<rparr>"

lemma postgres_storage_sel [simp, iface_simps]:
  "UpdateGauge (postgres_storage p) = Postgres_UpdateGauge p"
  "UpdateCounter (postgres_storage p) = Postgres_UpdateCounter p"
  "UpdateMetrics (postgres_storage p) = Postgres_UpdateMetrics p"
  "GetGauge (postgres_storage p) = Postgres_GetGauge p"
  "GetCounter (postgres_storage p) = Postgres_GetCounter p"
  "Snapshot (postgres_storage p) = Postgres_Snapshot p"
  by (simp_all add: postgres_storage_def)

subsection \<open>What the storage shows\<close>

definition pg_view :: "pg_table \<Rightarrow> metrics_view" where
  "pg_view t =
     \<lparr>vgauges = (\<lambda>n. case t (n, Gauge) of None \<Rightarrow> None | Some r \<Rightarrow> snd r),
      vcounters = (\<lambda>n. case t (n, Counter) of None \<Rightarrow> None | Some r \<Rightarrow> fst r)\<rparr>"

text \<open>The rows that the storage writes: gauges have a value, counters a total.\<close>

definition table_wf :: "pg_table \<Rightarrow> bool" where
  "table_wf t \<longleftrightarrow>
     finite (dom t) \<and> (\<forall>n r. t (n, Gauge) = Some r \<longrightarrow> snd r \<noteq> None) \<and> (\<forall>n r. t (n, Counter) = Some r \<longrightarrow> fst r \<noteq> None)"

fun sql_effect :: "sql \<Rightarrow> metrics_view \<Rightarrow> metrics_view" where
  "sql_effect (UpsertGauge n v) = view_gauge n v"
| "sql_effect (UpsertCounter n d) = view_counter n d"
| "sql_effect (UpsertCounterReturning n d) = view_counter n d"
| "sql_effect _ = (\<lambda>w. w)"

lemma pg_view_sel [simp]:
  "vgauges (pg_view t) n = (case t (n, Gauge) of None \<Rightarrow> None | Some r \<Rightarrow> snd r)"
  "vcounters (pg_view t) n = (case t (n, Counter) of None \<Rightarrow> None | Some r \<Rightarrow> fst r)"
  by (simp_all add: pg_view_def)

lemma view_eqI: "(\<And>n. vgauges v n = vgauges w n) \<Longrightarrow> (\<And>n. vcounters v n = vcounters w n) \<Longrightarrow> v = w"
  for v w :: metrics_view
  by (cases v; cases w) (simp add: fun_eq_iff)

lemma bigint_add_Inr: "bigint_add x y = Inr z \<Longrightarrow> z = x + y"
  by (simp add: bigint_add_def Let_def split: if_splits)

lemma upsert_counter_view:
  assumes "table_wf t" "upsert_counter n d t = Inr t'"
  shows "table_wf t' \<and> pg_view t' = view_counter n d (pg_view t)"
proof (cases "t (n, Counter)")
  case None
  then have "t' = t((n, Counter) \<mapsto> (Some d, None))" using assms(2) by (simp add: upsert_counter_def)
  then show ?thesis using assms(1) None by (auto simp: table_wf_def counter_total_def intro!: view_eqI)
next
  case (Some r)
  then obtain x v where r: "t (n, Counter) = Some (Some x, v)"
    using assms(1) unfolding table_wf_def by (metis option.collapse prod.collapse)
  with assms(2) have "t' = t((n, Counter) \<mapsto> (Some (x + d), v))"
    by (auto simp: upsert_counter_def dest: bigint_add_Inr split: sum.splits)
  then show ?thesis using assms(1) r by (auto simp: table_wf_def counter_total_def intro!: view_eqI)
qed

lemma sql_write_view:
  assumes "table_wf t" "sql_write s t = Inr t'"
  shows "table_wf t' \<and> pg_view t' = sql_effect s (pg_view t)"
proof (cases s)
  case (UpsertGauge n v)
  then have "t' = t((n, Gauge) \<mapsto> (case t (n, Gauge) of None \<Rightarrow> None | Some (x, _) \<Rightarrow> x, Some v))"
    using assms(2) by simp
  then show ?thesis using assms(1) UpsertGauge by (auto simp: table_wf_def intro!: view_eqI)
qed (use assms upsert_counter_view in auto)

subsection \<open>What the storage relies on\<close>

definition pg_invar :: "('d \<Rightarrow> bool) \<Rightarrow> ('d \<Rightarrow> pg_table) \<Rightarrow> 'd \<Rightarrow> bool" where
  "pg_invar ok tab d \<longleftrightarrow> ok d \<and> table_wf (tab d)"

fun sql_row :: "sql \<Rightarrow> pg_table \<Rightarrow> pg_row option" where
  "sql_row (SelectGauge n) t = t (n, Gauge)"
| "sql_row (SelectCounter n) t = t (n, Counter)"
| "sql_row (UpsertCounterReturning n _) t = t (n, Counter)"
| "sql_row _ t = None"

locale pg_database =
  fixes db :: "'d sql_db"
    and tab :: "'d \<Rightarrow> pg_table"
    and txtab :: "'d \<Rightarrow> pg_table"
    and ok :: "'d \<Rightarrow> bool"
  assumes Exec_fails: "ok d \<Longrightarrow> db_Exec db s d = (Some e, d') \<Longrightarrow> ok d' \<and> tab d' = tab d"
    and Exec_works: "ok d \<Longrightarrow> db_Exec db s d = (None, d') \<Longrightarrow> ok d' \<and> sql_write s (tab d) = Inr (tab d')"
    and QueryInt_fails: "ok d \<Longrightarrow> db_QueryInt db s d = (Inl e, d') \<Longrightarrow>
      ok d' \<and> tab d' = tab d \<and> \<not> errors_Is e ErrMetricNotFound \<and> (errors_Is e ErrNoRows \<longrightarrow> sql_row s (tab d) = None)"
    and QueryInt_works: "ok d \<Longrightarrow> db_QueryInt db s d = (Inr x, d') \<Longrightarrow>
      ok d' \<and> sql_write s (tab d) = Inr (tab d') \<and> (\<exists>v. sql_row s (tab d') = Some (Some x, v))"
    and QueryFloat_fails: "ok d \<Longrightarrow> db_QueryFloat db s d = (Inl e, d') \<Longrightarrow>
      ok d' \<and> tab d' = tab d \<and> \<not> errors_Is e ErrMetricNotFound \<and> (errors_Is e ErrNoRows \<longrightarrow> sql_row s (tab d) = None)"
    and QueryFloat_works: "ok d \<Longrightarrow> db_QueryFloat db s d = (Inr y, d') \<Longrightarrow>
      ok d' \<and> sql_write s (tab d) = Inr (tab d') \<and> (\<exists>v. sql_row s (tab d') = Some (v, Some y))"
    and Query_keeps: "ok d \<Longrightarrow> db_Query db SelectAll d = (r, d') \<Longrightarrow> ok d' \<and> tab d' = tab d"
    and Query_rows: "ok d \<Longrightarrow> db_Query db SelectAll d = (Inr (map Inr rows, None), d') \<Longrightarrow> enumerates rows (tab d)"
    and BeginTx_fails: "ok d \<Longrightarrow> db_BeginTx db d = (Some e, d') \<Longrightarrow> ok d' \<and> tab d' = tab d"
    and BeginTx_works: "ok d \<Longrightarrow> db_BeginTx db d = (None, d') \<Longrightarrow> ok d' \<and> tab d' = tab d \<and> txtab d' = tab d"
    and tx_Exec_fails: "ok d \<Longrightarrow> tx_Exec db s d = (Some e, d') \<Longrightarrow> ok d' \<and> tab d' = tab d"
    and tx_Exec_works:
      "ok d \<Longrightarrow> tx_Exec db s d = (None, d') \<Longrightarrow> ok d' \<and> tab d' = tab d \<and> sql_write s (txtab d) = Inr (txtab d')"
    and Commit_fails: "ok d \<Longrightarrow> tx_Commit db d = (Some e, d') \<Longrightarrow> ok d' \<and> tab d' = tab d"
    and Commit_works: "ok d \<Longrightarrow> tx_Commit db d = (None, d') \<Longrightarrow> ok d' \<and> tab d' = txtab d"
    and Rollback_keeps: "ok d \<Longrightarrow> tx_Rollback db d = (eo, d') \<Longrightarrow> ok d' \<and> tab d' = tab d"
    and wait_keeps_table: "ok d \<Longrightarrow> db_wait db k d = (co, d') \<Longrightarrow> ok d' \<and> tab d' = tab d"
begin

abbreviation invar :: "'d \<Rightarrow> bool" where
  "invar d \<equiv> pg_invar ok tab d"

abbreviation shown :: "'d \<Rightarrow> metrics_view" where
  "shown d \<equiv> pg_view (tab d)"

lemma waits:
  "invar d \<Longrightarrow> pg_waitRetry db k d = (e, d') \<Longrightarrow> invar d' \<and> shown d' = shown d"
  using wait_keeps_table by (auto simp: pg_waitRetry_def pg_invar_def split: prod.splits)

end

subsection \<open>The retry loop of the storage is the general one\<close>

definition guarded :: "'d sql_db \<Rightarrow> ('d \<Rightarrow> (goerr + 'a) \<times> 'd) \<Rightarrow> 'd \<Rightarrow> (goerr + 'a) \<times> 'd" where
  "guarded db opn d = (case db_ctx db d of Some c \<Rightarrow> (Inl (ctx_error c), d) | None \<Rightarrow> opn d)"

lemma ctx_error_facts [simp]:
  "\<not> isRetriablePGError (ctx_error c)" "\<not> errors_Is (ctx_error c) ErrMetricNotFound"
  by (cases c; simp add: isRetriablePGError_def)+

lemma retryDB_loop_eq:
  "retryDB_loop db opn ds d = retry_loop (guarded db opn) isRetriablePGError (pg_waitRetry db) ds d"
  by (induction ds arbitrary: d; subst retryDB_loop.simps)
    (auto simp: guarded_def split: option.splits prod.splits sum.splits)

lemmas retryDBOperation_eq = retryDBOperation_def [unfolded retryDB_loop_eq]

text \<open>What the result of the loop says about the state, when attempts and waits say it.\<close>

context effective_attempts
begin

lemma retry_result:
  assumes "retry_loop attempt retriable wait ds n = (r, n')" "invar n"
    and "\<And>n r n'. invar n \<Longrightarrow> attempt n = (r, n') \<Longrightarrow> Q r (view n)"
    and "\<And>d n e n'. invar n \<Longrightarrow> wait d n = (Some e, n') \<Longrightarrow> Q (Inl e) (view n)"
  shows "Q r (view n)"
  using assms(1,2)
proof (induction ds arbitrary: n)
  case Nil
  then show ?case using assms(3) by simp
next
  case (Cons d ds)
  obtain r1 n1 where a: "attempt n = (r1, n1)" by force
  show ?case
  proof (cases r1)
    case (Inr x)
    with a Cons.prems assms(3) [OF Cons.prems(2) a] show ?thesis by simp
  next
    case (Inl e1)
    obtain eo n2 where w: "wait d n1 = (eo, n2)" by force
    have n1: "invar n1" "view n1 = view n" using attempt_fails [OF Cons.prems(2)] a Inl by simp_all
    with wait_keeps [OF n1(1) w] have n2: "invar n2" "view n2 = view n" by simp_all
    show ?thesis
      using Cons.prems a Inl w n1 n2 Cons.IH [of n2] assms(3) [OF Cons.prems(2) a] assms(4) [OF n1(1), of d _ n2]
      by (auto split: if_splits option.splits)
  qed
qed

end

text \<open>An attempt guarded by the context, and an error that means that the metric is missing.\<close>

lemma guarded_works: "guarded db opn d = (Inr x, d') \<Longrightarrow> opn d = (Inr x, d')"
  by (auto simp: guarded_def split: option.splits)

lemma guarded_fails: "guarded db opn d = (Inl e, d') \<Longrightarrow> opn d = (Inl e, d') \<or> d' = d \<and> (\<exists>c. e = ctx_error c)"
  by (auto simp: guarded_def split: option.splits)

lemma guarded_result: "guarded db opn d = (r, d') \<Longrightarrow> opn d = (r, d') \<or> (\<exists>c. r = Inl (ctx_error c))"
  by (auto simp: guarded_def split: option.splits)

lemma wait_error: "pg_waitRetry db k d = (Some e, d') \<Longrightarrow> \<exists>c. e = ctx_error c"
  by (auto simp: pg_waitRetry_def split: prod.splits)

context pg_database
begin

text \<open>An operation that changes nothing when it fails, retried.\<close>

lemma effective:
  assumes "\<And>d e d'. invar d \<Longrightarrow> opn d = (Inl e, d') \<Longrightarrow> invar d' \<and> shown d' = shown d"
    and "\<And>d x d'. invar d \<Longrightarrow> opn d = (Inr x, d') \<Longrightarrow> invar d' \<and> (x, shown d') = eff (shown d)"
  shows "effective_attempts (guarded db opn) (pg_waitRetry db) shown eff invar"
  using assms waits by unfold_locales (blast dest: guarded_works guarded_fails)+

lemma write_step:
  "table_wf (tab d) \<Longrightarrow> ok d' \<Longrightarrow> sql_write s (tab d) = Inr (tab d') \<Longrightarrow> invar d' \<and> shown d' = sql_effect s (shown d)"
  using sql_write_view [of "tab d" s "tab d'"] by (simp add: pg_invar_def)

lemma upsert_gauge_effective:
  "effective_attempts (guarded db (upsert_gauge_op db n v)) (pg_waitRetry db) shown (\<lambda>w. ((), view_gauge n v w)) invar"
proof (rule effective)
  fix d e d' assume "invar d" "upsert_gauge_op db n v d = (Inl e, d')"
  then show "invar d' \<and> shown d' = shown d"
    using Exec_fails [of d "UpsertGauge n v"] by (auto simp: upsert_gauge_op_def pg_invar_def split: prod.splits option.splits)
next
  fix d x d' assume d: "invar d" "upsert_gauge_op db n v d = (Inr x, d')"
  then have "db_Exec db (UpsertGauge n v) d = (None, d')"
    by (auto simp: upsert_gauge_op_def split: prod.splits option.splits)
  with d(1) show "invar d' \<and> (x, shown d') = ((), view_gauge n v (shown d))"
    using Exec_works [of d "UpsertGauge n v" d'] write_step [of d d' "UpsertGauge n v"] by (auto simp: pg_invar_def)
qed

lemma upsert_counter_effective:
  "effective_attempts (guarded db (upsert_counter_op db n k)) (pg_waitRetry db) shown
     (\<lambda>w. (counter_total (vcounters w) n + k, view_counter n k w)) invar"
proof (rule effective)
  fix d e d' assume "invar d" "upsert_counter_op db n k d = (Inl e, d')"
  then show "invar d' \<and> shown d' = shown d"
    using QueryInt_fails [of d "UpsertCounterReturning n k"]
    by (auto simp: upsert_counter_op_def pg_invar_def split: prod.splits sum.splits)
next
  fix d x d' assume d: "invar d" "upsert_counter_op db n k d = (Inr x, d')"
  then have "db_QueryInt db (UpsertCounterReturning n k) d = (Inr x, d')"
    by (auto simp: upsert_counter_op_def split: prod.splits sum.splits)
  with d(1) have w: "ok d'" "sql_write (UpsertCounterReturning n k) (tab d) = Inr (tab d')" "\<exists>v. tab d' (n, Counter) = Some (Some x, v)"
    using QueryInt_works [of d "UpsertCounterReturning n k" x d'] by (auto simp: pg_invar_def)
  with d(1) have s: "invar d'" "shown d' = view_counter n k (shown d)"
    using write_step [of d d' "UpsertCounterReturning n k"] by (auto simp: pg_invar_def)
  from w(3) have "vcounters (shown d') n = Some x" by auto
  with s show "invar d' \<and> (x, shown d') = (counter_total (vcounters (shown d)) n + k, view_counter n k (shown d))" by simp
qed

end

text \<open>Scanning the rows of a table.\<close>

lemma scan_snapshot_ok: "scan_snapshot rows g c = Inr gc \<Longrightarrow> \<exists>rs. rows = map Inr rs"
proof (induction rows g c rule: scan_snapshot.induct)
  case (3 i mType tot val rows g c)
  then have "\<exists>rs. rows = map Inr rs" by (auto split: if_splits)
  then obtain rs where "rows = map Inr rs" by blast
  then show ?case by (intro exI [of _ "((i, mType), tot, val) # rs"]) simp
qed simp_all

lemma scan_snapshot_maps:
  assumes "distinct (map fst rs)" "scan_snapshot (map Inr rs) g c = Inr (g', c')"
  shows "g' n = (case map_of rs (n, Gauge) of Some (_, Some v) \<Rightarrow> Some v | _ \<Rightarrow> g n)"
    and "c' n = (case map_of rs (n, Counter) of Some (Some x, _) \<Rightarrow> Some x | _ \<Rightarrow> c n)"
proof -
  have "g' n = (case map_of rs (n, Gauge) of Some (_, Some v) \<Rightarrow> Some v | _ \<Rightarrow> g n) \<and>
      c' n = (case map_of rs (n, Counter) of Some (Some x, _) \<Rightarrow> Some x | _ \<Rightarrow> c n)"
    using assms
  proof (induction rs arbitrary: g c)
    case (Cons r rs)
    obtain i t x v where r: "r = ((i, t), x, v)" by (metis prod.collapse)
    have fresh: "map_of rs (i, t) = None"
      using Cons.prems(1) r by (auto simp: map_of_eq_None_iff)
    show ?case
      using Cons.prems Cons.IH r fresh
      by (cases "t = Gauge"; cases "t = Counter"; cases x; cases v) (auto split: if_splits option.splits)
  qed auto
  then show "g' n = (case map_of rs (n, Gauge) of Some (_, Some v) \<Rightarrow> Some v | _ \<Rightarrow> g n)"
    and "c' n = (case map_of rs (n, Counter) of Some (Some x, _) \<Rightarrow> Some x | _ \<Rightarrow> c n)" by auto
qed

context pg_database
begin

lemma tx_updates_step:
  assumes "tx_updates db ms d = (r, d')" "ok d" "table_wf (txtab d)" "list_all complete_metric ms"
  shows "ok d' \<and> tab d' = tab d \<and>
    (case r of Inl _ \<Rightarrow> True
     | Inr o' \<Rightarrow> o' = Return () \<and> table_wf (txtab d') \<and> pg_view (txtab d') = view_metrics ms (pg_view (txtab d)))"
  using assms
proof (induction ms arbitrary: d)
  case (Cons m ms)
  define s where "s = (if MType m = Gauge then UpsertGauge (ID m) (the (Value m)) else UpsertCounter (ID m) (the (Delta m)))"
  obtain eo d1 where x: "tx_Exec db s d = (eo, d1)" by force
  have eff: "sql_effect s = view_metric m"
    using Cons.prems(4) by (auto simp: s_def view_metric_def complete_metric_def fun_eq_iff)
  have run: "tx_updates db (m # ms) d =
      (case eo of Some err \<Rightarrow> (Inl (if MType m = Gauge then ErrorfW ''update gauge %q: %w'' [FStr (ID m)] err
          else ErrorfW ''update counter %q: %w'' [FStr (ID m)] err), d1) | None \<Rightarrow> tx_updates db ms d1)"
    using Cons.prems(4) x by (auto simp: s_def complete_metric_def split: option.splits)
  show ?case
  proof (cases eo)
    case None
    from tx_Exec_works [OF Cons.prems(2)] x None have d1: "ok d1" "tab d1 = tab d" "sql_write s (txtab d) = Inr (txtab d1)"
      by auto
    from sql_write_view [OF Cons.prems(3) d1(3)] have t1: "table_wf (txtab d1)" "pg_view (txtab d1) = view_metric m (pg_view (txtab d))"
      by (simp_all add: eff)
    have "tx_updates db ms d1 = (r, d')" using run None Cons.prems(1) by (simp only: option.case)
    from Cons.IH [OF this d1(1) t1(1)] Cons.prems(4) d1(2) t1(2) show ?thesis by (simp split: sum.splits)
  next
    case (Some err)
    with tx_Exec_fails [OF Cons.prems(2)] x Cons.prems(1) run show ?thesis by auto
  qed
qed (auto split: sum.splits)

lemma update_metrics_op_step:
  assumes "invar d" "list_all complete_metric ms" "update_metrics_op db ms d = (r, d')"
  shows "invar d' \<and> (case r of Inl _ \<Rightarrow> shown d' = shown d | Inr o' \<Rightarrow> o' = Return () \<and> shown d' = view_metrics ms (shown d))"
proof -
  obtain e1 d1 where b: "db_BeginTx db d = (e1, d1)" by force
  show ?thesis
  proof (cases e1)
    case (Some err)
    with b assms BeginTx_fails [of d err d1] show ?thesis by (auto simp: update_metrics_op_def pg_invar_def)
  next
    case None
    with b assms(1) BeginTx_works [of d d1] have d1: "ok d1" "tab d1 = tab d" "txtab d1 = tab d" "table_wf (txtab d1)"
      by (auto simp: pg_invar_def)
    obtain r2 d2 where u: "tx_updates db ms d1 = (r2, d2)" by force
    note d2 = tx_updates_step [OF u d1(1,4) assms(2)]
    obtain e3 d3 where c: "tx_Commit db d2 = (e3, d3)" by force
    have d3: "ok d3" "e3 \<noteq> None \<Longrightarrow> tab d3 = tab d" "e3 = None \<Longrightarrow> tab d3 = txtab d2"
      using Commit_fails [of d2 _ d3] Commit_works [of d2 d3] c d2 d1(2) by (cases e3; auto)+
    have rb: "ok (snd (tx_Rollback db x)) \<and> tab (snd (tx_Rollback db x)) = tab x" if "ok x" for x
      using Rollback_keeps [OF that] by (metis prod.collapse)
    show ?thesis
    proof (cases r2)
      case (Inl err)
      with assms(1,3) b None u d1 d2 rb [of d2] show ?thesis by (auto simp: update_metrics_op_def pg_invar_def)
    next
      case (Inr o2)
      with assms(1,3) b None u c d1 d2 d3 rb [of d3] show ?thesis
        by (cases e3) (auto simp: update_metrics_op_def pg_invar_def)
    qed
  qed
qed

lemma update_metrics_effective:
  assumes "list_all complete_metric ms"
  shows "effective_attempts (guarded db (update_metrics_op db ms)) (pg_waitRetry db) shown (\<lambda>w. (Return (), view_metrics ms w)) invar"
  using update_metrics_op_step [OF _ assms] by (intro effective) force+

lemma select_gauge_cases:
  assumes "invar d" "select_gauge_op db n d = (r, d')"
  shows "invar d' \<and> shown d' = shown d \<and>
    (case r of Inr x \<Rightarrow> vgauges (shown d) n = Some x | Inl e \<Rightarrow> errors_Is e ErrMetricNotFound \<longrightarrow> vgauges (shown d) n = None)"
proof -
  obtain r1 d1 where q: "db_QueryFloat db (SelectGauge n) d = (r1, d1)" by force
  show ?thesis
  proof (cases r1)
    case (Inl e)
    with QueryFloat_fails [of d "SelectGauge n" e d1] q assms show ?thesis by (auto simp: select_gauge_op_def pg_invar_def)
  next
    case (Inr x)
    with QueryFloat_works [of d "SelectGauge n" x d1] q assms show ?thesis by (auto simp: select_gauge_op_def pg_invar_def)
  qed
qed

lemma select_gauge_effective:
  "effective_attempts (guarded db (select_gauge_op db n)) (pg_waitRetry db) shown (\<lambda>w. (the (vgauges w n), w)) invar"
  by (rule effective) (drule (1) select_gauge_cases, simp)+

lemma select_counter_cases:
  assumes "invar d" "select_counter_op db n d = (r, d')"
  shows "invar d' \<and> shown d' = shown d \<and>
    (case r of Inr x \<Rightarrow> vcounters (shown d) n = Some x | Inl e \<Rightarrow> errors_Is e ErrMetricNotFound \<longrightarrow> vcounters (shown d) n = None)"
proof -
  obtain r1 d1 where q: "db_QueryInt db (SelectCounter n) d = (r1, d1)" by force
  show ?thesis
  proof (cases r1)
    case (Inl e)
    with QueryInt_fails [of d "SelectCounter n" e d1] q assms show ?thesis by (auto simp: select_counter_op_def pg_invar_def)
  next
    case (Inr x)
    with QueryInt_works [of d "SelectCounter n" x d1] q assms show ?thesis by (auto simp: select_counter_op_def pg_invar_def)
  qed
qed

lemma select_counter_effective:
  "effective_attempts (guarded db (select_counter_op db n)) (pg_waitRetry db) shown (\<lambda>w. (the (vcounters w n), w)) invar"
  by (rule effective) (drule (1) select_counter_cases, simp)+

lemma snapshot_effective:
  "effective_attempts (guarded db (snapshot_op db)) (pg_waitRetry db) shown (\<lambda>w. ((vgauges w, vcounters w), w)) invar"
proof (rule effective)
  fix d e d' assume d: "invar d" "snapshot_op db d = (Inl e, d')"
  obtain r d1 where "db_Query db SelectAll d = (r, d1)" by force
  with d Query_keeps [of d r d1] show "invar d' \<and> shown d' = shown d"
    by (auto simp: snapshot_op_def pg_invar_def split: sum.splits prod.splits option.splits)
next
  fix d x d' assume d: "invar d" "snapshot_op db d = (Inr x, d')"
  then obtain rows where q: "db_Query db SelectAll d = (Inr (rows, None), d')" "scan_snapshot rows Map.empty Map.empty = Inr x"
    by (auto simp: snapshot_op_def split: sum.splits prod.splits option.splits)
  then obtain rs where rs: "rows = map Inr rs" using scan_snapshot_ok by blast
  have en: "enumerates rs (tab d)" using Query_rows [of d rs d'] q(1) rs d(1) by (simp add: pg_invar_def)
  obtain g c where x: "x = (g, c)" by force
  have di: "distinct (map fst rs)" "map_of rs = tab d" using en by (simp_all add: enumerates_def)
  note m = scan_snapshot_maps [OF di(1) q(2) [unfolded rs x]]
  have "g = vgauges (shown d)" "c = vcounters (shown d)"
    using m by (auto simp: fun_eq_iff di(2) split: option.splits)
  moreover have "invar d' \<and> shown d' = shown d" using Query_keeps [of d _ d'] q(1) d(1) by (auto simp: pg_invar_def)
  ultimately show "invar d' \<and> (x, shown d') = ((vgauges (shown d), vcounters (shown d)), shown d)" using x by simp
qed

end

subsection \<open>The contract of a storage\<close>

context pg_database
begin

lemmas once =
  effective_attempts.retry_exactly_once [OF upsert_gauge_effective] effective_attempts.retry_exactly_once [OF upsert_counter_effective]
  effective_attempts.retry_exactly_once [OF update_metrics_effective] effective_attempts.retry_exactly_once [OF select_gauge_effective]
  effective_attempts.retry_exactly_once [OF select_counter_effective] effective_attempts.retry_exactly_once [OF snapshot_effective]

text \<open>Each operation has its effect exactly once when it succeeds and none when it fails.\<close>

lemma pg_UpdateGauge_once:
  assumes "invar d" "Postgres_UpdateGauge (NewPostgresStorage db) n v d = (e, d')"
  shows "invar d' \<and> shown d' = (if e = None then view_gauge n v (shown d) else shown d)"
proof -
  obtain r where r: "retry_loop (guarded db (upsert_gauge_op db n v)) isRetriablePGError (pg_waitRetry db) retryDelays d = (r, d')"
    "e = None \<longleftrightarrow> r = Inr ()"
    using assms(2) by (auto simp: Postgres_UpdateGauge_def NewPostgresStorage_def retryDBOperation_eq split: prod.splits sum.splits)
  from once(1) [OF r(1) assms(1)] r(2) show ?thesis by (cases r) auto
qed

lemma pg_UpdateCounter_once:
  assumes "invar d" "Postgres_UpdateCounter (NewPostgresStorage db) n k d = (r, d')"
  shows "invar d' \<and> (case r of Inl _ \<Rightarrow> shown d' = shown d
    | Inr t \<Rightarrow> shown d' = view_counter n k (shown d) \<and> t = counter_total (vcounters (shown d)) n + k)"
  using once(2) [OF _ assms(1)] assms(2)
  by (fastforce simp: Postgres_UpdateCounter_def NewPostgresStorage_def retryDBOperation_eq split: sum.splits)

lemma pg_UpdateMetrics_once:
  assumes "invar d" "list_all complete_metric ms" "Postgres_UpdateMetrics (NewPostgresStorage db) ms d = (r, d')"
  shows "invar d' \<and> (\<exists>e. r = Return e \<and> shown d' = (if e = None then view_metrics ms (shown d) else shown d))"
proof -
  obtain r1 where r: "retry_loop (guarded db (update_metrics_op db ms)) isRetriablePGError (pg_waitRetry db) retryDelays d = (r1, d')"
    "r = (case r1 of Inl e \<Rightarrow> Return (Some e) | Inr (Panic m) \<Rightarrow> Panic m | Inr (Return _) \<Rightarrow> Return None)"
    using assms(3)
    by (auto simp: Postgres_UpdateMetrics_def NewPostgresStorage_def retryDBOperation_eq split: prod.splits sum.splits outcome.splits)
  from once(3) [OF assms(2) r(1) assms(1)] r(2) show ?thesis by (cases r1) auto
qed

lemma pg_GetGauge_reads:
  assumes "invar d" "Postgres_GetGauge (NewPostgresStorage db) n d = (r, d')"
  shows "invar d' \<and> shown d' = shown d \<and>
    (case r of Inr x \<Rightarrow> vgauges (shown d) n = Some x | Inl e \<Rightarrow> errors_Is e ErrMetricNotFound \<longrightarrow> vgauges (shown d) n = None)"
proof -
  have r: "retry_loop (guarded db (select_gauge_op db n)) isRetriablePGError (pg_waitRetry db) retryDelays d = (r, d')"
    using assms(2) by (simp add: Postgres_GetGauge_def NewPostgresStorage_def retryDBOperation_eq)
  let ?Q = "\<lambda>r w. case r of Inr x \<Rightarrow> vgauges w n = Some x | Inl e \<Rightarrow> errors_Is e ErrMetricNotFound \<longrightarrow> vgauges w n = None"
  have "?Q r (shown d)"
  proof (rule effective_attempts.retry_result [OF select_gauge_effective r assms(1), where Q = ?Q])
    fix d r d' assume i: "invar d" and "guarded db (select_gauge_op db n) d = (r, d')"
    from guarded_result [OF this(2)] show "?Q r (shown d)" using select_gauge_cases [OF i] by fastforce
  next
    fix k d e d' assume "pg_waitRetry db k d = (Some e, d')"
    from wait_error [OF this] show "?Q (Inl e) (shown d)" by auto
  qed
  moreover have "invar d' \<and> shown d' = shown d" using once(4) [OF r assms(1)] by (cases r) (simp_all del: pg_view_sel)
  ultimately show ?thesis by blast
qed

lemma pg_GetCounter_reads:
  assumes "invar d" "Postgres_GetCounter (NewPostgresStorage db) n d = (r, d')"
  shows "invar d' \<and> shown d' = shown d \<and>
    (case r of Inr x \<Rightarrow> vcounters (shown d) n = Some x | Inl e \<Rightarrow> errors_Is e ErrMetricNotFound \<longrightarrow> vcounters (shown d) n = None)"
proof -
  have r: "retry_loop (guarded db (select_counter_op db n)) isRetriablePGError (pg_waitRetry db) retryDelays d = (r, d')"
    using assms(2) by (simp add: Postgres_GetCounter_def NewPostgresStorage_def retryDBOperation_eq)
  let ?Q = "\<lambda>r w. case r of Inr x \<Rightarrow> vcounters w n = Some x | Inl e \<Rightarrow> errors_Is e ErrMetricNotFound \<longrightarrow> vcounters w n = None"
  have "?Q r (shown d)"
  proof (rule effective_attempts.retry_result [OF select_counter_effective r assms(1), where Q = ?Q])
    fix d r d' assume i: "invar d" and "guarded db (select_counter_op db n) d = (r, d')"
    from guarded_result [OF this(2)] show "?Q r (shown d)" using select_counter_cases [OF i] by fastforce
  next
    fix k d e d' assume "pg_waitRetry db k d = (Some e, d')"
    from wait_error [OF this] show "?Q (Inl e) (shown d)" by auto
  qed
  moreover have "invar d' \<and> shown d' = shown d" using once(5) [OF r assms(1)] by (cases r) (simp_all del: pg_view_sel)
  ultimately show ?thesis by blast
qed

lemma pg_Snapshot_reads:
  assumes "invar d" "Postgres_Snapshot (NewPostgresStorage db) d = (r, d')"
  shows "invar d' \<and> shown d' = shown d \<and> (\<forall>g c. r = Inr (g, c) \<longrightarrow> g = vgauges (shown d) \<and> c = vcounters (shown d))"
  using once(6) [OF _ assms(1)] assms(2)
  by (fastforce simp: Postgres_Snapshot_def NewPostgresStorage_def retryDBOperation_eq split: sum.splits)

lemma shown_finite: "invar d \<Longrightarrow> finite (dom (vgauges (shown d))) \<and> finite (dom (vcounters (shown d)))"
proof -
  assume "invar d"
  then have "finite (fst ` dom (tab d))" by (simp add: pg_invar_def table_wf_def)
  moreover have "dom (vgauges (shown d)) \<subseteq> fst ` dom (tab d)" "dom (vcounters (shown d)) \<subseteq> fst ` dom (tab d)"
    by (force split: option.splits)+
  ultimately show ?thesis using finite_subset by blast
qed

end

sublocale pg_database \<subseteq> storage: metrics_storage "postgres_storage (NewPostgresStorage db)" shown invar
proof (unfold_locales, unfold postgres_storage_sel)
  fix d n v eo d' k r ms ro x e
  assume i: "invar d"
  show "Postgres_UpdateGauge (NewPostgresStorage db) n v d = (eo, d') \<Longrightarrow> invar d'"
    "Postgres_UpdateGauge (NewPostgresStorage db) n v d = (None, d') \<Longrightarrow> shown d' = view_gauge n v (shown d)"
    using pg_UpdateGauge_once [OF i] by fastforce+
  show "Postgres_UpdateCounter (NewPostgresStorage db) n k d = (r, d') \<Longrightarrow> invar d'"
    "Postgres_UpdateCounter (NewPostgresStorage db) n k d = (Inr x, d') \<Longrightarrow>
       shown d' = view_counter n k (shown d) \<and> vcounters (shown d') n = Some x"
    using pg_UpdateCounter_once [OF i, of n k] by fastforce+
  show "list_all complete_metric ms \<Longrightarrow> Postgres_UpdateMetrics (NewPostgresStorage db) ms d = (ro, d') \<Longrightarrow> invar d' \<and> returns ro"
    "list_all complete_metric ms \<Longrightarrow> Postgres_UpdateMetrics (NewPostgresStorage db) ms d = (Return None, d') \<Longrightarrow>
       shown d' = view_metrics ms (shown d)"
    using pg_UpdateMetrics_once [OF i, of ms] by fastforce+
  show "Postgres_GetCounter (NewPostgresStorage db) n d = (r, d') \<Longrightarrow> invar d' \<and> shown d' = shown d"
    "Postgres_GetCounter (NewPostgresStorage db) n d = (Inr x, d') \<Longrightarrow> vcounters (shown d) n = Some x"
    "Postgres_GetCounter (NewPostgresStorage db) n d = (Inl e, d') \<Longrightarrow> errors_Is e ErrMetricNotFound \<Longrightarrow> vcounters (shown d) n = None"
    using pg_GetCounter_reads [OF i, of n] by fastforce+
  show "finite (dom (vgauges (shown d))) \<and> finite (dom (vcounters (shown d)))" by (rule shown_finite [OF i])
next
  fix d n d' e and rg :: "goerr + float64" and x
  assume i: "invar d"
  show "Postgres_GetGauge (NewPostgresStorage db) n d = (rg, d') \<Longrightarrow> invar d' \<and> shown d' = shown d"
    "Postgres_GetGauge (NewPostgresStorage db) n d = (Inr x, d') \<Longrightarrow> vgauges (shown d) n = Some x"
    "Postgres_GetGauge (NewPostgresStorage db) n d = (Inl e, d') \<Longrightarrow> errors_Is e ErrMetricNotFound \<Longrightarrow> vgauges (shown d) n = None"
    using pg_GetGauge_reads [OF i, of n] by fastforce+
next
  fix d d' rs g c
  assume i: "invar d"
  show "Postgres_Snapshot (NewPostgresStorage db) d = (rs, d') \<Longrightarrow> invar d' \<and> shown d' = shown d"
    "Postgres_Snapshot (NewPostgresStorage db) d = (Inr (g, c), d') \<Longrightarrow> g = vgauges (shown d) \<and> c = vcounters (shown d)"
    using pg_Snapshot_reads [OF i] by fastforce+
qed

subsection \<open>A table with a script of faults\<close>

text \<open>
  Every call consumes one entry of the script: it works, or it fails without an effect, or it takes
  effect and then reports an error, as when the connection breaks before the answer arrives.
\<close>

datatype pg_fault = NoFault | FailBefore goerr | FailAfter goerr

record pg_state =
  ps_table :: pg_table
  ps_tx :: pg_table
  ps_faults :: "pg_fault list"
  ps_ctx :: "ctx_end option"

definition with_fault :: "(pg_state \<Rightarrow> (goerr + 'a) \<times> pg_state) \<Rightarrow> pg_state \<Rightarrow> (goerr + 'a) \<times> pg_state" where
  "with_fault action st =
     (case ps_faults st of
        [] \<Rightarrow> action st
      | NoFault # fs \<Rightarrow> action (st\<lparr>ps_faults := fs\<rparr>)
      | FailBefore e # fs \<Rightarrow> (Inl e, st\<lparr>ps_faults := fs\<rparr>)
      | FailAfter e # fs \<Rightarrow> (Inl e, snd (action (st\<lparr>ps_faults := fs\<rparr>))))"

definition as_err :: "(goerr + 'a) \<times> 's \<Rightarrow> goerr option \<times> 's" where
  "as_err r = (case r of (Inl e, s) \<Rightarrow> (Some e, s) | (Inr _, s) \<Rightarrow> (None, s))"

definition act_write :: "sql \<Rightarrow> pg_state \<Rightarrow> (goerr + unit) \<times> pg_state" where
  "act_write s st = (case sql_write s (ps_table st) of Inl e \<Rightarrow> (Inl e, st) | Inr t \<Rightarrow> (Inr (), st\<lparr>ps_table := t\<rparr>))"

definition act_tx_write :: "sql \<Rightarrow> pg_state \<Rightarrow> (goerr + unit) \<times> pg_state" where
  "act_tx_write s st = (case sql_write s (ps_tx st) of Inl e \<Rightarrow> (Inl e, st) | Inr t \<Rightarrow> (Inr (), st\<lparr>ps_tx := t\<rparr>))"

definition act_row :: "(pg_row \<Rightarrow> 'a option) \<Rightarrow> sql \<Rightarrow> pg_state \<Rightarrow> (goerr + 'a) \<times> pg_state" where
  "act_row col s st =
     (case sql_write s (ps_table st) of
        Inl e \<Rightarrow> (Inl e, st)
      | Inr t \<Rightarrow>
          (case sql_row s t of
             None \<Rightarrow> (Inl ErrNoRows, st)
           | Some r \<Rightarrow>
               (case col r of
                  None \<Rightarrow> (Inl (LibError ''converting NULL is unsupported''), st)
                | Some x \<Rightarrow> (Inr x, st\<lparr>ps_table := t\<rparr>))))"

definition table_rows :: "pg_table \<Rightarrow> ((string \<times> string) \<times> pg_row) list" where
  "table_rows t = map (\<lambda>k. (k, the (t k))) (sorted_list_of_set (dom t))"

definition table_db :: "pg_state sql_db" where
  "table_db =
     \<lparr>db_ctx = ps_ctx, db_wait = (\<lambda>k st. (ps_ctx st, st)),
      db_Exec = (\<lambda>s st. as_err (with_fault (act_write s) st)),
      db_QueryFloat = (\<lambda>s. with_fault (act_row snd s)), db_QueryInt = (\<lambda>s. with_fault (act_row fst s)),
      db_Query = (\<lambda>s. with_fault (\<lambda>st. (Inr (map Inr (table_rows (ps_table st)), None), st))),
      db_BeginTx = (\<lambda>st. as_err (with_fault (\<lambda>st. (Inr (), st\<lparr>ps_tx := ps_table st\<rparr>)) st)),
      tx_Exec = (\<lambda>s st. as_err (with_fault (act_tx_write s) st)),
      tx_Commit = (\<lambda>st. as_err (with_fault (\<lambda>st. (Inr (), st\<lparr>ps_table := ps_tx st\<rparr>)) st)),
      tx_Rollback = (\<lambda>st. (None, st))\<rparr>"

lemma table_db_sel [simp]:
  "db_ctx table_db = ps_ctx" "db_wait table_db k st = (ps_ctx st, st)"
  "db_Exec table_db s st = as_err (with_fault (act_write s) st)"
  "db_QueryFloat table_db s = with_fault (act_row snd s)" "db_QueryInt table_db s = with_fault (act_row fst s)"
  "db_Query table_db s = with_fault (\<lambda>st. (Inr (map Inr (table_rows (ps_table st)), None), st))"
  "db_BeginTx table_db st = as_err (with_fault (\<lambda>st. (Inr (), st\<lparr>ps_tx := ps_table st\<rparr>)) st)"
  "tx_Exec table_db s st = as_err (with_fault (act_tx_write s) st)"
  "tx_Commit table_db st = as_err (with_fault (\<lambda>st. (Inr (), st\<lparr>ps_table := ps_tx st\<rparr>)) st)"
  "tx_Rollback table_db st = (None, st)"
  by (simp_all add: table_db_def)

definition honest :: "pg_fault \<Rightarrow> bool" where
  "honest f \<longleftrightarrow>
     (case f of NoFault \<Rightarrow> True | FailBefore e \<Rightarrow> \<not> errors_Is e ErrMetricNotFound \<and> \<not> errors_Is e ErrNoRows | FailAfter e \<Rightarrow> False)"

definition table_ok :: "pg_state \<Rightarrow> bool" where
  "table_ok st \<longleftrightarrow> list_all honest (ps_faults st) \<and> finite (dom (ps_table st)) \<and> finite (dom (ps_tx st))"

lemma with_fault_honest:
  assumes "table_ok st" "with_fault action st = (r, st')"
  obtains st1 where "table_ok st1" "ps_table st1 = ps_table st" "ps_tx st1 = ps_tx st" "action st1 = (r, st')"
  | e where "r = Inl e" "table_ok st'" "ps_table st' = ps_table st" "ps_tx st' = ps_tx st"
    "\<not> errors_Is e ErrMetricNotFound" "\<not> errors_Is e ErrNoRows"
proof (cases "ps_faults st")
  case Nil
  then show ?thesis using that(1) [of st] assms by (simp add: with_fault_def)
next
  case (Cons f fs)
  then have "table_ok (st\<lparr>ps_faults := fs\<rparr>)" "honest f" using assms(1) by (simp_all add: table_ok_def)
  then show ?thesis
    using that(1) [of "st\<lparr>ps_faults := fs\<rparr>"] that(2) assms(2) Cons by (cases f) (auto simp: with_fault_def honest_def)
qed

lemma sql_write_finite: "sql_write s t = Inr t' \<Longrightarrow> finite (dom t) \<Longrightarrow> finite (dom t')"
  by (cases s) (auto simp: upsert_counter_def split: option.splits sum.splits prod.splits)

lemma sql_write_error: "sql_write s t = Inl e \<Longrightarrow> e = PgError ''22003''"
  by (cases s) (auto simp: upsert_counter_def bigint_add_def Let_def split: option.splits sum.splits prod.splits if_splits)

lemma table_rows_enumerates: "finite (dom t) \<Longrightarrow> enumerates (table_rows t) t"
  by (auto simp: enumerates_def table_rows_def comp_def map_of_map_restrict restrict_map_def fun_eq_iff domIff
      simp del: split_paired_All not_None_eq)

lemma act_row_step:
  assumes "table_ok st" "act_row col s st = (r, st')"
  shows "table_ok st' \<and>
    (case r of
       Inl e \<Rightarrow> ps_table st' = ps_table st \<and> \<not> errors_Is e ErrMetricNotFound \<and>
         (errors_Is e ErrNoRows \<longrightarrow> sql_row s (ps_table st) = None)
     | Inr x \<Rightarrow> sql_write s (ps_table st) = Inr (ps_table st') \<and> (\<exists>row. sql_row s (ps_table st') = Some row \<and> col row = Some x))"
proof (cases "sql_write s (ps_table st)")
  case (Inl e)
  then show ?thesis using assms sql_write_error [OF Inl] by (auto simp: act_row_def)
next
  case (Inr t)
  have "sql_row s t = None \<Longrightarrow> sql_row s (ps_table st) = None"
    using Inr by (cases s) (auto simp: upsert_counter_def split: option.splits sum.splits prod.splits)
  then show ?thesis
    using assms Inr sql_write_finite [OF Inr] by (auto simp: act_row_def table_ok_def split: option.splits)
qed

interpretation table: pg_database table_db ps_table ps_tx table_ok
proof unfold_locales
  fix st s e st' x y r rows eo k co
  assume ok: "table_ok st"
  show "db_Exec table_db s st = (Some e, st') \<Longrightarrow> table_ok st' \<and> ps_table st' = ps_table st"
    "db_Exec table_db s st = (None, st') \<Longrightarrow> table_ok st' \<and> sql_write s (ps_table st) = Inr (ps_table st')"
    using sql_write_finite [of s]
    by (auto simp: as_err_def act_write_def table_ok_def elim!: with_fault_honest [OF ok] split: prod.splits sum.splits)
  show "db_QueryInt table_db s st = (Inl e, st') \<Longrightarrow> table_ok st' \<and> ps_table st' = ps_table st \<and>
      \<not> errors_Is e ErrMetricNotFound \<and> (errors_Is e ErrNoRows \<longrightarrow> sql_row s (ps_table st) = None)"
    "db_QueryInt table_db s st = (Inr x, st') \<Longrightarrow> table_ok st' \<and> sql_write s (ps_table st) = Inr (ps_table st') \<and>
      (\<exists>v. sql_row s (ps_table st') = Some (Some x, v))"
    by (auto elim!: with_fault_honest [OF ok] dest: act_row_step)
  show "db_QueryFloat table_db s st = (Inl e, st') \<Longrightarrow> table_ok st' \<and> ps_table st' = ps_table st \<and>
      \<not> errors_Is e ErrMetricNotFound \<and> (errors_Is e ErrNoRows \<longrightarrow> sql_row s (ps_table st) = None)"
    "db_QueryFloat table_db s st = (Inr y, st') \<Longrightarrow> table_ok st' \<and> sql_write s (ps_table st) = Inr (ps_table st') \<and>
      (\<exists>v. sql_row s (ps_table st') = Some (v, Some y))"
    by (auto elim!: with_fault_honest [OF ok] dest: act_row_step)
  show "db_Query table_db SelectAll st = (r, st') \<Longrightarrow> table_ok st' \<and> ps_table st' = ps_table st"
    by (auto elim!: with_fault_honest [OF ok])
  show "db_Query table_db SelectAll st = (Inr (map Inr rows, None), st') \<Longrightarrow> enumerates rows (ps_table st)"
    using table_rows_enumerates by (auto simp: table_ok_def map_injective elim!: with_fault_honest [OF ok])
  show "db_BeginTx table_db st = (Some e, st') \<Longrightarrow> table_ok st' \<and> ps_table st' = ps_table st"
    "db_BeginTx table_db st = (None, st') \<Longrightarrow> table_ok st' \<and> ps_table st' = ps_table st \<and> ps_tx st' = ps_table st"
    by (auto simp: as_err_def table_ok_def elim!: with_fault_honest [OF ok] split: prod.splits sum.splits)
  show "tx_Exec table_db s st = (Some e, st') \<Longrightarrow> table_ok st' \<and> ps_table st' = ps_table st"
    "tx_Exec table_db s st = (None, st') \<Longrightarrow> table_ok st' \<and> ps_table st' = ps_table st \<and> sql_write s (ps_tx st) = Inr (ps_tx st')"
    using sql_write_finite [of s]
    by (auto simp: as_err_def act_tx_write_def table_ok_def elim!: with_fault_honest [OF ok] split: prod.splits sum.splits)
  show "tx_Commit table_db st = (Some e, st') \<Longrightarrow> table_ok st' \<and> ps_table st' = ps_table st"
    "tx_Commit table_db st = (None, st') \<Longrightarrow> table_ok st' \<and> ps_table st' = ps_tx st"
    by (auto simp: as_err_def table_ok_def elim!: with_fault_honest [OF ok] split: prod.splits sum.splits)
  show "tx_Rollback table_db st = (eo, st') \<Longrightarrow> table_ok st' \<and> ps_table st' = ps_table st"
    "db_wait table_db k st = (co, st') \<Longrightarrow> table_ok st' \<and> ps_table st' = ps_table st"
    using ok by auto
qed

text \<open>The retried statements of the two single updates, each with its effect at most once.\<close>

interpretation gauge_attempts: effective_attempts "guarded table_db (upsert_gauge_op table_db n v)" isRetriablePGError
  "pg_waitRetry table_db" "\<lambda>st. pg_view (ps_table st)" "\<lambda>w. ((), view_gauge n v w)" "pg_invar table_ok ps_table" for n v
  by (rule table.upsert_gauge_effective)

interpretation counter_attempts: effective_attempts "guarded table_db (upsert_counter_op table_db n k)" isRetriablePGError
  "pg_waitRetry table_db" "\<lambda>st. pg_view (ps_table st)"
  "\<lambda>w. (counter_total (vcounters w) n + k, view_counter n k w)" "pg_invar table_ok ps_table" for n k
  by (rule table.upsert_counter_effective)

text \<open>The service over the database keeps the contract.\<close>

interpretation pg_svc: service_saver "NewMetricsService (postgres_storage (NewPostgresStorage table_db))"
  "\<lambda>st. pg_view (ps_table st)" "pg_invar table_ok ps_table"
  by (intro service_saver.intro service_saver_axioms.intro) (simp_all add: table.storage.metrics_storage_axioms)

subsection \<open>Properties\<close>

text \<open>
  C35: An acknowledged update of the PostgreSQL storage has taken effect exactly once and a failed one
  not at all, whatever connection exceptions, transaction errors and ends of the context happen
  between the attempts, as long as a call that reports an error has not taken effect. A batch is one
  transaction: all of it or nothing, and it never panics on complete metrics.
\<close>

theorem pg_updates_exactly_once:
  assumes "table_ok st" "table_wf (ps_table st)" "list_all complete_metric ms" "p = NewPostgresStorage table_db"
  shows "(\<exists>r st'. Postgres_UpdateMetrics p ms st = (Return r, st') \<and> table_wf (ps_table st') \<and>
      pg_view (ps_table st') = (if r = None then view_metrics ms (pg_view (ps_table st)) else pg_view (ps_table st))) \<and>
    (\<exists>r st'. Postgres_UpdateGauge p n v st = (r, st') \<and> table_wf (ps_table st') \<and>
      pg_view (ps_table st') = (if r = None then view_gauge n v (pg_view (ps_table st)) else pg_view (ps_table st))) \<and>
    (\<exists>r st'. Postgres_UpdateCounter p n k st = (r, st') \<and> table_wf (ps_table st') \<and>
      (case r of Inl e \<Rightarrow> pg_view (ps_table st') = pg_view (ps_table st)
       | Inr t \<Rightarrow> pg_view (ps_table st') = view_counter n k (pg_view (ps_table st)) \<and>
           t = counter_total (vcounters (pg_view (ps_table st))) n + k))"
proof -
  have i: "pg_invar table_ok ps_table st" using assms(1,2) by (simp add: pg_invar_def)
  obtain r1 s1 r2 s2 r3 s3 where "Postgres_UpdateMetrics p ms st = (r1, s1)" "Postgres_UpdateGauge p n v st = (r2, s2)"
    "Postgres_UpdateCounter p n k st = (r3, s3)" by (metis prod.collapse)
  with table.pg_UpdateMetrics_once [OF i assms(3)] table.pg_UpdateGauge_once [OF i] table.pg_UpdateCounter_once [OF i] assms(4)
  show ?thesis unfolding pg_invar_def by metis
qed

definition demo_pg :: "pg_fault list \<Rightarrow> pg_state" where
  "demo_pg fs = \<lparr>ps_table = Map.empty, ps_tx = Map.empty, ps_faults = fs, ps_ctx = None\<rparr>"

theorem pg_updates_exactly_once_witness:
  "\<exists>st'. Postgres_UpdateCounter (NewPostgresStorage table_db) ''c'' 5 (demo_pg [FailBefore (PgError ''08006'')]) = (Inr 5, st') \<and>
     pg_view (ps_table st') = view_counter ''c'' 5 (pg_view Map.empty)"
proof -
  let ?st = "demo_pg [FailBefore (PgError ''08006'')]"
  have "table_ok ?st" "table_wf (ps_table ?st)" by (simp_all add: table_ok_def table_wf_def demo_pg_def honest_def)
  moreover have "fst (Postgres_UpdateCounter (NewPostgresStorage table_db) ''c'' 5 ?st) = Inr 5"
    by (simp add: Postgres_UpdateCounter_def NewPostgresStorage_def retryDBOperation_def retryDelays_def retryDB_loop.simps
        upsert_counter_op_def with_fault_def demo_pg_def pg_waitRetry_def isRetriablePGError_def IsConnectionException_def
        act_row_def upsert_counter_def)
  ultimately show ?thesis
    using pg_updates_exactly_once [of ?st "[]" "NewPostgresStorage table_db" "''c''" undefined 5] by (auto simp: demo_pg_def)
qed

text \<open>
  C36: The retry is not safe for an error that arrives after the statement took effect. When the first
  attempt to create a counter takes effect and then reports a connection exception (such as 08007,
  transaction resolution unknown), the retry adds the increment a second time, and the doubled total
  is returned as success.
\<close>

theorem pg_late_error_counts_twice:
  assumes "IsConnectionException code" "ps_faults st = [FailAfter (PgError code)]" "ps_ctx st = None"
    and "ps_table st (n, Counter) = None" "- (2 ^ 62) \<le> sint k" "sint k < 2 ^ 62"
  shows "\<exists>st'. Postgres_UpdateCounter (NewPostgresStorage table_db) n k st = (Inr (k + k), st') \<and>
    vcounters (pg_view (ps_table st')) n = Some (k + k)"
proof -
  have "bigint_add k k = Inr (k + k)" using assms(5,6) by (simp add: bigint_add_def Let_def)
  then show ?thesis
    using assms(1-4)
    by (simp add: Postgres_UpdateCounter_def NewPostgresStorage_def retryDBOperation_def retryDelays_def retryDB_loop.simps
        upsert_counter_op_def with_fault_def pg_waitRetry_def isRetriablePGError_def act_row_def upsert_counter_def)
qed

theorem pg_late_error_counts_twice_witness:
  "\<exists>st'. Postgres_UpdateCounter (NewPostgresStorage table_db) ''PollCount'' 5 (demo_pg [FailAfter (PgError ''08007'')]) = (Inr 10, st')"
  using pg_late_error_counts_twice [of "''08007''" "demo_pg [FailAfter (PgError ''08007'')]" "''PollCount''" 5]
  by (auto simp: demo_pg_def IsConnectionException_def)

text \<open>
  C37: The two storages agree as long as totals fit: starting from the same metrics, a counter update
  that the PostgreSQL storage acknowledges returns the total that the in-memory storage returns, and
  leaves the same metrics. When the total leaves the range of 64 bits the in-memory storage wraps
  around, while PostgreSQL answers with error 22003 and keeps the old total.
\<close>

theorem storages_agree_up_to_overflow:
  assumes "table_ok st" "table_wf (ps_table st)" "pg_view (ps_table st) = mem_view m" "ps_ctx st = None" "ps_faults st = []"
  shows "\<exists>m' r st'. MemStorage_UpdateCounter n k m = (Inr (counter_total (counters m) n + k), m') \<and>
    Postgres_UpdateCounter (NewPostgresStorage table_db) n k st = (r, st') \<and>
    (if - (2 ^ 63) \<le> sint (counter_total (counters m) n) + sint k \<and> sint (counter_total (counters m) n) + sint k < 2 ^ 63
     then r = Inr (counter_total (counters m) n + k) \<and> pg_view (ps_table st') = mem_view m'
     else (\<exists>e. r = Inl e \<and> errors_As pg_error_code e = Some ''22003'') \<and> ps_table st' = ps_table st)"
proof -
  let ?x = "counter_total (counters m) n"
  obtain m' where m': "MemStorage_UpdateCounter n k m = (Inr (?x + k), m')" "mem_view m' = view_counter n k (mem_view m)"
    using mem_UpdateCounter_view [of n k m] by (simp add: MemStorage_UpdateCounter_def Let_def counter_total_def)
  obtain r st' where r: "Postgres_UpdateCounter (NewPostgresStorage table_db) n k st = (r, st')" by force
  have "vcounters (pg_view (ps_table st)) n = counters m n" using assms(3) by simp
  then have cell: "ps_table st (n, Counter) = None \<and> ?x = 0 \<or> (\<exists>v. ps_table st (n, Counter) = Some (Some ?x, v))"
    using assms(2) by (cases "ps_table st (n, Counter)") (fastforce simp: counter_total_def table_wf_def)+
  show ?thesis
  proof (cases "bigint_add ?x k")
    case (Inl e)
    then have e: "e = PgError ''22003''" "\<not> (- (2 ^ 63) \<le> sint ?x + sint k \<and> sint ?x + sint k < 2 ^ 63)" "?x \<noteq> 0"
      using sint_int64_bounds(1) [of k] sint_int64_bounds(2) [of k] by (auto simp: bigint_add_def Let_def split: if_splits)
    with cell have "upsert_counter n k (ps_table st) = Inl e" using Inl by (auto simp: upsert_counter_def)
    then have "r = Inl (ErrorfW ''upsert counter query: %w'' [] e)" "st' = st"
      using r assms(4,5) e(1)
      by (auto simp: Postgres_UpdateCounter_def NewPostgresStorage_def retryDBOperation_def retryDB_loop.simps retryDelays_def
          upsert_counter_op_def with_fault_def isRetriablePGError_def IsConnectionException_def act_row_def)
    with m' r e show ?thesis by auto
  next
    case (Inr y)
    have up: "\<exists>t v. upsert_counter n k (ps_table st) = Inr t \<and> t (n, Counter) = Some (Some (?x + k), v)"
      using cell Inr bigint_add_Inr [OF Inr] by (auto simp: upsert_counter_def)
    then have "r = Inr (?x + k)"
      using r assms(4,5)
      by (auto simp: Postgres_UpdateCounter_def NewPostgresStorage_def retryDBOperation_def retryDB_loop.simps retryDelays_def
          upsert_counter_op_def with_fault_def act_row_def)
    moreover have "pg_view (ps_table st') = mem_view m'"
      using table.pg_UpdateCounter_once [OF _ r] assms(1-3) m'(2) calculation by (simp add: pg_invar_def)
    moreover have "- (2 ^ 63) \<le> sint ?x + sint k \<and> sint ?x + sint k < 2 ^ 63"
      using Inr by (auto simp: bigint_add_def Let_def split: if_splits)
    ultimately show ?thesis using m' r by auto
  qed
qed

theorem storages_agree_up_to_overflow_witness:
  "fst (MemStorage_UpdateCounter ''c'' 7 NewMemStorage) = Inr 7 \<and>
   fst (Postgres_UpdateCounter (NewPostgresStorage table_db) ''c'' 7 (demo_pg [])) = Inr 7"
proof -
  have "table_ok (demo_pg [])" "table_wf (ps_table (demo_pg []))" "pg_view (ps_table (demo_pg [])) = mem_view NewMemStorage"
    by (auto simp: table_ok_def table_wf_def demo_pg_def pg_view_def mem_view_def)
  from storages_agree_up_to_overflow [OF this, of "''c''" 7] show ?thesis
    by (auto simp: demo_pg_def counter_total_def)
qed

end
