(* ===== verification/ServerLifecycle.thy ===== *)
theory ServerLifecycle
  imports Middleware GrpcServer ServerConfig PostgresStorage
begin

text \<open>
  Start and stop of the server (\<^verbatim>\<open>src/internal/server/server.go\<close>, \<^verbatim>\<open>persistence.go\<close>, \<^verbatim>\<open>database.go\<close>,
  \<^verbatim>\<open>security.go\<close>): acquiring resources with a deferred \<^verbatim>\<open>Close\<close> on error, choosing the storage, restoring
  and saving the file, and serving both transports until one of them ends.

  The world is the in-memory storage, the audit observer, the network of the remote observer, and the
  file system. What the process holds open is a set of resources in the server record, which is
  compared with the fields that are to release them. The service is shared by pointer: the two
  transports are functions of it and see \<open>EnableSyncSave\<close>, which comes after they were built.
\<close>

type_synonym 'n sworld = "(MemStorage \<times> FileObserver \<times> 'n) \<times> filesystem"

definition world_audit :: "'n sworld \<Rightarrow> 'n audit_world" where
  "world_audit w = \<lparr>aw_observer = fst (snd (fst w)), aw_fs = snd w, aw_net = snd (snd (fst w))\<rparr>"

definition put_audit :: "'n audit_world \<Rightarrow> 'n sworld \<Rightarrow> 'n sworld" where
  "put_audit a w = ((fst (fst w), aw_observer a, aw_net a), aw_fs a)"

definition world_auditor :: "'n audit_world Auditor \<Rightarrow> 'n sworld Auditor" where
  "world_auditor au = \<lparr>observers = map (\<lambda>ob ctx ev w.
     case ob ctx ev (world_audit w) of (r, a) \<Rightarrow> (r, put_audit a w)) (observers au)\<rparr>"

abbreviation world_mem :: "'n sworld \<Rightarrow> MemStorage" where
  "world_mem w \<equiv> fst (fst w)"

abbreviation sworld_storage :: "'n sworld MetricsStorage" where
  "sworld_storage \<equiv> lift_storage (lift_storage mem_storage)"

subsection \<open>The server record\<close>

datatype resource = RDatabase | RAuditFile | RHTTPListener | RGRPCListener | RTicker

text \<open>The function \<^verbatim>\<open>shutdownPersistence\<close>: none to call, nothing to do, or stop the ticker if there is one and save.\<close>

datatype shutdown_fn = ShutdownNop | ShutdownSave bool

record ('w, 'cred) Server =
  srv_cfg :: ServerConfig
  srv_service :: "'w MetricsService"
  srv_db :: bool
  srv_http :: "('w MetricsService \<Rightarrow> 'w http_handler) option"
  srv_httpListener :: bool
  srv_grpc :: "('w MetricsService \<Rightarrow> ('w, 'cred) grpc_server) option"
  srv_grpcListener :: bool
  srv_shutdown :: "shutdown_fn option"
  srv_persistenceOnce :: bool
  srv_persistenceErr :: "goerr option"
  srv_auditor :: "'w Auditor option"
  srv_cleanupAudit :: "bool option"
  srv_closeOnce :: bool
  srv_panic :: "string option"
  srv_open :: "resource set"

record ('pub, 'priv, 'n, 'cred) server_env =
  se_http :: "('pub, 'priv) http_env"
  se_x509 :: "('pub, 'priv) x509"
  se_client :: "'n http_client"
  se_tls :: "string \<Rightarrow> string \<Rightarrow> goerr + 'cred"
  se_sqlOpen :: "string \<Rightarrow> goerr option"
  se_ping :: "goerr option"
  se_migrate :: "goerr option"
  se_sqldb :: "'n sworld sql_db"
  se_dbping :: "'n sworld \<Rightarrow> goerr option \<times> 'n sworld"
  se_listen :: "string \<Rightarrow> goerr option"
  se_closeAudit :: "goerr option"
  se_gauges :: "float64 range_order"
  se_counters :: "int64 range_order"
  se_log :: "'n logger"

text \<open>The log goes out of the process: writing to it changes only what is outside.\<close>

definition srv_log :: "('pub, 'priv, 'n, 'cred) server_env \<Rightarrow> 'n sworld logger" where
  "srv_log env e w = ((fst (fst w), fst (snd (fst w)), se_log env e (snd (snd (fst w)))), snd w)"

definition srv_init :: "ServerConfig \<Rightarrow> ('n sworld, 'cred) Server" where
  "srv_init cfg =
     \<lparr>srv_cfg = cfg, srv_service = NewMetricsService sworld_storage, srv_db = False, srv_http = None, srv_httpListener = False,
      srv_grpc = None, srv_grpcListener = False, srv_shutdown = Some ShutdownNop, srv_persistenceOnce = False,
      srv_persistenceErr = None, srv_auditor = None, srv_cleanupAudit = Some False, srv_closeOnce = False, srv_panic = None, srv_open = {}\<rparr>"

subsection \<open>Keys, subnet, database\<close>

definition loadPrivateKey :: "('pub, 'priv) x509 \<Rightarrow> string \<Rightarrow> filesystem \<Rightarrow> goerr + 'priv option" where
  "loadPrivateKey x p fs =
     (if p = [] then Inr None
      else case LoadPrivateKey x p fs of
          Inl err \<Rightarrow> Inl (ErrorfW ''load private key: %w'' [] err)
        | Inr k \<Rightarrow> Inr (Some k))"

definition parseTrustedSubnet :: "string \<Rightarrow> goerr + IPNet option" where
  "parseTrustedSubnet value =
     (if value = [] then Inr None
      else case ParseCIDR value of
          None \<Rightarrow> Inl (ErrorfW ''parse trusted subnet %q: %w'' [FStr value] (LibError ''invalid CIDR address''))
        | Some n \<Rightarrow> Inr (Some n))"

definition openDatabase ::
    "('pub, 'priv, 'n, 'cred) server_env \<Rightarrow> ('n sworld, 'cred) Server \<times> 'n sworld \<Rightarrow> (goerr + bool) \<times> ('n sworld, 'cred) Server \<times> 'n sworld" where
  "openDatabase env sw =
     (let srv = fst sw; w = snd sw; cfg = srv_cfg srv
      in if sc_DatabaseDSN cfg = [] then (Inr False, srv, srv_log env (LogEntry LogDebug ''database disabled'' []) w)
         else case se_sqlOpen env (sc_DatabaseDSN cfg) of
             Some err \<Rightarrow> (Inl err, srv, w)
           | None \<Rightarrow>
               let opened = srv\<lparr>srv_open := insert RDatabase (srv_open srv)\<rparr>;
                   closed = opened\<lparr>srv_open := srv_open opened - {RDatabase}\<rparr>
               in case se_ping env of
                    Some err \<Rightarrow> (Inl err, closed, w)
                  | None \<Rightarrow>
                      let w = srv_log env (LogEntry LogDebug ''database connected'' []) w
                      in case se_migrate env of
                           Some err \<Rightarrow> (Inl err, closed, w)
                         | None \<Rightarrow> (Inr True, opened, w))"

text \<open>The second component is whether there is an in-memory storage; it is created empty.\<close>

definition newMetricsStorage ::
    "('pub, 'priv, 'n, 'cred) server_env \<Rightarrow> bool \<Rightarrow> 'n sworld \<Rightarrow> 'n sworld MetricsStorage \<times> bool \<times> 'n sworld" where
  "newMetricsStorage env hasDB w =
     (if hasDB then (postgres_storage (NewPostgresStorage (se_sqldb env)), False, w)
      else (sworld_storage, True, (NewMemStorage, snd (fst w)), snd w))"

subsection \<open>Persistence\<close>

definition world_save :: "('pub, 'priv, 'n, 'cred) server_env \<Rightarrow> FileStore \<Rightarrow> 'n sworld \<Rightarrow> goerr option \<times> 'n sworld" where
  "world_save env store w = FileStore_Save (se_gauges env) (se_counters env) store (Snapshot sworld_storage) w"

text \<open>
  The goroutine of \<open>startPeriodicSave\<close> creates a ticker, which panics unless the interval is positive
  and so ends the process; then every tick saves.
\<close>

definition startPeriodicSave :: "int64 \<Rightarrow> ('w, 'cred) Server \<Rightarrow> ('w, 'cred) Server" where
  "startPeriodicSave interval srv =
     (if sint interval \<le> 0 then srv\<lparr>srv_panic := Some ''non-positive interval for NewTicker''\<rparr>
      else srv\<lparr>srv_open := insert RTicker (srv_open srv)\<rparr>)"

definition periodic_tick :: "('pub, 'priv, 'n, 'cred) server_env \<Rightarrow> FileStore \<Rightarrow> 'n sworld \<Rightarrow> 'n sworld" where
  "periodic_tick env store w =
     (case world_save env store w of
        (Some err, w') \<Rightarrow> srv_log env (LogEntry LogError ''failed to save metrics to file'' [(''path'', FStr (path store))]) w'
      | (None, w') \<Rightarrow> w')"

definition setupFilePersistence ::
    "('pub, 'priv, 'n, 'cred) server_env \<Rightarrow> bool \<Rightarrow> ('n sworld, 'cred) Server \<times> 'n sworld \<Rightarrow>
       (goerr + shutdown_fn) \<times> ('n sworld, 'cred) Server \<times> 'n sworld" where
  "setupFilePersistence env memRepo sw =
     (let srv = fst sw; w = snd sw; cfg = srv_cfg srv; store = NewFileStore (sc_FileStoragePath cfg)
      in if \<not> memRepo \<or> sc_FileStoragePath cfg = [] then (Inr ShutdownNop, srv, w)
         else
           case (if sc_Restore cfg then FileStore_Load store mem_restorer (snd w) (world_mem w) else (None, world_mem w)) of
             (Some err, m) \<Rightarrow> (Inl err, srv, ((m, snd (fst w)), snd w))
           | (None, m) \<Rightarrow>
               let w1 = ((m, snd (fst w)), snd w) in
               if sc_StoreIntervalInSec cfg = 0 then
                 (Inr (ShutdownSave False),
                  srv\<lparr>srv_service := EnableSyncSave (srv_service srv) (file_saver (se_gauges env) (se_counters env) store)\<rparr>, w1)
               else if 0 < sint (sc_StoreIntervalInSec cfg) then
                 (Inr (ShutdownSave True), startPeriodicSave (sc_StoreIntervalInSec cfg * 1000000000) srv, w1)
               else
                 (Inl (Errorf ''store interval in seconds must be >= 0, got %d'' [FInt (sint (sc_StoreIntervalInSec cfg))]), srv, w1))"

text \<open>The function that \<open>setupFilePersistence\<close> returns, called once; calling a nil function panics.\<close>

definition run_shutdown ::
    "('pub, 'priv, 'n, 'cred) server_env \<Rightarrow> shutdown_fn option \<Rightarrow> ('n sworld, 'cred) Server \<times> 'n sworld \<Rightarrow>
       goerr option outcome \<times> ('n sworld, 'cred) Server \<times> 'n sworld" where
  "run_shutdown env f sw =
     (case f of
        None \<Rightarrow> (Panic ''nil pointer dereference'', sw)
      | Some ShutdownNop \<Rightarrow> (Return None, sw)
      | Some (ShutdownSave periodic) \<Rightarrow>
          let srv = (if periodic then (fst sw)\<lparr>srv_open := srv_open (fst sw) - {RTicker}\<rparr> else fst sw)
          in case world_save env (NewFileStore (sc_FileStoragePath (srv_cfg srv))) (snd sw) of
               (Some err, w) \<Rightarrow> (Return (Some (ErrorfW ''save metrics on shutdown: %w'' [] err)), srv, w)
             | (None, w) \<Rightarrow> (Return None, srv, w))"

text \<open>\<^verbatim>\<open>sync.Once\<close> counts a call that panics as done.\<close>

definition stopPersistence ::
    "('pub, 'priv, 'n, 'cred) server_env \<Rightarrow> ('n sworld, 'cred) Server \<times> 'n sworld \<Rightarrow>
       goerr option outcome \<times> ('n sworld, 'cred) Server \<times> 'n sworld" where
  "stopPersistence env sw =
     (if srv_persistenceOnce (fst sw) then (Return (srv_persistenceErr (fst sw)), sw)
      else case run_shutdown env (srv_shutdown (fst sw)) sw of
          (Panic m, srv, w) \<Rightarrow> (Panic m, srv\<lparr>srv_persistenceOnce := True\<rparr>, w)
        | (Return e, srv, w) \<Rightarrow> (Return e, srv\<lparr>srv_persistenceOnce := True, srv_persistenceErr := e\<rparr>, w))"

definition cleanup_audit :: "('pub, 'priv, 'n, 'cred) server_env \<Rightarrow> 'n sworld \<Rightarrow> 'n sworld" where
  "cleanup_audit env w =
     (case FileObserver_Close (se_closeAudit env) (aw_observer (world_audit w)) of
        (Some err, ob) \<Rightarrow> srv_log env (LogEntry LogError ''failed to close audit file'' [])
          (put_audit ((world_audit w)\<lparr>aw_observer := ob\<rparr>) w)
      | (None, ob) \<Rightarrow> put_audit ((world_audit w)\<lparr>aw_observer := ob\<rparr>) w)"

text \<open>Release of a resource if it is held.\<close>

definition release :: "resource \<Rightarrow> bool \<Rightarrow> ('w, 'cred) Server \<Rightarrow> ('w, 'cred) Server" where
  "release r held srv = (if held then srv\<lparr>srv_open := srv_open srv - {r}\<rparr> else srv)"

definition Server_Close ::
    "('pub, 'priv, 'n, 'cred) server_env \<Rightarrow> ('n sworld, 'cred) Server \<times> 'n sworld \<Rightarrow>
       unit outcome \<times> ('n sworld, 'cred) Server \<times> 'n sworld" where
  "Server_Close env sw =
     (if srv_closeOnce (fst sw) then (Return (), sw)
      else case stopPersistence env ((fst sw)\<lparr>srv_closeOnce := True\<rparr>, snd sw) of
          (Panic m, srv, w) \<Rightarrow> (Panic m, srv, w)
        | (Return _, srv, w) \<Rightarrow>
            let srv = release RHTTPListener (srv_httpListener srv) srv;
                srv = release RGRPCListener (srv_grpcListener srv) srv;
                closes = (srv_cleanupAudit srv = Some True);
                srv = release RAuditFile closes srv;
                w = (if closes then cleanup_audit env w else w);
                srv = release RDatabase (srv_db srv) srv
            in (Return (), srv, w))"

subsection \<open>New\<close>

text \<open>Steps with early return: the first error ends the sequence.\<close>

definition try_bind :: "('s \<Rightarrow> (goerr + 'a) \<times> 's) \<Rightarrow> ('a \<Rightarrow> 's \<Rightarrow> (goerr + 'b) \<times> 's) \<Rightarrow> 's \<Rightarrow> (goerr + 'b) \<times> 's" where
  "try_bind m k s = (case m s of (Inl e, s') \<Rightarrow> (Inl e, s') | (Inr x, s') \<Rightarrow> k x s')"

definition boot_database ::
    "('pub, 'priv, 'n, 'cred) server_env \<Rightarrow> ('n sworld, 'cred) Server \<times> 'n sworld \<Rightarrow> (goerr + bool) \<times> ('n sworld, 'cred) Server \<times> 'n sworld" where
  "boot_database env sw =
     (case openDatabase env sw of
        (Inl err, srv, w) \<Rightarrow> (Inl err, srv\<lparr>srv_db := False\<rparr>, w)
      | (Inr hasDB, srv, w) \<Rightarrow>
          (case newMetricsStorage env hasDB w of
             (st, memRepo, w') \<Rightarrow> (Inr memRepo, srv\<lparr>srv_db := hasDB, srv_service := NewMetricsService st\<rparr>, w')))"

definition boot_audit ::
    "('pub, 'priv, 'n, 'cred) server_env \<Rightarrow> ('n sworld, 'cred) Server \<times> 'n sworld \<Rightarrow> (goerr + unit) \<times> ('n sworld, 'cred) Server \<times> 'n sworld" where
  "boot_audit env sw =
     (case setupAudit (se_client env) (sc_AuditFile (srv_cfg (fst sw))) (sc_AuditURL (srv_cfg (fst sw))) (world_audit (snd sw)) of
        (Inl err, a) \<Rightarrow> (Inl err, (fst sw)\<lparr>srv_auditor := None, srv_cleanupAudit := None\<rparr>, put_audit a (snd sw))
      | (Inr (au, closes), a) \<Rightarrow>
          (Inr (),
           (fst sw)\<lparr>srv_auditor := map_option world_auditor au, srv_cleanupAudit := Some closes,
             srv_open := (if closes then insert RAuditFile (srv_open (fst sw)) else srv_open (fst sw))\<rparr>,
           put_audit a (snd sw)))"

definition server_handler ::
    "('pub, 'priv, 'n, 'cred) server_env \<Rightarrow> ('n sworld, 'cred) Server \<Rightarrow> 'n sworld MetricsService \<Rightarrow> 'n sworld Handler" where
  "server_handler env srv metricsService =
     (let h = Handler_New (metrics_service metricsService) (if srv_db srv then Some (se_dbping env) else None)
      in case srv_auditor srv of None \<Rightarrow> h | Some au \<Rightarrow> EnableAudit h au (srv_log env))"

definition boot_transports ::
    "('pub, 'priv, 'n, 'cred) server_env \<Rightarrow> 'priv option \<Rightarrow> IPNet option \<Rightarrow> ('n sworld, 'cred) Server \<times> 'n sworld \<Rightarrow>
       (goerr + unit) \<times> ('n sworld, 'cred) Server \<times> 'n sworld" where
  "boot_transports env privateKey trustedSubnet sw =
     (let srv = fst sw; cfg = srv_cfg srv;
          grpc = (\<lambda>svc. newGRPCServer (se_tls env) (metrics_service svc) (srv_auditor srv) trustedSubnet
                    (sc_GRPCTLSCert cfg) (sc_GRPCTLSKey cfg) (srv_log env));
          srv = srv\<lparr>srv_http := Some (\<lambda>svc. router_New (se_http env) (server_handler env srv svc) (srv_log env)
                    \<lparr>HashKey = sc_Key cfg, PrivateKey = privateKey, TrustedSubnet = trustedSubnet\<rparr>)\<rparr>
      in case grpc (srv_service srv) of
           Inl err \<Rightarrow> (Inl err, srv\<lparr>srv_grpc := None\<rparr>, snd sw)
         | Inr _ \<Rightarrow> (Inr (), srv\<lparr>srv_grpc := Some (\<lambda>svc. projr (grpc svc))\<rparr>, snd sw))"

definition boot_listeners ::
    "('pub, 'priv, 'n, 'cred) server_env \<Rightarrow> ('n sworld, 'cred) Server \<times> 'n sworld \<Rightarrow> (goerr + unit) \<times> ('n sworld, 'cred) Server \<times> 'n sworld" where
  "boot_listeners env sw =
     (let srv = fst sw; cfg = srv_cfg srv
      in case se_listen env (sc_HTTPAddr cfg) of
           Some err \<Rightarrow> (Inl (ErrorfW ''listen HTTP: %w'' [] err), srv\<lparr>srv_httpListener := False\<rparr>, snd sw)
         | None \<Rightarrow>
             let srv = srv\<lparr>srv_httpListener := True, srv_open := insert RHTTPListener (srv_open srv)\<rparr>
             in case se_listen env (sc_GRPCAddr cfg) of
                  Some err \<Rightarrow> (Inl (ErrorfW ''listen gRPC: %w'' [] err), srv\<lparr>srv_grpcListener := False\<rparr>, snd sw)
                | None \<Rightarrow>
                    (Inr (), srv\<lparr>srv_grpcListener := True, srv_open := insert RGRPCListener (srv_open srv)\<rparr>, snd sw))"

definition boot_persistence ::
    "('pub, 'priv, 'n, 'cred) server_env \<Rightarrow> bool \<Rightarrow> ('n sworld, 'cred) Server \<times> 'n sworld \<Rightarrow>
       (goerr + unit) \<times> ('n sworld, 'cred) Server \<times> 'n sworld" where
  "boot_persistence env memRepo sw =
     (case setupFilePersistence env memRepo sw of
        (Inl err, srv, w) \<Rightarrow> (Inl err, srv\<lparr>srv_shutdown := None\<rparr>, w)
      | (Inr f, srv, w) \<Rightarrow> (Inr (), srv\<lparr>srv_shutdown := Some f\<rparr>, w))"

definition boot ::
    "('pub, 'priv, 'n, 'cred) server_env \<Rightarrow> ('n sworld, 'cred) Server \<times> 'n sworld \<Rightarrow> (goerr + unit) \<times> ('n sworld, 'cred) Server \<times> 'n sworld" where
  "boot env =
     try_bind (\<lambda>sw. (loadPrivateKey (se_x509 env) (sc_CryptoKey (srv_cfg (fst sw))) (snd (snd sw)), sw)) (\<lambda>privateKey.
     try_bind (\<lambda>sw. (parseTrustedSubnet (sc_TrustedSubnet (srv_cfg (fst sw))), sw)) (\<lambda>trustedSubnet.
     try_bind (boot_database env) (\<lambda>memRepo.
     try_bind (boot_audit env) (\<lambda>_.
     try_bind (boot_transports env privateKey trustedSubnet) (\<lambda>_.
     try_bind (boot_listeners env) (\<lambda>_.
     boot_persistence env memRepo))))))"

text \<open>On an error the deferred function closes what was opened, and may itself panic.\<close>

definition Server_New ::
    "('pub, 'priv, 'n, 'cred) server_env \<Rightarrow> ServerConfig \<Rightarrow> 'n sworld \<Rightarrow>
       (goerr + unit) outcome \<times> ('n sworld, 'cred) Server \<times> 'n sworld" where
  "Server_New env cfg w =
     (case boot env (srv_init cfg, w) of
        (Inr _, sw) \<Rightarrow> (Return (Inr ()), sw)
      | (Inl err, sw) \<Rightarrow>
          (case Server_Close env sw of
             (Panic m, sw') \<Rightarrow> (Panic m, sw')
           | (Return _, sw') \<Rightarrow> (Return (Inl err), sw')))"

subsection \<open>Run\<close>

text \<open>
  \<open>serveHTTP\<close>: \<^verbatim>\<open>Serve\<close> returns on its own (its error is given) before the context ends, or the context
  ends, \<^verbatim>\<open>Shutdown\<close> gives an error or not, and then \<^verbatim>\<open>Serve\<close> returns with the error given last.
  \<^verbatim>\<open>http.ErrServerClosed\<close> is \<open>ErrServerStopped\<close>.
\<close>

definition serveHTTP :: "goerr option option \<Rightarrow> goerr option \<Rightarrow> goerr option \<Rightarrow> goerr option" where
  "serveHTTP served shutdown after =
     (case served of
        Some err \<Rightarrow>
          (case err of Some e \<Rightarrow> if errors_Is e ErrServerStopped then None else Some e | None \<Rightarrow> None)
      | None \<Rightarrow>
          (case shutdown of
             Some err \<Rightarrow> Some (ErrorfW ''shutdown HTTP server: %w'' [] err)
           | None \<Rightarrow>
               (case after of
                  None \<Rightarrow> None
                | Some err \<Rightarrow> if \<not> errors_Is err ErrServerStopped then Some err else None)))"

text \<open>The two goroutines report in either order.\<close>

definition serveTransports :: "bool \<Rightarrow> goerr option \<Rightarrow> goerr option \<Rightarrow> goerr option" where
  "serveTransports httpFirst http grpc =
     (let h = map_option (ErrorfW ''serve HTTP: %w'' []) http; g = map_option (ErrorfW ''serve gRPC: %w'' []) grpc
      in if httpFirst then errors_Join [h, g] else errors_Join [g, h])"

definition zap_Bool :: "bool \<Rightarrow> fmt_arg" where
  "zap_Bool b = FStr (if b then ''true'' else ''false'')"

definition running_entry :: "ServerConfig \<Rightarrow> log_entry" where
  "running_entry cfg = LogEntry LogInfo ''(^_^) running Server''
     [(''httpAddress'', FStr (sc_HTTPAddr cfg)), (''grpcAddress'', FStr (sc_GRPCAddr cfg)), (''grpcTLS'', zap_Bool (sc_GRPCTLSCert cfg \<noteq> [])),
      (''fileStoragePath'', FStr (sc_FileStoragePath cfg)), (''restore'', zap_Bool (sc_Restore cfg)),
      (''storeIntervalInSec'', FInt (sint (sc_StoreIntervalInSec cfg)))]"

text \<open>What the transports do to the world while they serve, and their joint error, are given.\<close>

definition Server_Run ::
    "('pub, 'priv, 'n, 'cred) server_env \<Rightarrow> ('n sworld \<Rightarrow> goerr option \<times> 'n sworld) \<Rightarrow>
       ('n sworld, 'cred) Server \<times> 'n sworld \<Rightarrow> goerr option outcome \<times> ('n sworld, 'cred) Server \<times> 'n sworld" where
  "Server_Run env serving sw =
     (case serving (srv_log env (running_entry (srv_cfg (fst sw))) (snd sw)) of
        (serveErr, w) \<Rightarrow>
          (case stopPersistence env (fst sw, w) of
             (Panic m, sw') \<Rightarrow> (Panic m, sw')
           | (Return persistenceErr, srv, w') \<Rightarrow>
               (Return (errors_Join [serveErr, persistenceErr]), srv,
                if serveErr = None \<and> persistenceErr = None then srv_log env (LogEntry LogInfo ''server stopped'' []) w' else w')))"

subsection \<open>Resources\<close>

text \<open>What the fields of the server say is to be released; the accounts are right when that is what is open.\<close>

fun held :: "('w, 'cred) Server \<Rightarrow> resource \<Rightarrow> bool" where
  "held srv RDatabase = srv_db srv"
| "held srv RHTTPListener = srv_httpListener srv"
| "held srv RGRPCListener = srv_grpcListener srv"
| "held srv RAuditFile = (srv_cleanupAudit srv = Some True)"
| "held srv RTicker = (srv_shutdown srv = Some (ShutdownSave True) \<and> \<not> srv_persistenceOnce srv \<and> srv_panic srv = None)"

definition accounted :: "('w, 'cred) Server \<Rightarrow> bool" where
  "accounted srv \<longleftrightarrow> srv_open srv = Collect (held srv)"

text \<open>Before the persistence is set up there is nothing to shut down.\<close>

definition booting :: "('w, 'cred) Server \<Rightarrow> bool" where
  "booting srv \<longleftrightarrow> accounted srv \<and> srv_shutdown srv = Some ShutdownNop \<and> \<not> srv_persistenceOnce srv \<and> \<not> srv_closeOnce srv"

text \<open>What stopping the persistence does to the server record.\<close>

lemma stopPersistence_cases:
  obtains (stopped) "srv_persistenceOnce srv" "stopPersistence env (srv, w) = (Return (srv_persistenceErr srv), srv, w)"
  | (nofun) m where "\<not> srv_persistenceOnce srv" "srv_shutdown srv = None"
      "stopPersistence env (srv, w) = (Panic m, srv\<lparr>srv_persistenceOnce := True\<rparr>, w)"
  | (stopping) f e w' opn where "\<not> srv_persistenceOnce srv" "srv_shutdown srv = Some f"
      "stopPersistence env (srv, w) = (Return e, srv\<lparr>srv_open := opn, srv_persistenceOnce := True, srv_persistenceErr := e\<rparr>, w')"
      "opn = (if f = ShutdownSave True then srv_open srv - {RTicker} else srv_open srv)"
proof (cases "srv_persistenceOnce srv")
  case True
  then show ?thesis using stopped by (simp add: stopPersistence_def)
next
  case False
  show ?thesis
  proof (cases "srv_shutdown srv")
    case None
    then show ?thesis using False nofun by (simp add: stopPersistence_def run_shutdown_def)
  next
    case (Some f)
    show ?thesis
    proof (cases f)
      case ShutdownNop
      then show ?thesis using False Some stopping [of f None "srv_open srv" w] by (simp add: stopPersistence_def run_shutdown_def)
    next
      case (ShutdownSave b)
      obtain e w' where "world_save env (NewFileStore (sc_FileStoragePath (srv_cfg srv))) w = (e, w')" by (meson surj_pair)
      then have "\<exists>e'. stopPersistence env (srv, w) =
          (Return e', srv\<lparr>srv_open := if b then srv_open srv - {RTicker} else srv_open srv,
            srv_persistenceOnce := True, srv_persistenceErr := e'\<rparr>, w')"
        using False Some ShutdownSave by (cases e) (simp_all add: stopPersistence_def run_shutdown_def Let_def)
      then obtain e' where eq: "stopPersistence env (srv, w) =
          (Return e', srv\<lparr>srv_open := if b then srv_open srv - {RTicker} else srv_open srv,
            srv_persistenceOnce := True, srv_persistenceErr := e'\<rparr>, w')" ..
      show ?thesis by (rule stopping [OF False Some eq]) (use ShutdownSave in simp)
    qed
  qed
qed

lemma release_fields [simp]:
  "srv_httpListener (release r b srv) = srv_httpListener srv" "srv_grpcListener (release r b srv) = srv_grpcListener srv"
  "srv_cleanupAudit (release r b srv) = srv_cleanupAudit srv" "srv_db (release r b srv) = srv_db srv"
  "srv_cfg (release r b srv) = srv_cfg srv" "srv_closeOnce (release r b srv) = srv_closeOnce srv"
  "x \<in> srv_open (release r b srv) \<longleftrightarrow> x \<in> srv_open srv \<and> (b \<longrightarrow> x \<noteq> r)"
  by (simp_all add: release_def)

lemma Server_Close_steps:
  assumes "\<not> srv_closeOnce srv" "stopPersistence env (srv\<lparr>srv_closeOnce := True\<rparr>, w) = (Return e, s1, w1)"
  shows "Server_Close env (srv, w) = (Return (),
    release RDatabase (srv_db s1) (release RAuditFile (srv_cleanupAudit s1 = Some True)
      (release RGRPCListener (srv_grpcListener s1) (release RHTTPListener (srv_httpListener s1) s1))),
    if srv_cleanupAudit s1 = Some True then cleanup_audit env w1 else w1)"
  unfolding Server_Close_def fst_conv snd_conv if_not_P [OF assms(1)] assms(2) prod.case outcome.case Let_def release_fields ..

lemma Server_Close_open:
  assumes "\<not> srv_closeOnce srv" "stopPersistence env (srv\<lparr>srv_closeOnce := True\<rparr>, w) = (Return e, s1, w1)"
  shows "x \<in> srv_open (fst (snd (Server_Close env (srv, w)))) \<longleftrightarrow> x \<in> srv_open s1 \<and> (x = RTicker \<or> \<not> held s1 x)"
  unfolding Server_Close_steps [OF assms] by (cases x) simp_all

lemma accountedI:
  assumes "\<And>r. r \<in> srv_open srv \<longleftrightarrow> held srv r"
  shows "accounted srv"
  using assms by (auto simp: accounted_def)

lemma accountedD: "accounted srv \<Longrightarrow> r \<in> srv_open srv \<longleftrightarrow> held srv r"
  by (simp add: accounted_def)

lemma stopPersistence_accounted:
  assumes "accounted srv" "srv_shutdown srv \<noteq> None"
  obtains e s1 w1 where "stopPersistence env (srv, w) = (Return e, s1, w1)" "accounted s1" "srv_persistenceOnce s1"
    "srv_shutdown s1 = srv_shutdown srv" "srv_closeOnce s1 = srv_closeOnce srv"
proof (cases rule: stopPersistence_cases [of srv env w])
  case stopped
  then show ?thesis using that assms by simp
next
  case (stopping f e w' opn)
  have "r \<in> opn \<longleftrightarrow> held (srv\<lparr>srv_open := opn, srv_persistenceOnce := True, srv_persistenceErr := e\<rparr>) r" for r
    using accountedD [OF assms(1), of r] stopping(1,2,4) by (cases r) auto
  then have "accounted (srv\<lparr>srv_open := opn, srv_persistenceOnce := True, srv_persistenceErr := e\<rparr>)"
    by (intro accountedI) simp
  then show ?thesis using that [OF stopping(3)] by simp
qed (use assms(2) in simp)

lemma Server_Close_releases:
  assumes "accounted srv" "\<not> srv_closeOnce srv" "srv_shutdown srv \<noteq> None"
  obtains s2 w2 where "Server_Close env (srv, w) = (Return (), s2, w2)" "srv_open s2 = {}" "srv_closeOnce s2"
proof -
  have "accounted (srv\<lparr>srv_closeOnce := True\<rparr>)"
    by (rule accountedI) (use accountedD [OF assms(1)] in \<open>case_tac r; simp\<close>)
  then obtain e s1 w1 where s: "stopPersistence env (srv\<lparr>srv_closeOnce := True\<rparr>, w) = (Return e, s1, w1)" "accounted s1"
    "srv_persistenceOnce s1" "srv_closeOnce s1"
    using assms(3) by (elim stopPersistence_accounted [of "srv\<lparr>srv_closeOnce := True\<rparr>" env w]) simp_all
  obtain s2 w2 where c: "Server_Close env (srv, w) = (Return (), s2, w2)" and "srv_closeOnce s2"
    using Server_Close_steps [OF assms(2) s(1)] s(4) release_fields(6) by metis
  moreover have "r \<notin> srv_open s2" for r
    using Server_Close_open [OF assms(2) s(1), of r] c s(3) accountedD [OF s(2), of r] by (cases r) simp_all
  ultimately show ?thesis using that by blast
qed

lemma Server_Run_accounted:
  assumes "accounted srv" "\<not> srv_closeOnce srv" "srv_shutdown srv \<noteq> None"
  obtains r s1 w1 where "Server_Run env serving (srv, w) = (Return r, s1, w1)" "accounted s1" "\<not> srv_closeOnce s1" "srv_shutdown s1 \<noteq> None"
proof -
  obtain e ww where v: "serving (srv_log env (running_entry (srv_cfg srv)) w) = (e, ww)" by (meson surj_pair)
  obtain pe s1 w1 where "stopPersistence env (srv, ww) = (Return pe, s1, w1)" "accounted s1" "srv_shutdown s1 = srv_shutdown srv"
      "srv_closeOnce s1 = srv_closeOnce srv"
    by (rule stopPersistence_accounted [OF assms(1,3)])
  with v assms(2,3) that show ?thesis by (simp add: Server_Run_def)
qed

text \<open>Each step of the start keeps the accounts, also when it fails.\<close>

lemma bootingI:
  assumes "\<And>r. r \<in> srv_open srv \<longleftrightarrow> held srv r" "srv_shutdown srv = Some ShutdownNop" "\<not> srv_persistenceOnce srv" "\<not> srv_closeOnce srv"
  shows "booting srv"
  using assms accountedI by (auto simp: booting_def)

lemma bootingD:
  assumes "booting srv"
  shows "r \<in> srv_open srv \<longleftrightarrow> held srv r" "srv_shutdown srv = Some ShutdownNop" "\<not> srv_persistenceOnce srv" "\<not> srv_closeOnce srv"
  using assms accountedD by (auto simp: booting_def)

lemma srv_init_booting: "booting (srv_init cfg)"
  by (rule bootingI) (simp_all add: srv_init_def, case_tac r, simp_all)

lemma boot_database_frame:
  assumes "boot_database env (srv, w) = (r, srv', w')"
  shows "srv_cfg srv' = srv_cfg srv" "srv_httpListener srv' = srv_httpListener srv" "srv_grpcListener srv' = srv_grpcListener srv"
    "srv_cleanupAudit srv' = srv_cleanupAudit srv" "srv_panic srv' = srv_panic srv"
  using assms
  by (auto simp: boot_database_def openDatabase_def newMetricsStorage_def Let_def split: if_splits option.splits)

lemma boot_database_booting:
  assumes "booting srv" "\<not> srv_db srv" "boot_database env (srv, w) = (r, srv', w')"
  shows "booting srv'"
  by (rule bootingI, case_tac r)
    (use assms bootingD [OF assms(1)] in
      \<open>auto simp: boot_database_def openDatabase_def newMetricsStorage_def Let_def split: if_splits option.splits\<close>)

lemma boot_audit_frame:
  assumes "boot_audit env (srv, w) = (r, srv', w')"
  shows "srv_cfg srv' = srv_cfg srv" "srv_httpListener srv' = srv_httpListener srv" "srv_grpcListener srv' = srv_grpcListener srv" "srv_panic srv' = srv_panic srv"
  using assms by (auto simp: boot_audit_def split: prod.splits sum.splits)

lemma boot_audit_booting:
  assumes "booting srv" "srv_cleanupAudit srv = Some False" "boot_audit env (srv, w) = (r, srv', w')"
  shows "booting srv'"
  by (rule bootingI, case_tac r)
    (use assms(2,3) bootingD [OF assms(1)] in \<open>auto simp: boot_audit_def split: sum.splits prod.splits if_splits\<close>)

lemma boot_transports_frame:
  assumes "boot_transports env k n (srv, w) = (r, srv', w')"
  shows "srv_cfg srv' = srv_cfg srv" "srv_httpListener srv' = srv_httpListener srv" "srv_grpcListener srv' = srv_grpcListener srv" "srv_panic srv' = srv_panic srv"
  using assms by (auto simp: boot_transports_def Let_def split: sum.splits)

lemma boot_transports_booting:
  assumes "booting srv" "boot_transports env k n (srv, w) = (r, srv', w')"
  shows "booting srv'"
  by (rule bootingI, case_tac r)
    (use assms(2) bootingD [OF assms(1)] in \<open>auto simp: boot_transports_def Let_def split: sum.splits\<close>)

lemma boot_listeners_booting:
  assumes "booting srv" "\<not> srv_httpListener srv" "\<not> srv_grpcListener srv" "boot_listeners env (srv, w) = (r, srv', w')"
  shows "booting srv'"
  by (rule bootingI, case_tac r)
    (use assms(2-) bootingD [OF assms(1)] in \<open>auto simp: boot_listeners_def Let_def split: option.splits\<close>)

lemma boot_listeners_frame:
  "boot_listeners env (srv, w) = (r, srv', w') \<Longrightarrow> srv_cfg srv' = srv_cfg srv \<and> srv_panic srv' = srv_panic srv \<and> w' = w"
  by (auto simp: boot_listeners_def Let_def split: option.splits)

text \<open>
  The last step fails with no function to shut down and nothing started, because the file could not be
  loaded or the interval is negative.
\<close>

definition restore_fails :: "ServerConfig \<Rightarrow> 'n sworld \<Rightarrow> bool" where
  "restore_fails cfg w \<longleftrightarrow>
     sc_FileStoragePath cfg \<noteq> [] \<and>
     (sc_Restore cfg \<and> fst (FileStore_Load (NewFileStore (sc_FileStoragePath cfg)) mem_restorer (snd w) (world_mem w)) \<noteq> None \<or>
      sint (sc_StoreIntervalInSec cfg) < 0)"

lemma Load_error_state: "fst (FileStore_Load f rst fs m) = fst (FileStore_Load f rst fs m')"
  by (simp add: FileStore_Load_def split: sum.splits option.splits)

lemma word_pos_cases: "n \<noteq> 0 \<Longrightarrow> \<not> 0 < sint n \<Longrightarrow> sint (n :: int64) < 0"
  by (metis linorder_neqE signed_eq_0_iff)

lemma setup_fails:
  assumes "setupFilePersistence env memRepo (srv, w) = (Inl e, s1, w1)"
  shows "restore_fails (srv_cfg srv) w1" "s1 = srv"
proof -
  obtain x m where "(if sc_Restore (srv_cfg srv) then FileStore_Load (NewFileStore (sc_FileStoragePath (srv_cfg srv))) mem_restorer (snd w) (world_mem w)
      else (None, world_mem w)) = (x, m)" by (meson surj_pair)
  with assms have "restore_fails (srv_cfg srv) w1 \<and> s1 = srv"
    by (cases x) (auto simp: setupFilePersistence_def Let_def restore_fails_def dest: word_pos_cases split: if_splits,
      metis Load_error_state fst_conv)
  then show "restore_fails (srv_cfg srv) w1" "s1 = srv" by simp_all
qed

lemma boot_persistence_accounted:
  assumes "booting srv" "srv_panic srv = None" "boot_persistence env memRepo (srv, w) = (r, srv', w')"
  shows "accounted srv'" "\<not> srv_closeOnce srv'" "\<not> srv_persistenceOnce srv'" "r = Inr () \<longleftrightarrow> srv_shutdown srv' \<noteq> None"
    "srv_shutdown srv' = None \<Longrightarrow> restore_fails (srv_cfg srv) w' \<and> srv_cfg srv' = srv_cfg srv"
proof -
  have b: "x \<in> srv_open srv \<longleftrightarrow> held srv x" "srv_shutdown srv = Some ShutdownNop" "\<not> srv_persistenceOnce srv" "\<not> srv_closeOnce srv" for x
    using bootingD [OF assms(1)] by simp_all
  obtain q s1 w1 where q: "setupFilePersistence env memRepo (srv, w) = (q, s1, w1)" by (metis prod_cases3)
  then consider "s1 = srv" "q \<noteq> Inr (ShutdownSave True)" | svc where "s1 = srv\<lparr>srv_service := svc\<rparr>" "q \<noteq> Inr (ShutdownSave True)"
    | k where "s1 = startPeriodicSave k srv" "q = Inr (ShutdownSave True)"
    by (auto simp: setupFilePersistence_def Let_def split: if_splits prod.splits option.splits)
  note s1 = this
  from q assms(3) have srv': "srv' = s1\<lparr>srv_shutdown := case q of Inl _ \<Rightarrow> None | Inr f \<Rightarrow> Some f\<rparr>" "r = Inr () \<longleftrightarrow> (\<exists>f. q = Inr f)" "w' = w1"
    by (auto simp: boot_persistence_def split: sum.splits)
  have "x \<in> srv_open srv' \<longleftrightarrow> held srv' x" for x
    using s1 b(1) [of x] b(2-4) assms(2)
    by cases (cases x; auto simp: srv' startPeriodicSave_def split: sum.splits)+
  then show "accounted srv'" by (rule accountedI)
  show "\<not> srv_closeOnce srv'" using s1 b(4) by cases (simp_all add: srv' startPeriodicSave_def)
  show "\<not> srv_persistenceOnce srv'" using s1 b(3) by cases (simp_all add: srv' startPeriodicSave_def)
  show "r = Inr () \<longleftrightarrow> srv_shutdown srv' \<noteq> None" using srv' by (cases q) simp_all
  assume "srv_shutdown srv' = None"
  then obtain e where e: "q = Inl e" using srv'(1) by (cases q) simp_all
  from setup_fails [OF q [unfolded e]] show "restore_fails (srv_cfg srv) w' \<and> srv_cfg srv' = srv_cfg srv" using srv'(1,3) by simp
qed

text \<open>The whole start: a rule for its early returns, and the state it leaves.\<close>

lemma try_bind_cases:
  assumes "try_bind m k s = (r, s')"
  obtains (fail) e where "m s = (Inl e, s')" "r = Inl e" | (continue) x s1 where "m s = (Inr x, s1)" "k x s1 = (r, s')"
  using assms by (auto simp: try_bind_def split: prod.splits sum.splits)

definition boot_ends :: "ServerConfig \<Rightarrow> (goerr + unit) \<Rightarrow> ('n sworld, 'cred) Server \<Rightarrow> 'n sworld \<Rightarrow> bool" where
  "boot_ends cfg r srv w \<longleftrightarrow> accounted srv \<and> \<not> srv_closeOnce srv \<and> \<not> srv_persistenceOnce srv \<and>
     (r = Inr () \<longrightarrow> srv_shutdown srv \<noteq> None) \<and> (srv_shutdown srv = None \<longrightarrow> restore_fails cfg w)"

lemma booting_ends: "booting srv \<Longrightarrow> boot_ends cfg (Inl e) srv w"
  by (simp add: boot_ends_def booting_def)

lemma boot_listeners_ends:
  assumes "booting srv" "\<not> srv_httpListener srv" "\<not> srv_grpcListener srv" "srv_panic srv = None"
    and "try_bind (boot_listeners env) (\<lambda>_. boot_persistence env memRepo) (srv, w) = (r, srv', w')"
  shows "boot_ends (srv_cfg srv) r srv' w'"
  using assms(5)
proof (cases rule: try_bind_cases)
  case (fail e)
  then show ?thesis using boot_listeners_booting [OF assms(1-3)] booting_ends by blast
next
  case (continue x s1)
  obtain srv1 w1 where s1: "s1 = (srv1, w1)" by (cases s1)
  have l: "boot_listeners env (srv, w) = (Inr x, srv1, w1)" using continue(1) s1 by simp
  have "booting srv1" "srv_panic srv1 = None"
    using boot_listeners_booting [OF assms(1-3) l] boot_listeners_frame [OF l] assms(4) by simp_all
  from boot_persistence_accounted [OF this continue(2) [unfolded s1]] boot_listeners_frame [OF l] show ?thesis by (auto simp: boot_ends_def)
qed

lemma boot_audit_ends:
  assumes "booting srv" "srv_cleanupAudit srv = Some False" "\<not> srv_httpListener srv" "\<not> srv_grpcListener srv" "srv_panic srv = None"
    and "try_bind (boot_audit env) (\<lambda>_. try_bind (boot_transports env k n)
      (\<lambda>_. try_bind (boot_listeners env) (\<lambda>_. boot_persistence env memRepo))) (srv, w) = (r, srv', w')"
  shows "boot_ends (srv_cfg srv) r srv' w'"
  using assms(6)
proof (cases rule: try_bind_cases)
  case (fail e)
  then show ?thesis using boot_audit_booting [OF assms(1,2)] booting_ends by blast
next
  case (continue x s1)
  obtain srv1 w1 where s1: "s1 = (srv1, w1)" by (cases s1)
  note a = continue(1) [unfolded s1]
  have b: "booting srv1" by (rule boot_audit_booting [OF assms(1,2) a])
  have f: "\<not> srv_httpListener srv1" "\<not> srv_grpcListener srv1" "srv_panic srv1 = None"
    using boot_audit_frame [OF a] assms(3-5) by simp_all
  show ?thesis using continue(2) [unfolded s1]
  proof (cases rule: try_bind_cases)
    case (fail e)
    then show ?thesis using boot_transports_booting [OF b] booting_ends by blast
  next
    case (continue y s2)
    obtain srv2 w2 where s2: "s2 = (srv2, w2)" by (cases s2)
    note t = continue(1) [unfolded s2]
    have "\<not> srv_httpListener srv2" "\<not> srv_grpcListener srv2" "srv_panic srv2 = None"
      using boot_transports_frame [OF t] f by simp_all
    from boot_listeners_ends [OF boot_transports_booting [OF b t] this continue(2) [unfolded s2]]
    show ?thesis using boot_transports_frame(1) [OF t] boot_audit_frame(1) [OF a] by simp
  qed
qed

lemma srv_init_sel [simp]:
  "srv_cfg (srv_init cfg) = cfg" "\<not> srv_db (srv_init cfg)" "\<not> srv_httpListener (srv_init cfg)" "\<not> srv_grpcListener (srv_init cfg)"
  "srv_cleanupAudit (srv_init cfg) = Some False" "srv_panic (srv_init cfg) = None" "srv_open (srv_init cfg) = {}"
  "\<not> srv_closeOnce (srv_init cfg)" "\<not> srv_persistenceOnce (srv_init cfg)"
  by (simp_all add: srv_init_def)

lemma boot_accounted:
  assumes "boot env (srv_init cfg, w) = (r, srv', w')"
  shows "boot_ends cfg r srv' w'"
  using assms unfolding boot_def
proof (cases rule: try_bind_cases)
  case (fail e)
  then show ?thesis by (auto simp: booting_ends [OF srv_init_booting])
next
  case k: (continue k s1)
  then have s1: "s1 = (srv_init cfg, w)" by simp
  show ?thesis using k(2)
  proof (cases rule: try_bind_cases)
    case (fail e)
    then show ?thesis by (auto simp: s1 booting_ends [OF srv_init_booting])
  next
    case n: (continue n s2)
    then have s2: "s2 = (srv_init cfg, w)" by (simp add: s1)
    show ?thesis using n(2)
    proof (cases rule: try_bind_cases)
      case (fail e)
      then show ?thesis using boot_database_booting [OF srv_init_booting] booting_ends by (metis s2 srv_init_sel(2))
    next
      case d: (continue memRepo s3)
      obtain srv3 w3 where s3: "s3 = (srv3, w3)" by (cases s3)
      have b: "boot_database env (srv_init cfg, w) = (Inr memRepo, srv3, w3)" using d(1) s2 s3 by simp
      have "boot_ends (srv_cfg srv3) r srv' w'"
        by (rule boot_audit_ends [OF boot_database_booting [OF srv_init_booting _ b] _ _ _ _ d(2) [unfolded s3]])
          (simp_all add: boot_database_frame [OF b])
      then show ?thesis using boot_database_frame(1) [OF b] by simp
    qed
  qed
qed

text \<open>The steps of a start that reaches the persistence, on a configuration without a database.\<close>

lemma put_world_audit [simp]: "put_audit (world_audit w) w = w"
  by (simp add: put_audit_def world_audit_def)

lemma boot_audit_world:
  assumes "boot_audit env (srv, w) = (r, srv', w')" "sc_AuditFile (srv_cfg srv) \<noteq> p"
  shows "world_mem w' = world_mem w" "files (snd w') p = files (snd w) p" "read_faults (snd w') = read_faults (snd w)"
    "write_faults (snd w') = write_faults (snd w)"
  using assms
  by (auto simp: boot_audit_def setupAudit_def NewFileObserver_def os_OpenAppend_def put_audit_def world_audit_def
      split: if_splits sum.splits prod.splits option.splits write_fault.splits)

lemma try_bind_Inr:
  "try_bind m k s = (Inr y, s') \<longleftrightarrow> (\<exists>x s1. m s = (Inr x, s1) \<and> k x s1 = (Inr y, s'))"
  by (auto simp: try_bind_def split: prod.splits sum.splits)

lemma Load_same_file:
  assumes "files fs (path f) = files fs' (path f)" "read_faults fs (path f) = read_faults fs' (path f)"
  shows "FileStore_Load f r fs m = FileStore_Load f r fs' m"
  unfolding FileStore_Load_def os_ReadFile_def assms ..

lemma boot_database_none:
  assumes "sc_DatabaseDSN (srv_cfg srv) = []"
  shows "boot_database env (srv, w) = (Inr True, srv\<lparr>srv_db := False, srv_service := NewMetricsService sworld_storage\<rparr>,
    (NewMemStorage, snd (fst (srv_log env (LogEntry LogDebug ''database disabled'' []) w))), snd w)"
  using assms by (simp add: boot_database_def openDatabase_def newMetricsStorage_def srv_log_def)

text \<open>A start that reaches the persistence has restored the file into an empty storage.\<close>

lemma boot_persistence_ok:
  assumes "boot_persistence env True (srv, w) = (Inr (), srv', w')" "sc_FileStoragePath (srv_cfg srv) \<noteq> []"
  shows "srv_cfg srv' = srv_cfg srv" "\<exists>b. srv_shutdown srv' = Some (ShutdownSave b)"
    "sc_Restore (srv_cfg srv) \<Longrightarrow>
      FileStore_Load (NewFileStore (sc_FileStoragePath (srv_cfg srv))) mem_restorer (snd w) (world_mem w) = (None, world_mem w')"
  using assms
  by (auto simp: boot_persistence_def setupFilePersistence_def startPeriodicSave_def Let_def
      split: if_splits prod.splits option.splits sum.splits)

lemma boot_restores:
  assumes b: "boot env (srv_init cfg, w) = (Inr (), srv, w')" and c: "sc_DatabaseDSN cfg = []" "sc_FileStoragePath cfg \<noteq> []"
  shows "srv_cfg srv = cfg" "\<exists>b. srv_shutdown srv = Some (ShutdownSave b)"
    "sc_Restore cfg \<Longrightarrow> sc_AuditFile cfg \<noteq> sc_FileStoragePath cfg \<Longrightarrow>
      FileStore_Load (NewFileStore (sc_FileStoragePath cfg)) mem_restorer (snd w) NewMemStorage = (None, world_mem w')"
proof -
  obtain k n m s1 s2 s3 s4 where st: "boot_database env (srv_init cfg, w) = (Inr m, s1)" "boot_audit env s1 = (Inr (), s2)"
    "boot_transports env k n s2 = (Inr (), s3)" "boot_listeners env s3 = (Inr (), s4)" "boot_persistence env m s4 = (Inr (), srv, w')"
    using b unfolding boot_def try_bind_Inr by auto
  obtain r1 w1 r2 w2 r3 w3 r4 w4 where s: "s1 = (r1, w1)" "s2 = (r2, w2)" "s3 = (r3, w3)" "s4 = (r4, w4)" by (metis prod.collapse)
  note st = st [unfolded s]
  obtain svc where d: "m = True" "r1 = (srv_init cfg)\<lparr>srv_db := False, srv_service := svc\<rparr>" "world_mem w1 = NewMemStorage" "snd w1 = snd w"
    using boot_database_none [of "srv_init cfg" env w] c(1) st(1) by auto
  have w: "w3 = w2" using st(3) by (auto simp: boot_transports_def Let_def split: sum.splits)
  have cfg: "srv_cfg r1 = cfg" "srv_cfg r2 = cfg" "srv_cfg r4 = cfg" "w4 = w3"
    using d(2) boot_audit_frame(1) [OF st(2)] boot_transports_frame(1) [OF st(3)] boot_listeners_frame [OF st(4)] by simp_all
  note pe = boot_persistence_ok [OF st(5) [unfolded d(1)], unfolded cfg(3), OF c(2)]
  from pe(1,2) show "srv_cfg srv = cfg" "\<exists>b. srv_shutdown srv = Some (ShutdownSave b)" by simp_all
  assume r: "sc_Restore cfg" and a: "sc_AuditFile cfg \<noteq> sc_FileStoragePath cfg"
  note aw = boot_audit_world [OF st(2) [unfolded], unfolded cfg(1), OF a]
  have "FileStore_Load (NewFileStore (sc_FileStoragePath cfg)) mem_restorer (snd w) NewMemStorage =
      FileStore_Load (NewFileStore (sc_FileStoragePath cfg)) mem_restorer (snd w4) (world_mem w4)"
    using Load_same_file [of "snd w4" "NewFileStore (sc_FileStoragePath cfg)" "snd w" mem_restorer NewMemStorage] aw cfg(4) w d(3,4)
    by (simp add: NewFileStore_def)
  then show "FileStore_Load (NewFileStore (sc_FileStoragePath cfg)) mem_restorer (snd w) NewMemStorage = (None, world_mem w')"
    using pe(3) [OF r] by simp
qed

text \<open>The save at the end of \<^verbatim>\<open>Run\<close>.\<close>

lemma srv_log_world [simp]: "world_mem (srv_log env e w) = world_mem w" "snd (srv_log env e w) = snd w"
  by (simp_all add: srv_log_def)

lemma sworld_Snapshot: "Snapshot sworld_storage w = (Inr (gauges (world_mem w), counters (world_mem w)), w)"
  by (simp add: lift_storage_sel)

lemma Server_Run_saved:
  assumes "Server_Run env serving (srv, w) = (Return None, srv1, w1)" "srv_shutdown srv = Some (ShutdownSave b)" "\<not> srv_persistenceOnce srv"
    and "fair_order (se_gauges env)" "fair_order (se_counters env)" "finite (dom (gauges (world_mem w1)))" "finite (dom (counters (world_mem w1)))"
  shows "world_mem w1 = world_mem (snd (serving (srv_log env (running_entry (srv_cfg srv)) w)))"
    and "file_holds (NewFileStore (sc_FileStoragePath (srv_cfg srv))) (snd w1) (mem_view (world_mem w1))"
proof -
  let ?f = "NewFileStore (sc_FileStoragePath (srv_cfg srv))"
  obtain se ww where v: "serving (srv_log env (running_entry (srv_cfg srv)) w) = (se, ww)" by (meson surj_pair)
  obtain out s2 w2 where st: "stopPersistence env (srv, ww) = (out, s2, w2)" by (metis prod_cases3)
  have "out = Return None \<and> world_mem w1 = world_mem w2 \<and> snd w1 = snd w2"
    using assms(1) v st by (cases out) (auto simp: Server_Run_def)
  then have o: "out = Return None" "world_mem w1 = world_mem w2" "snd w1 = snd w2" by simp_all
  obtain e ws where sv: "world_save env ?f ww = (e, ws)" by (meson surj_pair)
  then have "e = None \<and> w2 = ws" using st o(1) assms(2,3) by (cases e; cases b) (simp_all add: stopPersistence_def run_shutdown_def Let_def)
  then have e: "e = None" "world_mem w1 = world_mem ws" "snd w1 = snd ws" using o(2,3) by simp_all
  have keep: "fst ws = fst ww" using Save_keeps [OF sv [unfolded world_save_def]] by (simp add: sworld_Snapshot)
  then show "world_mem w1 = world_mem (snd (serving (srv_log env (running_entry (srv_cfg srv)) w)))" using v e(2) by simp
  show "file_holds ?f (snd w1) (mem_view (world_mem w1))"
    using Save_file_holds [OF sworld_Snapshot _ _ sv [unfolded world_save_def e(1)]] assms(4-7) keep e(2,3)
    by (simp add: fair_order_def mem_view_def)
qed

text \<open>A set of parameters: sorted visits of maps, no keys, no database, every address free.\<close>

definition no_x509 :: "(unit, unit) x509" where
  "no_x509 = \<lparr>pem_Decode = (\<lambda>_. None), ParsePKIXPublicKey = (\<lambda>_. Inr None), ParsePKCS1PublicKey = (\<lambda>_. Inr ()),
     ParsePKCS8PrivateKey = (\<lambda>_. Inr None), ParsePKCS1PrivateKey = (\<lambda>_. Inr ())\<rparr>"

definition closed_db :: "'d sql_db" where
  "closed_db = (let err = LibError ''sql: database is closed'' in
     \<lparr>db_ctx = (\<lambda>_. None), db_wait = (\<lambda>_ d. (None, d)), db_Exec = (\<lambda>_ d. (Some err, d)), db_QueryFloat = (\<lambda>_ d. (Inl err, d)),
      db_QueryInt = (\<lambda>_ d. (Inl err, d)), db_Query = (\<lambda>_ d. (Inl err, d)), db_BeginTx = (\<lambda>d. (Some err, d)),
      tx_Exec = (\<lambda>_ d. (Some err, d)), tx_Commit = (\<lambda>d. (Some err, d)), tx_Rollback = (\<lambda>d. (None, d))\<rparr>)"

definition demo_boot_env :: "(unit, unit, log_entry list, unit) server_env" where
  "demo_boot_env =
     \<lparr>se_http = \<lparr>env_crypto = demo_crypto, env_gzip = demo_gzip, env_route = (\<lambda>_. Inl [WriteHeader 404]), env_headers = sorted_range,
        env_gauges = sorted_range, env_counters = sorted_range\<rparr>,
      se_x509 = no_x509, se_client = \<lparr>check_url = (\<lambda>_. None), client_Do = (\<lambda>_ n. (Inr 200, n))\<rparr>, se_tls = (\<lambda>_ _. Inr ()),
      se_sqlOpen = (\<lambda>_. None), se_ping = None, se_migrate = None, se_sqldb = closed_db, se_dbping = (\<lambda>w. (None, w)),
      se_listen = (\<lambda>_. None), se_closeAudit = None, se_gauges = sorted_range, se_counters = sorted_range, se_log = (\<lambda>e l. l @ [e])\<rparr>"

definition demo_world :: "MemStorage \<Rightarrow> filesystem \<Rightarrow> log_entry list sworld" where
  "demo_world m fs = ((m, \<lparr>ofile = None, oencoder = None\<rparr>, []), fs)"

abbreviation restoring_cfg :: ServerConfig where
  "restoring_cfg \<equiv> defaultServerConfig\<lparr>sc_Restore := True\<rparr>"

text \<open>The start on these parameters, with a readable or missing file.\<close>

lemma demo_start:
  assumes "FileStore_Load (NewFileStore ''metrics-db.json'') mem_restorer fs NewMemStorage = (None, m)"
  obtains srv n where "Server_New demo_boot_env restoring_cfg ((x, ob, l), fs) = (Return (Inr ()), srv, ((m, ob, n), fs))"
    "srv_open srv = {RHTTPListener, RGRPCListener, RTicker}"
proof -
  have "\<exists>srv n. boot demo_boot_env (srv_init restoring_cfg, ((x, ob, l), fs)) = (Inr (), srv, ((m, ob, n), fs)) \<and>
      srv_open srv = {RHTTPListener, RGRPCListener, RTicker}"
    unfolding boot_def
    by (simp add: try_bind_def boot_database_none loadPrivateKey_def parseTrustedSubnet_def boot_audit_def setupAudit_def srv_log_def
        boot_transports_def newGRPCServer_def boot_listeners_def boot_persistence_def setupFilePersistence_def startPeriodicSave_def
        defaultServerConfig_def demo_boot_env_def assms Let_def insert_commute del: split_paired_Ex)
  then show ?thesis using that by (auto simp: Server_New_def)
qed

text \<open>Every end of \<^verbatim>\<open>New\<close>, and what can still be done with the server.\<close>

lemma Server_New_ends:
  assumes "Server_New env cfg w = (out, srv, w')"
  shows "case out of
      Return (Inl err) \<Rightarrow> srv_open srv = {}
    | Panic m \<Rightarrow> restore_fails cfg w'
    | Return (Inr _) \<Rightarrow> accounted srv \<and>
        (\<exists>s2 w2. Server_Close env (srv, w') = (Return (), s2, w2) \<and> srv_open s2 = {} \<and> Server_Close env (s2, w2) = (Return (), s2, w2)) \<and>
        (\<exists>r s1 w1 s2 w2. Server_Run env serving (srv, w') = (Return r, s1, w1) \<and>
           Server_Close env (s1, w1) = (Return (), s2, w2) \<and> srv_open s2 = {})"
proof -
  obtain r s0 w0 where b: "boot env (srv_init cfg, w) = (r, s0, w0)" by (metis prod_cases3)
  have e: "boot_ends cfg r s0 w0" by (rule boot_accounted [OF b])
  show ?thesis
  proof (cases r)
    case (Inl err)
    show ?thesis
    proof (cases "srv_shutdown s0 = None")
      case True
      with e have "stopPersistence env (s0\<lparr>srv_closeOnce := True\<rparr>, w0) =
          (Panic ''nil pointer dereference'', s0\<lparr>srv_closeOnce := True, srv_persistenceOnce := True\<rparr>, w0)"
        by (simp add: stopPersistence_def run_shutdown_def boot_ends_def)
      then show ?thesis using assms b Inl e True by (auto simp: Server_New_def Server_Close_def boot_ends_def)
    next
      case False
      with e obtain s2 w2 where "Server_Close env (s0, w0) = (Return (), s2, w2)" "srv_open s2 = {}"
        by (metis Server_Close_releases boot_ends_def)
      then show ?thesis using assms b Inl by (auto simp: Server_New_def)
    qed
  next
    case (Inr u)
    then have out: "out = Return (Inr ())" "srv = s0" "w' = w0" using assms b by (auto simp: Server_New_def)
    have ok: "accounted s0" "\<not> srv_closeOnce s0" "srv_shutdown s0 \<noteq> None" using e Inr by (auto simp: boot_ends_def)
    obtain s2 w2 where c: "Server_Close env (s0, w0) = (Return (), s2, w2)" "srv_open s2 = {}" "srv_closeOnce s2"
      using Server_Close_releases [OF ok] by metis
    obtain r s1 w1 where run: "Server_Run env serving (s0, w0) = (Return r, s1, w1)" "accounted s1" "\<not> srv_closeOnce s1" "srv_shutdown s1 \<noteq> None"
      by (rule Server_Run_accounted [OF ok])
    obtain s3 w3 where "Server_Close env (s1, w1) = (Return (), s3, w3)" "srv_open s3 = {}"
      using Server_Close_releases [OF run(2-4)] by metis
    moreover have "Server_Close env (s2, w2) = (Return (), s2, w2)" using c(3) by (simp add: Server_Close_def)
    ultimately show ?thesis using c(1,2) run(1) ok(1) unfolding out outcome.case sum.case by blast
  qed
qed

subsection \<open>Properties\<close>

text \<open>
  C10: The server leaks nothing. When \<^verbatim>\<open>New\<close> returns an error it has released every resource it had
  acquired up to then; when it returns a server, \<^verbatim>\<open>Close\<close> releases the database, the audit file, both
  listeners and the ticker, whether or not \<^verbatim>\<open>Run\<close> was called before, and a second \<^verbatim>\<open>Close\<close> does nothing.
  The only other end of \<^verbatim>\<open>New\<close> is a panic, when the file could not be loaded or the interval is negative.
\<close>

theorem server_no_leak:
  assumes "Server_New env cfg w = (out, srv, w')"
  shows "case out of
      Return (Inl err) \<Rightarrow> srv_open srv = {}
    | Panic m \<Rightarrow> restore_fails cfg w'
    | Return (Inr _) \<Rightarrow> accounted srv \<and>
        (\<exists>s2 w2. Server_Close env (srv, w') = (Return (), s2, w2) \<and> srv_open s2 = {} \<and> Server_Close env (s2, w2) = (Return (), s2, w2)) \<and>
        (\<exists>r s1 w1 s2 w2. Server_Run env serving (srv, w') = (Return r, s1, w1) \<and>
           Server_Close env (s1, w1) = (Return (), s2, w2) \<and> srv_open s2 = {})"
  by (rule Server_New_ends [OF assms])

theorem server_no_leak_witness:
  "\<exists>srv w s2 w2. Server_New demo_boot_env restoring_cfg (demo_world NewMemStorage empty_fs) = (Return (Inr ()), srv, w) \<and>
     RTicker \<in> srv_open srv \<and> Server_Close demo_boot_env (srv, w) = (Return (), s2, w2) \<and> srv_open s2 = {}"
proof -
  have "FileStore_Load (NewFileStore ''metrics-db.json'') mem_restorer empty_fs NewMemStorage = (None, NewMemStorage)"
    by (simp add: FileStore_Load_def os_ReadFile_def NewFileStore_def empty_fs_def)
  then obtain srv w where n: "Server_New demo_boot_env restoring_cfg (demo_world NewMemStorage empty_fs) = (Return (Inr ()), srv, w)"
    "RTicker \<in> srv_open srv"
    unfolding demo_world_def by (elim demo_start) blast
  from server_no_leak [OF n(1)] n show ?thesis unfolding outcome.case sum.case by blast
qed

text \<open>
  C9: A clean stop and a restart keep the metrics. When a server with a file, without a database,
  served whatever requests and \<^verbatim>\<open>Run\<close> returned without error, then the next \<^verbatim>\<open>New\<close> with the same
  configuration and \<^verbatim>\<open>Restore\<close> set starts with exactly the metrics that were in memory when serving
  ended, for names of valid UTF-8 and an audit file different from the storage file.
\<close>

theorem restart_restores:
  assumes "Server_New env cfg w0 = (Return (Inr ()), srv, w)" "Server_Run env serving (srv, w) = (Return None, srv1, w1)"
    and "sc_DatabaseDSN cfg = []" "sc_FileStoragePath cfg \<noteq> []" "sc_Restore cfg" "sc_AuditFile cfg \<noteq> sc_FileStoragePath cfg"
    and "fair_order (se_gauges env)" "fair_order (se_counters env)" "finite (dom (gauges (world_mem w1)))" "finite (dom (counters (world_mem w1)))"
    and "names_valid (mem_view (world_mem w1))" "read_faults (snd w1) (sc_FileStoragePath cfg) = None"
    and "Server_New env cfg (x, snd w1) = (Return (Inr ()), srv2, w2)"
  shows "world_mem w2 = world_mem w1 \<and> world_mem w1 = world_mem (snd (serving (srv_log env (running_entry cfg) w)))"
proof -
  have b: "boot env (srv_init cfg, w0) = (Inr (), srv, w)" "boot env (srv_init cfg, (x, snd w1)) = (Inr (), srv2, w2)"
    using assms(1,13) by (auto simp: Server_New_def split: prod.splits sum.splits outcome.splits)
  note br = boot_restores [OF b(1) assms(3,4)]
  obtain q where sh: "srv_shutdown srv = Some (ShutdownSave q)" using br(2) ..
  have "\<not> srv_persistenceOnce srv" using boot_accounted [OF b(1)] by (simp add: boot_ends_def)
  note run = Server_Run_saved [OF assms(2) sh this assms(7-10), unfolded br(1)]
  have "FileStore_Load (NewFileStore (sc_FileStoragePath cfg)) mem_restorer (snd w1) NewMemStorage = (None, world_mem w1)"
    using Load_file_holds [OF run(2) assms(11)] assms(12) by (simp add: NewFileStore_def)
  then have "world_mem w2 = world_mem w1" using boot_restores(3) [OF b(2) assms(3-6)] by simp
  with run(1) show ?thesis by simp
qed

text \<open>Serving that only adds a counter.\<close>

definition demo_serving :: "log_entry list sworld \<Rightarrow> goerr option \<times> log_entry list sworld" where
  "demo_serving w = (None, ((demo_storage, snd (fst w)), snd w))"

lemma demo_run:
  assumes "srv_shutdown srv = Some (ShutdownSave q)" "\<not> srv_persistenceOnce srv" "srv_cfg srv = restoring_cfg"
  obtains srv1 w1 where "Server_Run demo_boot_env demo_serving (srv, (x, empty_fs)) = (Return None, srv1, w1)"
    "world_mem w1 = demo_storage" "read_faults (snd w1) = read_faults empty_fs"
proof -
  let ?f = "NewFileStore ''metrics-db.json''"
  have w: "write_faults empty_fs (path ?f) = None" by (simp add: empty_fs_def)
  obtain data where d: "metrics_list_Marshal (snapshot_metrics (sorted_range (gauges demo_storage)) (sorted_range (counters demo_storage))) = Inr data"
    using Save_mem_cases [of sorted_range demo_storage, OF demo_storage_facts(2) w, of sorted_range] demo_storage_facts(4) by metis
  obtain ww where ww: "demo_serving (srv_log demo_boot_env (running_entry (srv_cfg srv)) (x, empty_fs)) = (None, ww)"
      "world_mem ww = demo_storage" "snd ww = empty_fs"
    by (simp add: demo_serving_def del: split_paired_Ex split_paired_All)
  have "world_save demo_boot_env ?f ww = (None, fst ww, empty_fs\<lparr>files := (files empty_fs)(path ?f \<mapsto> data)\<rparr>)"
    using d w ww(2,3) by (simp add: world_save_def FileStore_Save_def sworld_Snapshot demo_boot_env_def os_WriteFile_def)
  then have "\<exists>srv1. stopPersistence demo_boot_env (srv, ww) = (Return None, srv1, fst ww, empty_fs\<lparr>files := (files empty_fs)(path ?f \<mapsto> data)\<rparr>)"
    using assms by (cases q) (simp_all add: stopPersistence_def run_shutdown_def Let_def defaultServerConfig_def)
  then obtain srv1 where "stopPersistence demo_boot_env (srv, ww) =
      (Return None, srv1, fst ww, empty_fs\<lparr>files := (files empty_fs)(path ?f \<mapsto> data)\<rparr>)" ..
  with ww have "Server_Run demo_boot_env demo_serving (srv, (x, empty_fs)) = (Return None, srv1,
      srv_log demo_boot_env (LogEntry LogInfo ''server stopped'' []) (fst ww, empty_fs\<lparr>files := (files empty_fs)(path ?f \<mapsto> data)\<rparr>))"
    by (simp add: Server_Run_def errors_Join_def)
  then show ?thesis by (rule that) (simp_all add: ww)
qed

theorem restart_restores_witness:
  "\<exists>srv w srv1 w1 srv2 w2. Server_New demo_boot_env restoring_cfg (demo_world NewMemStorage empty_fs) = (Return (Inr ()), srv, w) \<and>
     Server_Run demo_boot_env demo_serving (srv, w) = (Return None, srv1, w1) \<and>
     Server_New demo_boot_env restoring_cfg (demo_world NewMemStorage (snd w1)) = (Return (Inr ()), srv2, w2) \<and>
     world_mem w2 = demo_storage"
proof -
  let ?env = demo_boot_env and ?cfg = restoring_cfg and ?f = "NewFileStore ''metrics-db.json''"
  have l: "FileStore_Load ?f mem_restorer empty_fs NewMemStorage = (None, NewMemStorage)"
    by (simp add: FileStore_Load_def os_ReadFile_def NewFileStore_def empty_fs_def)
  obtain srv n where n: "Server_New ?env ?cfg (demo_world NewMemStorage empty_fs) =
      (Return (Inr ()), srv, ((NewMemStorage, \<lparr>ofile = None, oencoder = None\<rparr>, n), empty_fs))"
    unfolding demo_world_def by (rule demo_start [OF l])
  have b: "boot ?env (srv_init ?cfg, demo_world NewMemStorage empty_fs) = (Inr (), srv, ((NewMemStorage, \<lparr>ofile = None, oencoder = None\<rparr>, n), empty_fs))"
    using n by (auto simp: Server_New_def split: prod.splits sum.splits outcome.splits)
  have c: "sc_DatabaseDSN ?cfg = []" "sc_FileStoragePath ?cfg \<noteq> []" "sc_Restore ?cfg" "sc_AuditFile ?cfg \<noteq> sc_FileStoragePath ?cfg"
    "sc_FileStoragePath ?cfg = ''metrics-db.json''" by (simp_all add: defaultServerConfig_def)
  obtain q where sh: "srv_shutdown srv = Some (ShutdownSave q)" "\<not> srv_persistenceOnce srv" "srv_cfg srv = ?cfg"
    using boot_restores(1,2) [OF b c(1,2)] boot_accounted [OF b] by (auto simp: boot_ends_def)
  let ?w = "((NewMemStorage, \<lparr>ofile = None, oencoder = None\<rparr>, n), empty_fs)"
  obtain srv1 w1 where r: "Server_Run ?env demo_serving (srv, ?w) = (Return None, srv1, w1)"
    and w1: "world_mem w1 = demo_storage" "read_faults (snd w1) = read_faults empty_fs"
    by (rule demo_run [OF sh])
  have fair: "fair_order (se_gauges ?env)" "fair_order (se_counters ?env)" by (simp_all add: demo_boot_env_def sorted_range_fair)
  have dom: "finite (dom (gauges (world_mem w1)))" "finite (dom (counters (world_mem w1)))" by (simp_all add: w1 demo_storage_def)
  have nv: "names_valid (mem_view (world_mem w1))" "read_faults (snd w1) (sc_FileStoragePath ?cfg) = None"
    by (simp_all add: w1 demo_storage_facts empty_fs_def)
  have "FileStore_Load ?f mem_restorer (snd w1) NewMemStorage = (None, demo_storage)"
    using Load_file_holds [OF Server_Run_saved(2) [OF r sh(1,2) fair dom] nv(1)] nv(2) w1(1) by (simp add: sh(3) c(5) NewFileStore_def)
  then obtain srv2 w2 where n2: "Server_New ?env ?cfg ((NewMemStorage, \<lparr>ofile = None, oencoder = None\<rparr>, []), snd w1) = (Return (Inr ()), srv2, w2)"
    by (elim demo_start) blast
  from restart_restores [OF n r c(1-4) fair dom nv n2] n r n2 show ?thesis
    unfolding demo_world_def w1(1) by blast
qed

text \<open>
  C22: A restore that fails crashes the start. When the file cannot be loaded, the set-up of the
  persistence returns a nil function together with its error; the deferred \<^verbatim>\<open>Close\<close> of \<^verbatim>\<open>New\<close> calls
  that function and panics, so the error is lost and both listeners stay open.
\<close>

theorem restore_error_panics:
  assumes "sc_CryptoKey cfg = []" "sc_TrustedSubnet cfg = []" "sc_DatabaseDSN cfg = []" "sc_AuditFile cfg = []" "sc_AuditURL cfg = []"
    and "sc_GRPCTLSCert cfg = []" "sc_GRPCTLSKey cfg = []" "se_listen env = (\<lambda>_. None)"
    and "sc_FileStoragePath cfg \<noteq> []" "sc_Restore cfg"
    and "FileStore_Load (NewFileStore (sc_FileStoragePath cfg)) mem_restorer (snd w) NewMemStorage = (Some err, m)"
  shows "\<exists>srv w'. Server_New env cfg w = (Panic ''nil pointer dereference'', srv, w') \<and> srv_open srv = {RHTTPListener, RGRPCListener}"
proof -
  have d: "boot_database env (srv_init cfg, w) = (Inr True, (srv_init cfg)\<lparr>srv_db := False, srv_service := NewMetricsService sworld_storage\<rparr>,
      (NewMemStorage, snd (fst (srv_log env (LogEntry LogDebug ''database disabled'' []) w))), snd w)"
    using boot_database_none [of "srv_init cfg" env w] assms(3) by simp
  have "\<exists>s3 w3. boot env (srv_init cfg, w) = (Inl err, s3, w3) \<and> srv_shutdown s3 = None \<and>
      srv_open s3 = {RHTTPListener, RGRPCListener} \<and> \<not> srv_closeOnce s3 \<and> \<not> srv_persistenceOnce s3"
    unfolding boot_def
    by (simp add: try_bind_def d loadPrivateKey_def parseTrustedSubnet_def assms boot_audit_def setupAudit_def
        boot_transports_def newGRPCServer_def boot_listeners_def boot_persistence_def setupFilePersistence_def Let_def insert_commute del: split_paired_Ex)
  then show ?thesis
    by (auto simp: Server_New_def Server_Close_def stopPersistence_def run_shutdown_def)
qed

theorem restore_error_panics_witness:
  "\<exists>srv w'. Server_New demo_boot_env restoring_cfg (demo_world NewMemStorage (empty_fs\<lparr>files := [''metrics-db.json'' \<mapsto> ''x'']\<rparr>)) =
      (Panic ''nil pointer dereference'', srv, w') \<and> srv_open srv = {RHTTPListener, RGRPCListener}"
proof -
  have j: "json_Unmarshal ''x'' = None" by code_simp
  show ?thesis
    by (rule restore_error_panics [where err = json_unmarshal_error and m = NewMemStorage])
      (simp_all add: defaultServerConfig_def demo_boot_env_def demo_world_def FileStore_Load_def os_ReadFile_def NewFileStore_def
        empty_fs_def j)
qed

text \<open>
  Validation misses an overflow of the store interval. The interval 9223372037 seconds passes the
  validation of the configuration and the check of the set-up, but its product with a second wraps to
  a negative period: \<^verbatim>\<open>New\<close> succeeds and the goroutine of the periodic save then panics. Up to
  9223372036 seconds the ticker starts.
\<close>

theorem accepted_store_interval_panics:
  "(\<forall>n :: int64. 0 < sint n \<and> sint n \<le> 9223372036 \<longrightarrow> srv_panic (startPeriodicSave (n * 1000000000) srv) = srv_panic srv) \<and>
   (let cfg = defaultServerConfig\<lparr>sc_StoreIntervalInSec := 9223372037\<rparr>
    in validateServerConfig parse cfg = None \<and>
       (\<exists>srv' w'. Server_New demo_boot_env cfg (demo_world NewMemStorage empty_fs) = (Return (Inr ()), srv', w') \<and>
          srv_panic srv' = Some ''non-positive interval for NewTicker''))"
proof -
  have "0 < sint (n * 1000000000)" if n: "0 < sint n" "sint n \<le> 9223372036" for n :: int64
  proof -
    have "n * 1000000000 = word_of_int (sint n * 1000000000)" by simp
    moreover have "sint (word_of_int (sint n * 1000000000) :: int64) = sint n * 1000000000"
      unfolding int_word_sint using n by simp
    ultimately show ?thesis using n by simp
  qed
  moreover have "\<exists>srv' w'. Server_New demo_boot_env (defaultServerConfig\<lparr>sc_StoreIntervalInSec := 9223372037\<rparr>)
      (demo_world NewMemStorage empty_fs) = (Return (Inr ()), srv', w') \<and> srv_panic srv' = Some ''non-positive interval for NewTicker''"
    unfolding Server_New_def boot_def
    by (simp add: try_bind_def boot_database_none loadPrivateKey_def parseTrustedSubnet_def boot_audit_def setupAudit_def srv_log_def
        boot_transports_def newGRPCServer_def boot_listeners_def boot_persistence_def setupFilePersistence_def startPeriodicSave_def
        defaultServerConfig_def demo_boot_env_def demo_world_def Let_def del: split_paired_Ex)
  ultimately show ?thesis
    by (auto simp: Let_def validateServerConfig_def defaultServerConfig_def startPeriodicSave_def not_le [symmetric])
qed

theorem accepted_store_interval_panics_witness:
  "srv_panic (startPeriodicSave (60 * 1000000000) (srv_init defaultServerConfig :: (unit sworld, unit) Server)) = None"
proof -
  have "0 < sint (60 :: int64) \<and> sint (60 :: int64) \<le> 9223372036" by simp
  with accepted_store_interval_panics [of "srv_init defaultServerConfig :: (unit sworld, unit) Server"]
  have "srv_panic (startPeriodicSave (60 * 1000000000) (srv_init defaultServerConfig :: (unit sworld, unit) Server)) =
    srv_panic (srv_init defaultServerConfig :: (unit sworld, unit) Server)" by blast
  then show ?thesis by simp
qed

text \<open>
  Both transports report and neither error is lost, in whichever order they end: the joint error is
  none exactly if both are, and it wraps what either of them wraps.
\<close>

theorem serveTransports_joins:
  "(serveTransports httpFirst http grpc = None \<longleftrightarrow> http = None \<and> grpc = None) \<and>
   (\<forall>e x. e \<in> set_option http \<union> set_option grpc \<and> errors_Is e x \<longrightarrow>
      (\<exists>j. serveTransports httpFirst http grpc = Some j \<and> errors_Is j x))"
  by (cases http; cases grpc; cases httpFirst) (auto simp: serveTransports_def errors_Join_def map_filter_simps)

end
