(* ===== verification/Commands.thy ===== *)
theory Commands
  imports AgentRuntime AgentTransport ServerLifecycle
begin

text \<open>
  The two programs (\<^verbatim>\<open>src/cmd/agent/main.go\<close>, \<^verbatim>\<open>src/cmd/server/main.go\<close>) with the packages only they use:
  \<^verbatim>\<open>internal/buildinfo\<close>, \<^verbatim>\<open>internal/logger\<close> and \<^verbatim>\<open>internal/server/migrations\<close>. They wire the modelled parts
  together; arguments, environment, standard output and the end of the context are given. The run of
  the agent (theory \<^verbatim>\<open>AgentRuntime\<close>) and the serving of the transports are parameters of the two \<open>run\<close>
  functions. Zap, golang-migrate and the gRPC client are parameters.
\<close>

subsection \<open>Build information\<close>

type_synonym 'w writer = "string \<Rightarrow> 'w \<Rightarrow> goerr option \<times> 'w"

definition buildinfo_value :: "string \<Rightarrow> string" where
  "buildinfo_value v = (if v = [] then ''N/A'' else v)"

definition buildinfo_Print :: "'w writer \<Rightarrow> string \<Rightarrow> string \<Rightarrow> string \<Rightarrow> 'w \<Rightarrow> goerr option \<times> 'w" where
  "buildinfo_Print write version date commit w =
     (case write (''Build version: '' @ buildinfo_value version @ [CHR 0x0A]) w of
        (Some err, w) \<Rightarrow> (Some err, w)
      | (None, w) \<Rightarrow>
          (case write (''Build date: '' @ buildinfo_value date @ [CHR 0x0A]) w of
             (Some err, w) \<Rightarrow> (Some err, w)
           | (None, w) \<Rightarrow>
               (case write (''Build commit: '' @ buildinfo_value commit @ [CHR 0x0A]) w of
                  (Some err, w) \<Rightarrow> (Some err, w)
                | (None, w) \<Rightarrow> (None, w))))"

abbreviation backslash :: string where "backslash \<equiv> [CHR 0x5C]"

definition agent_banner :: string where
  "agent_banner = concat (map (\<lambda>l. l @ [CHR 0x0A])
     [[],
      ''   _____          __         .__                 _____                         __'',
      ''  /     '' @ backslash @ ''   _____/  |________|__| ____   ______ /  _  '' @ backslash @ ''    ____   ____   _____/  |_'',
      '' /  '' @ backslash @ '' /  '' @ backslash @ ''_/ __ '' @ backslash @ ''   __'' @ backslash @ ''_  __ '' @ backslash @ ''  |/ ___'' @ backslash @ '' /  ___//  /_'' @ backslash @ ''  '' @ backslash @ ''  / ___'' @ backslash @ ''_/ __ '' @ backslash @ '' /    '' @ backslash @ ''   __'' @ backslash,
      ''/    Y    '' @ backslash @ ''  ___/|  |  |  | '' @ backslash @ ''/  '' @ backslash @ ''  '' @ backslash @ ''___ '' @ backslash @ ''___ '' @ backslash @ ''/    |    '' @ backslash @ ''/ /_/  >  ___/|   |  '' @ backslash @ ''  |'',
      backslash @ ''____|__  /'' @ backslash @ ''___  >__|  |__|  |__|'' @ backslash @ ''___  >____  >____|__  /'' @ backslash @ ''___  / '' @ backslash @ ''___  >___|  /__|'',
      ''        '' @ backslash @ ''/     '' @ backslash @ ''/                    '' @ backslash @ ''/     '' @ backslash @ ''/        '' @ backslash @ ''//_____/      '' @ backslash @ ''/     '' @ backslash @ ''/'',
      []])"

definition server_banner :: string where
  "server_banner = concat (map (\<lambda>l. l @ [CHR 0x0A])
     [[],
      ''   _____          __         .__                _________'',
      ''  /     '' @ backslash @ ''   _____/  |________|__| ____   ______/   _____/ ______________  __ ___________'',
      '' /  '' @ backslash @ '' /  '' @ backslash @ ''_/ __ '' @ backslash @ ''   __'' @ backslash @ ''_  __ '' @ backslash @ ''  |/ ___'' @ backslash @ '' /  ___/'' @ backslash @ ''_____  '' @ backslash @ ''_/ __ '' @ backslash @ ''_  __ '' @ backslash @ ''  '' @ backslash @ ''/ // __ '' @ backslash @ ''_  __ '' @ backslash,
      ''/    Y    '' @ backslash @ ''  ___/|  |  |  | '' @ backslash @ ''/  '' @ backslash @ ''  '' @ backslash @ ''___ '' @ backslash @ ''___ '' @ backslash @ '' /        '' @ backslash @ ''  ___/|  | '' @ backslash @ ''/'' @ backslash @ ''   /'' @ backslash @ ''  ___/|  | '' @ backslash @ ''/'',
      backslash @ ''____|__  /'' @ backslash @ ''___  >__|  |__|  |__|'' @ backslash @ ''___  >____  >_______  /'' @ backslash @ ''___  >__|    '' @ backslash @ ''_/  '' @ backslash @ ''___  >__|'',
      ''        '' @ backslash @ ''/     '' @ backslash @ ''/                    '' @ backslash @ ''/     '' @ backslash @ ''/        '' @ backslash @ ''/     '' @ backslash @ ''/                 '' @ backslash @ ''/'',
      []])"

subsection \<open>Logger and migrations\<close>

definition logger_New :: "(string \<Rightarrow> goerr + 'lvl) \<Rightarrow> ('lvl \<Rightarrow> goerr + 'lg) \<Rightarrow> lookupEnvFunc \<Rightarrow> goerr + 'lg" where
  "logger_New ParseAtomicLevel Build lookupEnv =
     (let levelName = (case lookupEnv ''LOG_LEVEL'' of None \<Rightarrow> [] | Some v \<Rightarrow> v);
          levelName = (if levelName = [] then ''info'' else levelName)
      in case ParseAtomicLevel levelName of
           Inl err \<Rightarrow> Inl (ErrorfW ''parse LOG_LEVEL %q: %w'' [FStr levelName] err)
         | Inr level \<Rightarrow> Build level)"

definition ErrNoChange :: goerr where
  "ErrNoChange = ErrorNew ''no change''"

record migrate_lib =
  mig_WithInstance :: "goerr option"
  mig_Getwd :: "goerr + string"
  mig_New :: "string \<Rightarrow> goerr option"
  mig_Up :: "goerr option"

definition RunMigrations :: "migrate_lib \<Rightarrow> goerr option" where
  "RunMigrations m =
     (case mig_WithInstance m of
        Some err \<Rightarrow> Some (ErrorfW ''create migration driver: %w'' [] err)
      | None \<Rightarrow>
          (case mig_Getwd m of
             Inl err \<Rightarrow> Some (ErrorfW ''get working dir: %w'' [] err)
           | Inr wd \<Rightarrow>
               (case mig_New m (''file://'' @ wd @ ''/migrations'') of
                  Some err \<Rightarrow> Some (ErrorfW ''create migrate instance: %w'' [] err)
                | None \<Rightarrow>
                    (case mig_Up m of
                       None \<Rightarrow> None
                     | Some err \<Rightarrow> if err \<noteq> ErrNoChange then Some (ErrorfW ''run migrations: %w'' [] err) else None))))"

subsection \<open>The agent\<close>

record ('pub, 'priv, 'cred, 'n) agent_env =
  ae_x509 :: "('pub, 'priv) x509"
  ae_crypto :: "('pub, 'priv) crypto"
  ae_gzip :: gzip_lib
  ae_io :: "'n agent_io"
  ae_tls :: "string \<Rightarrow> goerr + 'cred"
  ae_client :: "string \<Rightarrow> 'cred credentials \<Rightarrow> goerr + ('n \<Rightarrow> goerr option \<times> 'n)"
  ae_log :: "'n logger"

definition newMetricsSender ::
    "('pub, 'priv, 'cred, 'n) agent_env \<Rightarrow> filesystem \<Rightarrow> AgentConfig \<Rightarrow> goerr + 'n MetricsSender \<times> ('n \<Rightarrow> goerr option \<times> 'n)" where
  "newMetricsSender env fs cfg =
     (if ac_Transport cfg = TransportGRPC then
        (case NewGRPCSender (ae_tls env) (ae_client env) (ac_ServerAddr cfg) (ac_GRPCTLSCA cfg) of
           Inl err \<Rightarrow> Inl err
         | Inr sender \<Rightarrow> Inr (GRPCSender_Send (ae_io env) sender, GRPCSender_Close sender))
      else if ac_Transport cfg = TransportHTTP then
        (case NewHTTPSender (ae_x509 env) fs (ac_ServerAddr cfg) (ac_Key cfg) (ac_CryptoKey cfg) of
           Inl err \<Rightarrow> Inl err
         | Inr sender \<Rightarrow> Inr (HTTPSender_Send (ae_crypto env) (ae_gzip env) (ae_io env) sender, \<lambda>n. (None, n)))
      else Inl (Errorf ''unsupported transport %q'' [FStr (ac_Transport cfg)]))"

definition logAgentStart :: "'n logger \<Rightarrow> AgentConfig \<Rightarrow> 'n \<Rightarrow> 'n" where
  "logAgentStart l cfg n =
     (let n = l (LogEntry LogInfo ''(^_^) running Agent''
            [(''transport'', FStr (ac_Transport cfg)), (''address'', FStr (ac_ServerAddr cfg)),
             (''grpcTLS'', zap_Bool (ac_Transport cfg = TransportGRPC \<and> ac_GRPCTLSCA cfg \<noteq> []))]) n
      in if ac_Transport cfg = TransportGRPC \<and> ac_GRPCTLSCA cfg = []
         then l (LogEntry LogWarn (''('' @ [CHR 0xD0, CHR 0xBE] @ ''_0) gRPC transport is running without TLS'') [(''address'', FStr (ac_ServerAddr cfg))]) n
         else n)"

text \<open>The arguments of the process start with its name.\<close>

definition GetAgentConfig :: "filesystem \<Rightarrow> string list \<Rightarrow> lookupEnvFunc \<Rightarrow> AgentConfig \<times> goerr option" where
  "GetAgentConfig fs osArgs lookupEnv = parseAgentConfig fs (tl osArgs) lookupEnv"

text \<open>The part of \<^verbatim>\<open>run\<close> between making the sender and the deferred close; the storage of the agent starts empty.\<close>

definition agent_body ::
    "('pub, 'priv, 'cred, 'n) agent_env \<Rightarrow> ((MemStorage, 'n) Agent \<Rightarrow> (MemStorage, 'n) agent_world \<Rightarrow> goerr option \<times> (MemStorage, 'n) agent_world) \<Rightarrow>
       AgentConfig \<Rightarrow> 'n MetricsSender \<Rightarrow> 'n \<Rightarrow> goerr option \<times> 'n" where
  "agent_body env Run cfg sender n =
     (case Agent_New (Some (KPointer, False, ReportingService_New mem_storage sender)) cfg of
        Inl err \<Rightarrow> (Some err, n)
      | Inr a \<Rightarrow>
          (case Run a \<lparr>ag_repo = NewMemStorage, ag_net = logAgentStart (ae_log env) cfg n, pollSinceReport = 0\<rparr> of
             (err, w) \<Rightarrow> (err, ag_net w)))"

definition agent_run ::
    "('pub, 'priv, 'cred, 'n) agent_env \<Rightarrow> ((MemStorage, 'n) Agent \<Rightarrow> (MemStorage, 'n) agent_world \<Rightarrow> goerr option \<times> (MemStorage, 'n) agent_world) \<Rightarrow>
       filesystem \<Rightarrow> string list \<Rightarrow> lookupEnvFunc \<Rightarrow> goerr option \<Rightarrow> 'n \<Rightarrow> goerr option \<times> 'n" where
  "agent_run env Run fs args lookupEnv loggerErr n =
     (case GetAgentConfig fs args lookupEnv of
        (cfg, Some err) \<Rightarrow> (Some err, n)
      | (cfg, None) \<Rightarrow>
          (case loggerErr of
             Some err \<Rightarrow> (Some err, n)
           | None \<Rightarrow>
               (case newMetricsSender env fs cfg of
                  Inl err \<Rightarrow> (Some err, n)
                | Inr (sender, closeSender) \<Rightarrow>
                    (case agent_body env Run cfg sender n of
                       (err, n1) \<Rightarrow>
                         (case closeSender n1 of
                            (None, n2) \<Rightarrow> (err, n2)
                          | (Some closeErr, n2) \<Rightarrow>
                              (errors_Join [err, Some (ErrorfW ''close metrics sender: %w'' [] closeErr)], n2))))))"

subsection \<open>The server\<close>

definition GetServerConfig :: "url_parser \<Rightarrow> filesystem \<Rightarrow> string list \<Rightarrow> lookupEnvFunc \<Rightarrow> ServerConfig \<times> goerr option" where
  "GetServerConfig parse fs osArgs lookupEnv = parseServerConfig parse fs (tl osArgs) lookupEnv"

text \<open>The deferred \<^verbatim>\<open>Close\<close> runs also when \<^verbatim>\<open>Run\<close> panics. There is a server record once \<^verbatim>\<open>New\<close> has been called.\<close>

definition server_run ::
    "('pub, 'priv, 'n, 'cred) server_env \<Rightarrow> url_parser \<Rightarrow> ('n sworld \<Rightarrow> goerr option \<times> 'n sworld) \<Rightarrow> string list \<Rightarrow> lookupEnvFunc \<Rightarrow>
       goerr option \<Rightarrow> 'n sworld \<Rightarrow> goerr option outcome \<times> ('n sworld, 'cred) Server option \<times> 'n sworld" where
  "server_run env parse serving args lookupEnv loggerErr w =
     (case GetServerConfig parse (snd w) args lookupEnv of
        (cfg, Some err) \<Rightarrow> (Return (Some err), None, w)
      | (cfg, None) \<Rightarrow>
          (case loggerErr of
             Some err \<Rightarrow> (Return (Some err), None, w)
           | None \<Rightarrow>
               (case Server_New env cfg w of
                  (Panic m, srv, w1) \<Rightarrow> (Panic m, Some srv, w1)
                | (Return (Inl err), srv, w1) \<Rightarrow> (Return (Some err), Some srv, w1)
                | (Return (Inr _), srv, w1) \<Rightarrow>
                    (case Server_Run env serving (srv, w1) of
                       (res, sw) \<Rightarrow>
                         (case Server_Close env sw of
                            (Panic m, srv2, w2) \<Rightarrow> (Panic m, Some srv2, w2)
                          | (Return _, srv2, w2) \<Rightarrow> (res, Some srv2, w2))))))"

subsection \<open>The two main functions\<close>

datatype exit_status = ExitOK | ExitFatal goerr | Crashed string

abbreviation ErrHelp :: goerr where
  "ErrHelp \<equiv> LibError ''flag: help requested''"

definition exit_of :: "goerr option outcome \<Rightarrow> exit_status" where
  "exit_of r =
     (case r of
        Panic m \<Rightarrow> Crashed m
      | Return None \<Rightarrow> ExitOK
      | Return (Some err) \<Rightarrow> if errors_Is err ErrHelp then ExitOK else ExitFatal err)"

definition cmd_main ::
    "'w writer \<Rightarrow> string \<Rightarrow> string \<times> string \<times> string \<Rightarrow> ('w \<Rightarrow> goerr option outcome \<times> 'w) \<Rightarrow> 'w \<Rightarrow> exit_status \<times> 'w" where
  "cmd_main write banner build run w =
     (case buildinfo_Print write (fst build) (fst (snd build)) (snd (snd build)) w of
        (Some err, w) \<Rightarrow> (ExitFatal err, w)
      | (None, w) \<Rightarrow>
          (case write banner w of
             (Some err, w) \<Rightarrow> (ExitFatal err, w)
           | (None, w) \<Rightarrow> (case run w of (r, w) \<Rightarrow> (exit_of r, w))))"

definition agent_main ::
    "'n writer \<Rightarrow> string \<times> string \<times> string \<Rightarrow> ('pub, 'priv, 'cred, 'n) agent_env \<Rightarrow>
       ((MemStorage, 'n) Agent \<Rightarrow> (MemStorage, 'n) agent_world \<Rightarrow> goerr option \<times> (MemStorage, 'n) agent_world) \<Rightarrow>
       filesystem \<Rightarrow> string list \<Rightarrow> lookupEnvFunc \<Rightarrow> goerr option \<Rightarrow> 'n \<Rightarrow> exit_status \<times> 'n" where
  "agent_main write build env Run fs args lookupEnv loggerErr =
     cmd_main write agent_banner build (\<lambda>n. case agent_run env Run fs args lookupEnv loggerErr n of (err, n) \<Rightarrow> (Return err, n))"

definition server_main ::
    "'n sworld writer \<Rightarrow> string \<times> string \<times> string \<Rightarrow> ('pub, 'priv, 'n, 'cred) server_env \<Rightarrow> url_parser \<Rightarrow>
       ('n sworld \<Rightarrow> goerr option \<times> 'n sworld) \<Rightarrow> string list \<Rightarrow> lookupEnvFunc \<Rightarrow> goerr option \<Rightarrow> 'n sworld \<Rightarrow> exit_status \<times> 'n sworld" where
  "server_main write build env parse serving args lookupEnv loggerErr =
     cmd_main write server_banner build (\<lambda>w. case server_run env parse serving args lookupEnv loggerErr w of (r, srv, w) \<Rightarrow> (r, w))"

subsection \<open>Properties\<close>





text \<open>
  A configuration that was parsed always gets its agent: the transport is known and the intervals are
  accepted, so that after the sender was made the agent runs with the configured values, the sender is
  closed once after the run, and the result is nil exactly if the run and the close had no error.
\<close>

theorem agent_run_outcome:
  assumes "GetAgentConfig fs args lookupEnv = (cfg, None)" "newMetricsSender env fs cfg = Inr (sender, close)"
  shows "\<exists>a err w cerr n'. a_service a = ReportingService_New mem_storage sender \<and> a_pollIntervalInSec a = ac_PollIntervalInSec cfg \<and>
    a_reportIntervalInSec a = ac_ReportIntervalInSec cfg \<and> a_rateLimit a = ac_RateLimit cfg \<and>
    Run a \<lparr>ag_repo = NewMemStorage, ag_net = logAgentStart (ae_log env) cfg n, pollSinceReport = 0\<rparr> = (err, w) \<and>
    close (ag_net w) = (cerr, n') \<and> snd (agent_run env Run fs args lookupEnv None n) = n' \<and>
    (fst (agent_run env Run fs args lookupEnv None n) = None \<longleftrightarrow> err = None \<and> cerr = None)"
proof -
  have "validateAgentConfig cfg = None" by (rule parseAgentConfig_ok [OF assms(1) [unfolded GetAgentConfig_def]])
  then have v: "0 < sint (ac_PollIntervalInSec cfg) \<and> 0 < sint (ac_ReportIntervalInSec cfg) \<and> 0 < sint (ac_RateLimit cfg)"
    by (auto simp: validateAgentConfig_def split: if_splits)
  let ?a = "\<lparr>a_service = ReportingService_New mem_storage sender, a_pollIntervalInSec = ac_PollIntervalInSec cfg,
    a_reportIntervalInSec = ac_ReportIntervalInSec cfg, a_rateLimit = ac_RateLimit cfg\<rparr>"
  obtain err w where r: "Run ?a \<lparr>ag_repo = NewMemStorage, ag_net = logAgentStart (ae_log env) cfg n, pollSinceReport = 0\<rparr> = (err, w)"
    by (meson surj_pair)
  obtain cerr n' where k: "close (ag_net w) = (cerr, n')" by (meson surj_pair)
  have "agent_run env Run fs args lookupEnv None n =
      (case cerr of None \<Rightarrow> (err, n') | Some e \<Rightarrow> (errors_Join [err, Some (ErrorfW ''close metrics sender: %w'' [] e)], n'))"
    using v r k assms by (simp add: agent_run_def agent_body_def Agent_New_def isNilReportingService_def not_le)
  then show ?thesis using r k by (intro exI [of _ ?a] exI [of _ err] exI [of _ w] exI [of _ cerr] exI [of _ n']) (cases cerr; simp)
qed

text \<open>The three lines of the build information, with missing values shown as \<^verbatim>\<open>N/A\<close>.\<close>

theorem buildinfo_lines:
  "buildinfo_Print (\<lambda>t out. (None, out @ t)) v d c out =
     (None, out @ ''Build version: '' @ buildinfo_value v @ [CHR 0x0A] @ ''Build date: '' @ buildinfo_value d @ [CHR 0x0A] @
        ''Build commit: '' @ buildinfo_value c @ [CHR 0x0A])"
  by (simp add: buildinfo_Print_def)

text \<open>Migrations succeed when there is nothing to do.\<close>

theorem migrations_up_to_date:
  "RunMigrations m = None \<longleftrightarrow> mig_WithInstance m = None \<and>
     (\<exists>wd. mig_Getwd m = Inr wd \<and> mig_New m (''file://'' @ wd @ ''/migrations'') = None) \<and> mig_Up m \<in> {None, Some ErrNoChange}"
  by (auto simp: RunMigrations_def split: option.splits sum.splits if_splits)

text \<open>
  What zap documents of levels: the name \<^verbatim>\<open>info\<close> is that level, and a logger writes the entries at or
  above its level to its sink and drops the rest.
\<close>

definition zap_levels ::
    "(string \<Rightarrow> goerr + log_level) \<Rightarrow> (log_level \<Rightarrow> goerr + 'w logger) \<Rightarrow> 'w logger \<Rightarrow> bool" where
  "zap_levels ParseAtomicLevel Build sink \<longleftrightarrow>
     ParseAtomicLevel ''info'' = Inr LogInfo \<and>
     (\<forall>lvl lg. Build lvl = Inr lg \<longrightarrow> (\<forall>e w. lg e w = (if lvl \<le> entry_level e then sink e w else w)))"

text \<open>
  Without \<^verbatim>\<open>LOG_LEVEL\<close> (or with an empty one) the level is \<^verbatim>\<open>info\<close>: of the requests that reach the server
  only those answered with a server error are in the log, over HTTP and over gRPC alike.
\<close>

theorem default_log_has_server_errors_only:
  assumes zap: "zap_levels parse build sink" and unset: "lookupEnv ''LOG_LEVEL'' = None \<or> lookupEnv ''LOG_LEVEL'' = Some []"
    and made: "logger_New parse build lookupEnv = Inr lg"
  shows "(next_http r w = (Return ops, w1) \<longrightarrow>
      (let status = lw_statusCode (fold logging_step ops newLoggingResponseWriter); res = WithLogging lg next_http r w
       in fst res = Return ops \<and> (if 500 \<le> status then \<exists>e. snd res = sink e w1 else snd res = w1))) \<and>
    (next_grpc ctx rq w = (Return err, w2) \<longrightarrow>
      (let res = LoggingInterceptor lg next_grpc ctx rq w
       in fst res = Return err \<and>
          (if isServerErrorCode (status_Code err) then \<exists>e. snd res = sink e w2 else snd res = w2)))"
proof -
  have "build LogInfo = Inr lg"
    using zap unset made by (auto simp: zap_levels_def logger_New_def Let_def)
  then have "lg e w = (if LogInfo \<le> entry_level e then sink e w else w)" for e w
    using zap by (auto simp: zap_levels_def)
  then show ?thesis
    by (auto simp: WithLogging_def LoggingInterceptor_def Let_def less_eq_log_level_def)
qed

definition demo_log_request :: http_request where
  "demo_log_request =
     \<lparr>rq_method = ''GET'', rq_uri = ''/ping'', rq_header = Map.empty, rq_body = None, rq_remote = ''10.0.0.1:1'',
      rq_params = (\<lambda>_. []), rq_ctx = None, rq_now = 0\<rparr>"

theorem default_log_has_server_errors_only_witness:
  "\<exists>lg. logger_New (\<lambda>_. Inr LogInfo) (\<lambda>lvl. Inr (\<lambda>e w. if lvl \<le> entry_level e then w @ [e] else w)) (\<lambda>_. None) = Inr lg \<and>
     snd (WithLogging lg (\<lambda>r w. (Return [WriteHeader 200], w)) demo_log_request []) = [] \<and>
     (\<exists>e. snd (WithLogging lg (\<lambda>r w. (Return [WriteHeader 500], w)) demo_log_request []) = [e])"
proof -
  let ?parse = "\<lambda>_ :: string. Inr LogInfo :: goerr + log_level"
  let ?build = "\<lambda>lvl. Inr (\<lambda>e w. if lvl \<le> entry_level e then w @ [e] else w) :: goerr + log_entry list logger"
  let ?h = "\<lambda>c r w. (Return [WriteHeader c], w) :: rw_op list outcome \<times> log_entry list"
  obtain lg where made: "logger_New ?parse ?build (\<lambda>_. None) = Inr lg" by (simp add: logger_New_def)
  have z: "zap_levels ?parse ?build (\<lambda>e w. w @ [e])" by (auto simp: zap_levels_def)
  note rule = default_log_has_server_errors_only [OF z disjI1 [OF refl] made, THEN conjunct1, unfolded Let_def, THEN mp, THEN conjunct2]
  have "snd (WithLogging lg (?h 200) demo_log_request []) = []"
    using rule [of "?h 200" demo_log_request "[]" "[WriteHeader 200]" "[]"] by (simp add: newLoggingResponseWriter_def)
  moreover have "\<exists>e. snd (WithLogging lg (?h 500) demo_log_request []) = [e]"
    using rule [of "?h 500" demo_log_request "[]" "[WriteHeader 500]" "[]"] by (simp add: newLoggingResponseWriter_def)
  ultimately show ?thesis using made by blast
qed

end
