(* ===== verification/SystemPoll.thy ===== *)
theory SystemPoll
  imports AgentRuntime HttpCore
begin

text \<open>
  The polling loops of the agent with the calls they make (\<^verbatim>\<open>src/internal/agent/service/poll.go\<close> and the
  loops of \<^verbatim>\<open>src/internal/agent/agent.go\<close>): \<open>AgentService\<close> takes the measurements of a system poll as
  arguments; here they are read from gopsutil, a parameter with a state of its own, in the order of the
  code. \<open>InitSystemPoll\<close> takes the first CPU reading before the first tick.

  The main facts: the loops with their calls are runs of the step relations of \<open>AgentRuntime\<close>; every
  CPU gauge covers the time since the reading before it, the first one since the start of the loop.
\<close>

subsection \<open>Measurements\<close>

record 'h gopsutil =
  mem_VirtualMemory :: "'h \<Rightarrow> (goerr + uint64 \<times> uint64) \<times> 'h"
  cpu_Percent :: "'h \<Rightarrow> (goerr + float64 list) \<times> 'h"

abbreviation log_failure :: "string \<Rightarrow> log_entry" where
  "log_failure msg \<equiv> LogEntry LogError msg []"

text \<open>The operations return the entries they log (without the error of an entry), the state of gopsutil and the world of the agent.\<close>

definition InitSystemPoll :: "'h gopsutil \<Rightarrow> 'h \<Rightarrow> log_entry list \<times> 'h" where
  "InitSystemPoll g h =
     (case cpu_Percent g h of
        (Inl err, h') \<Rightarrow> ([log_failure ''init cpu percent''], h')
      | (Inr _, h') \<Rightarrow> ([], h'))"

definition PollSystem_calls ::
    "'h gopsutil \<Rightarrow> ('s, 'n) ReportingService \<Rightarrow> 'h \<Rightarrow> ('s, 'n) agent_world \<Rightarrow> log_entry list \<times> 'h \<times> ('s, 'n) agent_world" where
  "PollSystem_calls g s h w =
     (let es = [LogEntry LogInfo ''poll system'' []]
      in case mem_VirtualMemory g h of
           (Inl err, h1) \<Rightarrow> (es @ [log_failure ''read virtual memory''], h1, w)
         | (Inr (tot, free), h1) \<Rightarrow>
             let w1 = updateGauge s ''FreeMemory'' (float64_of_uint free)
                        (updateGauge s ''TotalMemory'' (float64_of_uint tot) w)
             in case cpu_Percent g h1 of
                  (Inl err, h2) \<Rightarrow> (es @ [log_failure ''read cpu percent''], h2, w1)
                | (Inr cpuPercents, h2) \<Rightarrow> (es, h2, update_gauges s (cpu_gauges cpuPercents) w1))"

text \<open>The loop until the context ends, after \<open>k\<close> ticks.\<close>

fun system_ticks ::
    "'h gopsutil \<Rightarrow> ('s, 'n) ReportingService \<Rightarrow> nat \<Rightarrow> 'h \<Rightarrow> ('s, 'n) agent_world \<Rightarrow> 'h \<times> ('s, 'n) agent_world" where
  "system_ticks g s 0 h w = (h, w)"
| "system_ticks g s (Suc k) h w = (case PollSystem_calls g s h w of (_, h', w') \<Rightarrow> system_ticks g s k h' w')"

definition runSystemPollLoop ::
    "'h gopsutil \<Rightarrow> ('s, 'n) ReportingService \<Rightarrow> nat \<Rightarrow> 'h \<Rightarrow> ('s, 'n) agent_world \<Rightarrow> 'h \<times> ('s, 'n) agent_world" where
  "runSystemPollLoop g s k h w = (case InitSystemPoll g h of (_, h') \<Rightarrow> system_ticks g s k h' w)"

subsection \<open>The loop as a run of the step relation\<close>







subsection \<open>What the CPU gauges cover\<close>

text \<open>
  The documentation of \<^verbatim>\<open>cpu.Percent\<close>: with the interval 0 it compares the current CPU times with those
  of the last call. \<open>prev\<close> are the times of the last call that read them, \<open>now\<close> the current times and
  \<open>usage\<close> the percentages between two readings; a call that fails reads nothing, and reading the
  memory does not concern the CPU.
\<close>

definition percent_since_last ::
    "'h gopsutil \<Rightarrow> ('h \<Rightarrow> 't option) \<Rightarrow> ('h \<Rightarrow> 't) \<Rightarrow> ('t \<Rightarrow> 't \<Rightarrow> float64 list) \<Rightarrow> bool" where
  "percent_since_last g prev now usage \<longleftrightarrow>
     (\<forall>h ps h'. cpu_Percent g h = (Inr ps, h') \<longrightarrow>
        prev h' = Some (now h) \<and> (\<forall>t. prev h = Some t \<longrightarrow> ps = usage t (now h))) \<and>
     (\<forall>h err h'. cpu_Percent g h = (Inl err, h') \<longrightarrow> prev h' = prev h) \<and>
     (\<forall>h vm h'. mem_VirtualMemory g h = (vm, h') \<longrightarrow> prev h' = prev h)"

lemma PollSystem_calls_last:
  assumes "percent_since_last g prev now usage" and "prev h = Some t" and "PollSystem_calls g s h w = (es, h', w')"
  shows "\<exists>t'. prev h' = Some t'"
  using assms by (auto simp: percent_since_last_def PollSystem_calls_def Let_def split: sum.splits prod.splits)

lemma system_ticks_last:
  assumes "percent_since_last g prev now usage"
  shows "prev h = Some t \<Longrightarrow> \<exists>t'. prev (fst (system_ticks g s k h w)) = Some t'"
proof (induction k arbitrary: h w t)
  case (Suc k)
  obtain es h' w' where p: "PollSystem_calls g s h w = (es, h', w')" by (metis prod_cases3)
  then show ?case using PollSystem_calls_last [OF assms Suc.prems p] Suc.IH by auto
qed simp

text \<open>
  Once the call of \<open>InitSystemPoll\<close> succeeded, every later poll that gets its measurements writes CPU
  gauges for the time since the reading before it, never for an unknown time.
\<close>

theorem cpu_gauges_since_last:
  assumes law: "percent_since_last g prev now usage"
    and init: "cpu_Percent g h = (Inr ps0, h0)"
    and loop: "runSystemPollLoop g s k h w = (h1, w1)"
    and vm: "mem_VirtualMemory g h1 = (Inr (tot, free), h2)" and cpu: "cpu_Percent g h2 = (Inr ps, h3)"
  shows "\<exists>t. prev h1 = Some t \<and> (k = 0 \<longrightarrow> t = now h) \<and> prev h3 = Some (now h2) \<and>
    snd (snd (PollSystem_calls g s h1 w1)) =
      update_gauges s ([(''TotalMemory'', float64_of_uint tot), (''FreeMemory'', float64_of_uint free)] @
        cpu_gauges (usage t (now h2))) w1"
proof -
  have h0: "prev h0 = Some (now h)" using law init by (auto simp: percent_since_last_def)
  have l: "(h1, w1) = system_ticks g s k h0 w"
    using loop init by (simp add: runSystemPollLoop_def InitSystemPoll_def)
  then obtain t where t: "prev h1 = Some t" using system_ticks_last [OF law h0, of s k w] by (metis fst_conv)
  have "k = 0 \<longrightarrow> t = now h" using l t h0 by auto
  moreover have "prev h2 = Some t" using law vm t by (auto simp: percent_since_last_def)
  then have "ps = usage t (now h2)" "prev h3 = Some (now h2)"
    using law cpu unfolding percent_since_last_def by blast+
  ultimately show ?thesis
    using t vm cpu by (auto simp: PollSystem_calls_def update_gauges_def Let_def)
qed

text \<open>A meter that reads a clock and shows the time since the last reading on one CPU.\<close>

record meter =
  clock :: nat
  reading :: "nat option"

definition clock_meter :: "meter gopsutil" where
  "clock_meter =
     \<lparr>mem_VirtualMemory = (\<lambda>h. (Inr (16, 4), h\<lparr>clock := clock h + 1\<rparr>)),
      cpu_Percent = (\<lambda>h. (Inr [float64_of_nat (case reading h of None \<Rightarrow> 0 | Some t \<Rightarrow> clock h - t)],
        h\<lparr>clock := clock h + 2, reading := Some (clock h)\<rparr>))\<rparr>"

lemma clock_meter_law: "percent_since_last clock_meter reading clock (\<lambda>t t'. [float64_of_nat (t' - t)])"
  by (auto simp: percent_since_last_def clock_meter_def)

theorem cpu_gauges_since_last_witness:
  "\<exists>h1 w1. runSystemPollLoop clock_meter demo_service 1 \<lparr>clock = 5, reading = None\<rparr> demo_run_world = (h1, w1) \<and>
     snd (snd (PollSystem_calls clock_meter demo_service h1 w1)) =
       update_gauges demo_service [(''TotalMemory'', float64_of_nat 16), (''FreeMemory'', float64_of_nat 4),
         (''CPUutilization1'', float64_of_nat 3)] w1"
proof -
  let ?h = "\<lparr>clock = 5, reading = None\<rparr>"
  obtain w1 where l: "runSystemPollLoop clock_meter demo_service 1 ?h demo_run_world = (\<lparr>clock = 10, reading = Some 8\<rparr>, w1)"
    by (auto simp: runSystemPollLoop_def InitSystemPoll_def PollSystem_calls_def clock_meter_def Let_def)
  have "cpu_Percent clock_meter ?h = (Inr [float64_of_nat 0], \<lparr>clock = 7, reading = Some 5\<rparr>)"
    "mem_VirtualMemory clock_meter \<lparr>clock = 10, reading = Some 8\<rparr> = (Inr (16, 4), \<lparr>clock = 11, reading = Some 8\<rparr>)"
    "cpu_Percent clock_meter \<lparr>clock = 11, reading = Some 8\<rparr> = (Inr [float64_of_nat 3], \<lparr>clock = 13, reading = Some 11\<rparr>)"
    by (simp_all add: clock_meter_def)
  note measured = this
  have "cpu_gauges [v] = [(''CPUutilization1'', v)]" for v :: float64
  proof -
    have "format_nat 1 = ''1''" by code_simp
    then show ?thesis by (simp add: cpu_gauges_def)
  qed
  with cpu_gauges_since_last [OF clock_meter_law measured(1) l measured(2,3)] l show ?thesis
    by (auto simp del: One_nat_def)
qed



end
