(* ===== verification/TestKeys.thy ===== *)
theory TestKeys
  imports Encryption
begin

text \<open>
  The key pairs of the tests (\<^verbatim>\<open>src/internal/encryption/testkeys/\<close>): \<open>testkeys_Generate\<close> makes an RSA pair and
  writes both halves as PEM files, the public key as PKIX and the private key as PKCS\#8. The making of
  the key, the marshalling and the PEM encoding of the standard library are parameters; the end of a
  test by \<^verbatim>\<open>t.Fatalf\<close> is the left value, with the text of the call that failed.

  The main fact: what is written, \<open>LoadPublicKey\<close> and \<open>LoadPrivateKey\<close> read back, so that a message for
  the public file is opened with the private file.
\<close>

record ('pub, 'priv) key_writer =
  GenerateKey :: "nat \<Rightarrow> goerr + 'priv"
  public_half :: "'priv \<Rightarrow> 'pub"
  MarshalPKIXPublicKey :: "'pub \<Rightarrow> goerr + bytes"
  MarshalPKCS8PrivateKey :: "'priv \<Rightarrow> goerr + bytes"
  pem_EncodeToMemory :: "string \<Rightarrow> bytes \<Rightarrow> bytes"

record ('pub, 'priv) key_pair =
  kp_PrivateKey :: 'priv
  kp_PublicKey :: 'pub
  kp_PrivateKeyPath :: string
  kp_PublicKeyPath :: string

text \<open>\<^verbatim>\<open>filepath.Join\<close> of a directory in its shortest form and a file name.\<close>

definition temp_file :: "string \<Rightarrow> string \<Rightarrow> string" where
  "temp_file dir name = dir @ ''/'' @ name"

definition writePublicKey ::
    "('pub, 'priv) key_writer \<Rightarrow> string \<Rightarrow> 'pub \<Rightarrow> filesystem \<Rightarrow> (string + unit) \<times> filesystem" where
  "writePublicKey kw p publicKey fs =
     (case MarshalPKIXPublicKey kw publicKey of
        Inl err \<Rightarrow> (Inl ''MarshalPKIXPublicKey'', fs)
      | Inr data \<Rightarrow>
          (case os_WriteFile p (pem_EncodeToMemory kw ''PUBLIC KEY'' data) fs of
             (Some err, fs') \<Rightarrow> (Inl ''WriteFile'', fs')
           | (None, fs') \<Rightarrow> (Inr (), fs')))"

definition writePrivateKey ::
    "('pub, 'priv) key_writer \<Rightarrow> string \<Rightarrow> 'priv \<Rightarrow> filesystem \<Rightarrow> (string + unit) \<times> filesystem" where
  "writePrivateKey kw p privateKey fs =
     (case MarshalPKCS8PrivateKey kw privateKey of
        Inl err \<Rightarrow> (Inl ''MarshalPKCS8PrivateKey'', fs)
      | Inr data \<Rightarrow>
          (case os_WriteFile p (pem_EncodeToMemory kw ''PRIVATE KEY'' data) fs of
             (Some err, fs') \<Rightarrow> (Inl ''WriteFile'', fs')
           | (None, fs') \<Rightarrow> (Inr (), fs')))"

definition testkeys_Generate ::
    "('pub, 'priv) key_writer \<Rightarrow> string \<Rightarrow> filesystem \<Rightarrow> (string + ('pub, 'priv) key_pair) \<times> filesystem" where
  "testkeys_Generate kw tempDir fs =
     (case GenerateKey kw 2048 of
        Inl err \<Rightarrow> (Inl ''GenerateKey'', fs)
      | Inr privateKey \<Rightarrow>
          let publicKeyPath = temp_file tempDir ''public.pem'' in
          (case writePublicKey kw publicKeyPath (public_half kw privateKey) fs of
             (Inl failed, fs1) \<Rightarrow> (Inl failed, fs1)
           | (Inr _, fs1) \<Rightarrow>
               let privateKeyPath = temp_file tempDir ''private.pem'' in
               (case writePrivateKey kw privateKeyPath privateKey fs1 of
                  (Inl failed, fs2) \<Rightarrow> (Inl failed, fs2)
                | (Inr _, fs2) \<Rightarrow>
                    (Inr \<lparr>kp_PrivateKey = privateKey, kp_PublicKey = public_half kw privateKey,
                          kp_PrivateKeyPath = privateKeyPath, kp_PublicKeyPath = publicKeyPath\<rparr>, fs2))))"

subsection \<open>The files can be loaded\<close>

text \<open>What the standard library promises: PEM and both encodings can be read back.\<close>

definition key_formats_match :: "('pub, 'priv) key_writer \<Rightarrow> ('pub, 'priv) x509 \<Rightarrow> bool" where
  "key_formats_match kw x \<longleftrightarrow>
     (\<forall>label data. pem_Decode x (pem_EncodeToMemory kw label data) = Some data) \<and>
     (\<forall>k data. MarshalPKIXPublicKey kw k = Inr data \<longrightarrow> ParsePKIXPublicKey x data = Inr (Some k)) \<and>
     (\<forall>k data. MarshalPKCS8PrivateKey kw k = Inr data \<longrightarrow> ParsePKCS8PrivateKey x data = Inr (Some k))"

lemma temp_file_distinct: "temp_file d ''public.pem'' \<noteq> temp_file d ''private.pem''"
  by (simp add: temp_file_def)

lemma os_WriteFile_reads:
  assumes "os_WriteFile p data fs = (None, fs')" and "read_faults fs p = None"
  shows "os_ReadFile p fs' = Inr data" and "read_faults fs' = read_faults fs"
    and "files fs' = (files fs)(p \<mapsto> data)" and "write_faults fs' = write_faults fs"
  using assms by (auto simp: os_WriteFile_def os_ReadFile_def split: option.splits write_fault.splits)

lemma Generate_files:
  assumes "testkeys_Generate kw dir fs = (Inr pair, fs')"
  obtains k pubData privData fs1 where "GenerateKey kw 2048 = Inr k"
    "MarshalPKIXPublicKey kw (public_half kw k) = Inr pubData" "MarshalPKCS8PrivateKey kw k = Inr privData"
    "os_WriteFile (temp_file dir ''public.pem'') (pem_EncodeToMemory kw ''PUBLIC KEY'' pubData) fs = (None, fs1)"
    "os_WriteFile (temp_file dir ''private.pem'') (pem_EncodeToMemory kw ''PRIVATE KEY'' privData) fs1 = (None, fs')"
    "pair = \<lparr>kp_PrivateKey = k, kp_PublicKey = public_half kw k,
       kp_PrivateKeyPath = temp_file dir ''private.pem'', kp_PublicKeyPath = temp_file dir ''public.pem''\<rparr>"
  using assms
  by (auto simp: testkeys_Generate_def writePublicKey_def writePrivateKey_def Let_def
      split: sum.splits prod.splits option.splits)

text \<open>
  The generated files load as the generated pair, no other file changes, and what is encrypted for the
  loaded public key is decrypted with the loaded private key.
\<close>

theorem generated_keys_load:
  assumes fmt: "key_formats_match kw x" and gen: "testkeys_Generate kw dir fs = (Inr pair, fs')"
    and readable: "read_faults fs = Map.empty"
    and gcm: "gcm_correct cr" and oaep: "\<And>k. oaep_correct cr (public_half kw k) k" and "length nonce = gcm_NonceSize"
  shows "LoadPublicKey x (kp_PublicKeyPath pair) fs' = Inr (kp_PublicKey pair) \<and>
    LoadPrivateKey x (kp_PrivateKeyPath pair) fs' = Inr (kp_PrivateKey pair) \<and>
    (\<forall>p. p \<noteq> kp_PublicKeyPath pair \<and> p \<noteq> kp_PrivateKeyPath pair \<longrightarrow> files fs' p = files fs p) \<and>
    (\<forall>rk data body. Encrypt cr rk (Inr nonce) data (Some (kp_PublicKey pair)) = Inr body \<longrightarrow>
       Decrypt cr body (Some (kp_PrivateKey pair)) = Inr data)"
proof -
  obtain k d1 d2 fs1 where f: "MarshalPKIXPublicKey kw (public_half kw k) = Inr d1" "MarshalPKCS8PrivateKey kw k = Inr d2"
    "os_WriteFile (temp_file dir ''public.pem'') (pem_EncodeToMemory kw ''PUBLIC KEY'' d1) fs = (None, fs1)"
    "os_WriteFile (temp_file dir ''private.pem'') (pem_EncodeToMemory kw ''PRIVATE KEY'' d2) fs1 = (None, fs')"
    "pair = \<lparr>kp_PrivateKey = k, kp_PublicKey = public_half kw k,
       kp_PrivateKeyPath = temp_file dir ''private.pem'', kp_PublicKeyPath = temp_file dir ''public.pem''\<rparr>"
    by (rule Generate_files [OF gen])
  note w1 = os_WriteFile_reads [OF f(3)] and w2 = os_WriteFile_reads [OF f(4)]
  have "read_faults fs' = Map.empty"
    "files fs' = (files fs)(temp_file dir ''public.pem'' \<mapsto> pem_EncodeToMemory kw ''PUBLIC KEY'' d1,
       temp_file dir ''private.pem'' \<mapsto> pem_EncodeToMemory kw ''PRIVATE KEY'' d2)"
    using w1 w2 readable by simp_all
  then have r: "os_ReadFile (kp_PublicKeyPath pair) fs' = Inr (pem_EncodeToMemory kw ''PUBLIC KEY'' d1)"
    "os_ReadFile (kp_PrivateKeyPath pair) fs' = Inr (pem_EncodeToMemory kw ''PRIVATE KEY'' d2)"
    "p \<noteq> kp_PublicKeyPath pair \<Longrightarrow> p \<noteq> kp_PrivateKeyPath pair \<Longrightarrow> files fs' p = files fs p" for p
    using temp_file_distinct [of dir] f(5) by (simp_all add: os_ReadFile_def)
  have "LoadPublicKey x (kp_PublicKeyPath pair) fs' = Inr (kp_PublicKey pair)"
    "LoadPrivateKey x (kp_PrivateKeyPath pair) fs' = Inr (kp_PrivateKey pair)"
    using r fmt f(1,2,5) by (simp_all add: LoadPublicKey_def LoadPrivateKey_def key_formats_match_def)
  moreover have "Encrypt cr rk (Inr nonce) data (Some (kp_PublicKey pair)) = Inr body \<Longrightarrow>
      Decrypt cr body (Some (kp_PrivateKey pair)) = Inr data" for rk data body
    using Decrypt_Encrypt [OF gcm oaep refl assms(6)] f(5) by simp
  ultimately show ?thesis using r(3) by blast
qed

definition demo_key_writer :: "(unit, unit) key_writer" where
  "demo_key_writer =
     \<lparr>GenerateKey = (\<lambda>_. Inr ()), public_half = (\<lambda>_. ()), MarshalPKIXPublicKey = (\<lambda>_. Inr ''pub''),
      MarshalPKCS8PrivateKey = (\<lambda>_. Inr ''priv''), pem_EncodeToMemory = (\<lambda>label data. ''-----'' @ data)\<rparr>"

definition demo_x509_reader :: "(unit, unit) x509" where
  "demo_x509_reader =
     \<lparr>pem_Decode = (\<lambda>s. Some (drop 5 s)), ParsePKIXPublicKey = (\<lambda>_. Inr (Some ())), ParsePKCS1PublicKey = (\<lambda>_. Inr ()),
      ParsePKCS8PrivateKey = (\<lambda>_. Inr (Some ())), ParsePKCS1PrivateKey = (\<lambda>_. Inr ())\<rparr>"

theorem generated_keys_load_witness:
  "\<exists>pair fs'. testkeys_Generate demo_key_writer ''/tmp/t1'' empty_fs = (Inr pair, fs') \<and>
     LoadPublicKey demo_x509_reader ''/tmp/t1/public.pem'' fs' = Inr () \<and>
     LoadPrivateKey demo_x509_reader ''/tmp/t1/private.pem'' fs' = Inr ()"
proof -
  have m: "key_formats_match demo_key_writer demo_x509_reader"
    by (simp add: key_formats_match_def demo_key_writer_def demo_x509_reader_def)
  let ?pair = "\<lparr>kp_PrivateKey = (), kp_PublicKey = (), kp_PrivateKeyPath = ''/tmp/t1/private.pem'',
    kp_PublicKeyPath = ''/tmp/t1/public.pem''\<rparr>"
  obtain fs' where g: "testkeys_Generate demo_key_writer ''/tmp/t1'' empty_fs = (Inr ?pair, fs')"
    by (simp add: testkeys_Generate_def writePublicKey_def writePrivateKey_def demo_key_writer_def Let_def
        os_WriteFile_def empty_fs_def temp_file_def)
  have "length (replicate 12 (CHR ''n'')) = gcm_NonceSize" by (simp add: gcm_NonceSize_def)
  from generated_keys_load [OF m g _ demo_crypto_correct(1) _ this] g demo_crypto_correct(2)
  show ?thesis by (auto simp: empty_fs_def)
qed

end
