(* ===== verification/ProtoStubs.thy ===== *)
theory ProtoStubs
  imports GrpcServer AgentTransport
begin

text \<open>
  The generated code between the transports and gRPC (\<^verbatim>\<open>src/internal/proto/\<close>): the accessors of the
  messages, which are safe on nil pointers, the setters, which are not, the builders, the client stub and the dispatch
  of the service. The gRPC library itself is a parameter: what it promises is that a call of
  \<^verbatim>\<open>/service/method\<close> runs the handler registered for it and that the first interceptor of a chain is the
  outermost (\<open>serve_method\<close>, \<open>chain_interceptors\<close>). Reflection and descriptors are not modelled.

  The main facts: conversion reads messages only through accessors, a built message reads back as
  built, and a call of the client stub runs exactly the handler that \<open>newGRPCServer\<close> assembles.
\<close>

subsection \<open>Messages\<close>

definition Metric_GetId :: "pb_Metric option \<Rightarrow> string" where
  "Metric_GetId x = (case x of Some m \<Rightarrow> pb_Id m | None \<Rightarrow> [])"

definition Metric_GetType :: "pb_Metric option \<Rightarrow> int" where
  "Metric_GetType x = (case x of Some m \<Rightarrow> pb_Type m | None \<Rightarrow> Metric_GAUGE)"

definition Metric_GetDelta :: "pb_Metric option \<Rightarrow> int64" where
  "Metric_GetDelta x = (case x of Some m \<Rightarrow> pb_Delta m | None \<Rightarrow> 0)"

definition Metric_GetValue :: "pb_Metric option \<Rightarrow> float64" where
  "Metric_GetValue x = (case x of Some m \<Rightarrow> pb_Value m | None \<Rightarrow> float64_of_nat 0)"

text \<open>A setter of a nil message panics.\<close>

definition set_field :: "(pb_Metric \<Rightarrow> pb_Metric) \<Rightarrow> pb_Metric option \<Rightarrow> pb_Metric option outcome" where
  "set_field upd x = (case x of None \<Rightarrow> Panic nil_pointer | Some m \<Rightarrow> Return (Some (upd m)))"

definition Metric_SetId :: "string \<Rightarrow> pb_Metric option \<Rightarrow> pb_Metric option outcome" where
  "Metric_SetId v = set_field (pb_Id_update (\<lambda>_. v))"

definition Metric_SetType :: "int \<Rightarrow> pb_Metric option \<Rightarrow> pb_Metric option outcome" where
  "Metric_SetType v = set_field (pb_Type_update (\<lambda>_. v))"

definition Metric_SetDelta :: "int64 \<Rightarrow> pb_Metric option \<Rightarrow> pb_Metric option outcome" where
  "Metric_SetDelta v = set_field (pb_Delta_update (\<lambda>_. v))"

definition Metric_SetValue :: "float64 \<Rightarrow> pb_Metric option \<Rightarrow> pb_Metric option outcome" where
  "Metric_SetValue v = set_field (pb_Value_update (\<lambda>_. v))"

text \<open>The builder, a literal with the fields that are not given at their zero values.\<close>

record Metric_builder =
  mb_Id :: string
  mb_Type :: int
  mb_Delta :: int64
  mb_Value :: float64

definition zero_Metric :: pb_Metric where
  "zero_Metric = \<lparr>pb_Id = [], pb_Type = 0, pb_Delta = 0, pb_Value = float64_of_nat 0\<rparr>"

definition zero_Metric_builder :: Metric_builder where
  "zero_Metric_builder = \<lparr>mb_Id = [], mb_Type = 0, mb_Delta = 0, mb_Value = float64_of_nat 0\<rparr>"

definition Metric_Build :: "Metric_builder \<Rightarrow> pb_Metric" where
  "Metric_Build b = zero_Metric\<lparr>pb_Id := mb_Id b, pb_Type := mb_Type b, pb_Delta := mb_Delta b, pb_Value := mb_Value b\<rparr>"

text \<open>A request keeps a pointer to its list.\<close>

record pb_Request =
  hidden_Metrics :: "UpdateMetricsRequest option"

definition Request_GetMetrics :: "pb_Request option \<Rightarrow> UpdateMetricsRequest" where
  "Request_GetMetrics x =
     (case x of
        Some r \<Rightarrow> (case hidden_Metrics r of Some ms \<Rightarrow> ms | None \<Rightarrow> [])
      | None \<Rightarrow> [])"

definition Request_SetMetrics :: "UpdateMetricsRequest \<Rightarrow> pb_Request option \<Rightarrow> pb_Request option outcome" where
  "Request_SetMetrics v x =
     (case x of None \<Rightarrow> Panic nil_pointer | Some r \<Rightarrow> Return (Some (r\<lparr>hidden_Metrics := Some v\<rparr>)))"

definition Request_Build :: "UpdateMetricsRequest \<Rightarrow> pb_Request" where
  "Request_Build ms = \<lparr>hidden_Metrics = Some ms\<rparr>"

text \<open>
  The conversions as the code writes them, over accessors and builders; they are the conversions of
  the two transports.
\<close>

lemma metricFromProto_accessors:
  "metricFromProto p =
     (if p = None then Inl (ErrorNew ''metric is nil'')
      else if Metric_GetId p = [] then Inl (ErrorNew ''metric id is empty'')
      else if Metric_GetType p = Metric_GAUGE then Inr (gauge_metric (Metric_GetId p) (Metric_GetValue p))
      else if Metric_GetType p = Metric_COUNTER then Inr (counter_metric (Metric_GetId p) (Metric_GetDelta p))
      else Inl (Errorf ''unknown metric type: %d'' [FInt (Metric_GetType p)]))"
  by (auto simp: metricFromProto_def Metric_GetId_def Metric_GetType_def Metric_GetValue_def Metric_GetDelta_def
      split: option.split)

lemma metricsFromProto_accessors:
  "metricsFromProto (map_option (\<lambda>r. Request_GetMetrics (Some r)) rq) =
     (if rq = None then Inl (ErrorNew ''request is nil'') else fromProto_loop 0 (Request_GetMetrics rq))"
  by (simp add: metricsFromProto_def split: option.split)

lemma metricToProto_builder:
  "metricToProto (gauge_metric n v) =
     (if n = [] then Inl (Errorf ''metric ID must not be empty'' [])
      else Inr (Metric_Build (zero_Metric_builder\<lparr>mb_Id := n, mb_Type := Metric_GAUGE, mb_Value := v\<rparr>)))"
  "metricToProto (counter_metric n d) =
     (if n = [] then Inl (Errorf ''metric ID must not be empty'' [])
      else Inr (Metric_Build (zero_Metric_builder\<lparr>mb_Id := n, mb_Type := Metric_COUNTER, mb_Delta := d\<rparr>)))"
  by (simp_all add: metricToProto_def Metric_Build_def zero_Metric_builder_def zero_Metric_def Gauge_def Counter_def)

lemma build_reads_back:
  "Metric_GetId (Some (Metric_Build b)) = mb_Id b" "Metric_GetType (Some (Metric_Build b)) = mb_Type b"
  "Metric_GetDelta (Some (Metric_Build b)) = mb_Delta b" "Metric_GetValue (Some (Metric_Build b)) = mb_Value b"
  "Request_GetMetrics (Some (Request_Build ms)) = ms"
  by (simp_all add: Metric_GetId_def Metric_GetType_def Metric_GetDelta_def Metric_GetValue_def Metric_Build_def
      Request_GetMetrics_def Request_Build_def)

subsection \<open>The client stub\<close>

definition Metrics_UpdateMetrics_FullMethodName :: string where
  "Metrics_UpdateMetrics_FullMethodName = ''/metrics.Metrics/UpdateMetrics''"

text \<open>A connection invokes a method by its name; the response message has no fields.\<close>

type_synonym 'n ClientConn = "string \<Rightarrow> MD \<Rightarrow> UpdateMetricsRequest \<Rightarrow> 'n \<Rightarrow> goerr option \<times> 'n"

definition metricsClient_UpdateMetrics :: "'n ClientConn \<Rightarrow> MD \<Rightarrow> UpdateMetricsRequest \<Rightarrow> 'n \<Rightarrow> (goerr + unit) \<times> 'n" where
  "metricsClient_UpdateMetrics cc md rq n =
     (case cc Metrics_UpdateMetrics_FullMethodName md rq n of
        (Some err, n') \<Rightarrow> (Inl err, n')
      | (None, n') \<Rightarrow> (Inr (), n'))"

subsection \<open>The dispatch of the service\<close>

type_synonym 'w interceptor = "string \<Rightarrow> 'w unary \<Rightarrow> 'w unary"

definition Unimplemented_UpdateMetrics :: "'w unary" where
  "Unimplemented_UpdateMetrics ctx rq w =
     (Return (Some (StatusError Unimplemented ''method UpdateMetrics not implemented'')), w)"

text \<open>The argument \<open>dec\<close> is the outcome of decoding the request.\<close>

definition Metrics_UpdateMetrics_Handler ::
    "'w unary \<Rightarrow> grpc_ctx \<Rightarrow> goerr + UpdateMetricsRequest \<Rightarrow> 'w interceptor option \<Rightarrow> 'w \<Rightarrow> goerr option outcome \<times> 'w" where
  "Metrics_UpdateMetrics_Handler srv ctx dec interceptor w =
     (case dec of
        Inl err \<Rightarrow> (Return (Some err), w)
      | Inr rq \<Rightarrow>
          (case interceptor of
             None \<Rightarrow> srv ctx (Some rq) w
           | Some i \<Rightarrow> i Metrics_UpdateMetrics_FullMethodName (\<lambda>ctx req. srv ctx req) ctx (Some rq) w))"

record 'w service_desc =
  ServiceName :: string
  Methods :: "(string \<times> ('w unary \<Rightarrow> grpc_ctx \<Rightarrow> goerr + UpdateMetricsRequest \<Rightarrow> 'w interceptor option \<Rightarrow> 'w \<Rightarrow>
    goerr option outcome \<times> 'w)) list"

definition Metrics_ServiceDesc :: "'w service_desc" where
  "Metrics_ServiceDesc =
     \<lparr>ServiceName = ''metrics.Metrics'', Methods = [(''UpdateMetrics'', Metrics_UpdateMetrics_Handler)]\<rparr>"

text \<open>The services of a server, each with its implementation.\<close>

type_synonym 'w registry = "('w service_desc \<times> 'w unary) list"

definition RegisterMetricsServer :: "'w registry \<Rightarrow> 'w unary \<Rightarrow> 'w registry" where
  "RegisterMetricsServer reg srv = reg @ [(Metrics_ServiceDesc, srv)]"

text \<open>What gRPC documents: chaining, and serving of a method by its full name.\<close>

definition chain_interceptors :: "'w interceptor list \<Rightarrow> 'w interceptor option" where
  "chain_interceptors is = (if is = [] then None else Some (\<lambda>full h. foldr (\<lambda>i. i full) is h))"

definition method_name :: "string \<Rightarrow> string \<Rightarrow> string" where
  "method_name srvName m = ''/'' @ srvName @ ''/'' @ m"

definition find_method :: "'w registry \<Rightarrow> string \<Rightarrow>
    (grpc_ctx \<Rightarrow> goerr + UpdateMetricsRequest \<Rightarrow> 'w interceptor option \<Rightarrow> 'w \<Rightarrow> goerr option outcome \<times> 'w) option" where
  "find_method reg full =
     map_of (concat (map (\<lambda>(d, srv). map (\<lambda>(m, h). (method_name (ServiceName d) m, h srv)) (Methods d)) reg)) full"

definition serve_method ::
    "'w registry \<Rightarrow> 'w interceptor list \<Rightarrow> string \<Rightarrow> grpc_ctx \<Rightarrow> goerr + UpdateMetricsRequest \<Rightarrow> 'w \<Rightarrow> goerr option outcome \<times> 'w" where
  "serve_method reg is full ctx dec w =
     (case find_method reg full of
        None \<Rightarrow> (Return (Some (StatusError Unimplemented ''unknown method'')), w)
      | Some h \<Rightarrow> h ctx dec (chain_interceptors is) w)"

text \<open>The registration and the interceptors of \<^verbatim>\<open>newGRPCServer\<close>, as lists.\<close>

definition server_interceptors :: "'w logger \<Rightarrow> IPNet option \<Rightarrow> 'w interceptor list" where
  "server_interceptors l trustedSubnet =
     (\<lambda>_. LoggingInterceptor l) # (case trustedSubnet of None \<Rightarrow> [] | Some n \<Rightarrow> [\<lambda>_. TrustedSubnetInterceptor n])"

definition server_transport :: "'w MetricsStorage \<Rightarrow> 'w Auditor option \<Rightarrow> 'w logger \<Rightarrow> 'w GrpcServer" where
  "server_transport svc aud l =
     (case aud of None \<Rightarrow> GrpcServer_New svc l | Some a \<Rightarrow> GrpcServer_EnableAudit (GrpcServer_New svc l) a)"

subsection \<open>The stub reaches the handler\<close>

lemma full_method_name: "Metrics_UpdateMetrics_FullMethodName = method_name ''metrics.Metrics'' ''UpdateMetrics''"
  by (simp add: Metrics_UpdateMetrics_FullMethodName_def method_name_def)

lemma find_registered:
  "find_method (RegisterMetricsServer [] srv) full =
     (if full = Metrics_UpdateMetrics_FullMethodName then Some (Metrics_UpdateMetrics_Handler srv) else None)"
  by (simp add: find_method_def RegisterMetricsServer_def Metrics_ServiceDesc_def full_method_name)

lemma newGRPCServer_chain:
  assumes "newGRPCServer tls svc aud trustedSubnet cert key l = Inr g"
  shows "gs_handler g = foldr (\<lambda>i. i full) (server_interceptors l trustedSubnet) (GrpcServer_UpdateMetrics (server_transport svc aud l))"
  using assms
  by (cases trustedSubnet; cases aud)
    (auto simp: newGRPCServer_def server_interceptors_def server_transport_def Let_def split: if_splits sum.splits)

text \<open>
  A call of the client stub, over a connection that gRPC serves with what \<open>newGRPCServer\<close> registered and
  chained, runs exactly the assembled handler on the request; any other method is answered
  \<^verbatim>\<open>Unimplemented\<close>, and a request that cannot be decoded is refused before any interceptor, both
  without an effect.
\<close>

theorem stub_reaches_handler:
  assumes "newGRPCServer tls svc aud trustedSubnet cert key l = Inr g"
  defines "served \<equiv> serve_method (RegisterMetricsServer [] (GrpcServer_UpdateMetrics (server_transport svc aud l)))
    (server_interceptors l trustedSubnet)"
  shows "(\<forall>ctx rq w. served Metrics_UpdateMetrics_FullMethodName ctx (Inr rq) w = gs_handler g ctx (Some rq) w) \<and>
    (\<forall>ctx err w. served Metrics_UpdateMetrics_FullMethodName ctx (Inl err) w = (Return (Some err), w)) \<and>
    (\<forall>full ctx dec w. full \<noteq> Metrics_UpdateMetrics_FullMethodName \<longrightarrow>
       (\<exists>text. served full ctx dec w = (Return (Some (StatusError Unimplemented text)), w)))"
  by (simp add: served_def serve_method_def find_registered Metrics_UpdateMetrics_Handler_def chain_interceptors_def
      newGRPCServer_chain [OF assms(1), where full = Metrics_UpdateMetrics_FullMethodName] server_interceptors_def)

text \<open>
  The stub and the transport seen from the agent: the call of the stub gives the error of the served
  call, if the connection hands it over as it is.
\<close>

definition serving_conn ::
    "('n \<Rightarrow> MD \<Rightarrow> grpc_ctx) \<Rightarrow> 'n registry \<Rightarrow> 'n interceptor list \<Rightarrow> (string \<Rightarrow> goerr) \<Rightarrow> 'n ClientConn" where
  "serving_conn mk reg is lost full md rq n =
     (case serve_method reg is full (mk n md) (Inr rq) n of
        (Return err, n') \<Rightarrow> (err, n')
      | (Panic p, n') \<Rightarrow> (Some (lost p), n'))"

theorem client_call_served:
  assumes "newGRPCServer tls svc aud trustedSubnet cert key l = Inr g"
    and "gs_handler g (mk n md) (Some rq) n = (Return err, n')"
  shows "metricsClient_UpdateMetrics (serving_conn mk
      (RegisterMetricsServer [] (GrpcServer_UpdateMetrics (server_transport svc aud l))) (server_interceptors l trustedSubnet) lost) md rq n =
    ((case err of None \<Rightarrow> Inr () | Some e \<Rightarrow> Inl e), n')"
  using assms stub_reaches_handler [OF assms(1)]
  by (simp add: metricsClient_UpdateMetrics_def serving_conn_def split: option.split)

end
