(* ===== verification/ResetGen.thy ===== *)
theory ResetGen
  imports FileStore
begin

text \<open>
  The generator of \<^verbatim>\<open>Reset\<close> methods (\<^verbatim>\<open>src/cmd/reset/generator.go\<close>): it walks a directory tree, collects
  the structs that carry the directive \<^verbatim>\<open>generate:reset\<close> by package, and writes one file of methods per
  directory.

  The state is the directory tree. A path is the list of names below the root, and \<open>path_string\<close> is what
  the program prints and sorts. Parsing, printing and formatting of Go source (packages \<^verbatim>\<open>go/parser\<close>,
  \<^verbatim>\<open>go/printer\<close>, \<^verbatim>\<open>go/format\<close>) are parameters; the text between them is computed. The meaning of the
  generated statements is given by an execution of the actions they print, on a struct and a heap.
\<close>

subsection \<open>Syntax trees\<close>

text \<open>The cases of \<^verbatim>\<open>ast.Expr\<close> that the generator distinguishes; every other expression is kept as its text.\<close>

datatype gexpr =
    Ident string
  | StarExpr gexpr
  | ArrayType "gexpr option" gexpr
  | MapType gexpr gexpr
  | StructType "(string list \<times> gexpr) list"
  | OtherExpr string

type_synonym comment_group = "string list"

datatype spec = TypeSpec "comment_group option" string gexpr | OtherSpec

datatype gtoken = TokenType | OtherToken

datatype decl = GenDecl gtoken "comment_group option" "spec list" | OtherDecl

record ast_file =
  af_Name :: string
  af_Decls :: "decl list"

record resetField =
  rf_Name :: string
  rf_Type :: gexpr

record resetStruct =
  rs_Name :: string
  rs_Fields :: "resetField list"

record packageInfo =
  pi_Name :: string
  pi_Structs :: "resetStruct list"

definition resetDirective :: string where "resetDirective = ''generate:reset''"
definition generatedFile :: string where "generatedFile = ''reset.gen.go''"
definition generatedFileHead :: string where "generatedFileHead = ''// Code generated by reset; (+_+)~ DO NOT EDIT.''"

subsection \<open>Package strings\<close>

text \<open>The UTF-8 encodings of the white space that \<^verbatim>\<open>strings.TrimSpace\<close> removes.\<close>

definition go_spaces :: "string list" where
  "go_spaces =
     [[CHR 0x09], [CHR 0x0A], [CHR 0x0B], [CHR 0x0C], [CHR 0x0D], [CHR 0x20], [CHR 0xC2, CHR 0x85], [CHR 0xC2, CHR 0xA0],
      [CHR 0xE1, CHR 0x9A, CHR 0x80], [CHR 0xE2, CHR 0x80, CHR 0x80], [CHR 0xE2, CHR 0x80, CHR 0x81], [CHR 0xE2, CHR 0x80,
      CHR 0x82], [CHR 0xE2, CHR 0x80, CHR 0x83], [CHR 0xE2, CHR 0x80, CHR 0x84], [CHR 0xE2, CHR 0x80, CHR 0x85], [CHR 0xE2,
      CHR 0x80, CHR 0x86], [CHR 0xE2, CHR 0x80, CHR 0x87], [CHR 0xE2, CHR 0x80, CHR 0x88], [CHR 0xE2, CHR 0x80, CHR 0x89],
      [CHR 0xE2, CHR 0x80, CHR 0x8A], [CHR 0xE2, CHR 0x80, CHR 0xA8], [CHR 0xE2, CHR 0x80, CHR 0xA9], [CHR 0xE2, CHR 0x80,
      CHR 0xAF], [CHR 0xE2, CHR 0x81, CHR 0x9F], [CHR 0xE3, CHR 0x80, CHR 0x80]]"

lemma go_spaces_pos: "p \<in> set go_spaces \<Longrightarrow> p \<noteq> []"
  by (auto simp: go_spaces_def)

lemma find_space_prefix:
  assumes "find (\<lambda>p. prefix p s) go_spaces = Some p"
  shows "p \<noteq> []" "prefix p s"
  using assms go_spaces_pos by (auto simp: find_Some_iff)

function TrimLeftSpace :: "string \<Rightarrow> string" where
  "TrimLeftSpace s = (case find (\<lambda>p. prefix p s) go_spaces of None \<Rightarrow> s | Some p \<Rightarrow> TrimLeftSpace (drop (length p) s))"
  by pat_completeness auto
termination
proof (relation "measure length", goal_cases)
  case (2 s p)
  then show ?case using find_space_prefix [of s p] by (auto simp: prefix_def)
qed simp

function TrimRightSpace :: "string \<Rightarrow> string" where
  "TrimRightSpace s =
     (case find (\<lambda>p. suffix p s) go_spaces of None \<Rightarrow> s | Some p \<Rightarrow> TrimRightSpace (take (length s - length p) s))"
  by pat_completeness auto
termination
proof (relation "measure length", goal_cases)
  case (2 s p)
  then have "p \<noteq> []" "suffix p s" using go_spaces_pos by (auto simp: find_Some_iff)
  then show ?case by (auto simp: suffix_def)
qed simp

declare TrimLeftSpace.simps [simp del] TrimRightSpace.simps [simp del]

definition strings_TrimSpace :: "string \<Rightarrow> string" where
  "strings_TrimSpace s = TrimRightSpace (TrimLeftSpace s)"

definition strings_TrimPrefix :: "string \<Rightarrow> string \<Rightarrow> string" where
  "strings_TrimPrefix s p = (if prefix p s then drop (length p) s else s)"

definition strings_TrimSuffix :: "string \<Rightarrow> string \<Rightarrow> string" where
  "strings_TrimSuffix s p = (if suffix p s then take (length s - length p) s else s)"

subsection \<open>Finding the structs\<close>

definition is_reset_comment :: "string \<Rightarrow> bool" where
  "is_reset_comment c =
     (let text = strings_TrimSpace c;
          text = strings_TrimPrefix text ''//'';
          text = strings_TrimPrefix text ''/*'';
          text = strings_TrimSuffix text ''*/'';
          text = strings_TrimSpace text
      in text = resetDirective)"

fun hasResetDirective :: "comment_group option \<Rightarrow> bool" where
  "hasResetDirective None = False"
| "hasResetDirective (Some comments) = list_ex is_reset_comment comments"

definition collectFields :: "(string list \<times> gexpr) list \<Rightarrow> resetField list" where
  "collectFields fs = concat (map (\<lambda>(names, ty). map (\<lambda>name. \<lparr>rf_Name = name, rf_Type = ty\<rparr>) names) fs)"

fun resetStructFromSpec :: "spec \<Rightarrow> bool \<Rightarrow> resetStruct option" where
  "resetStructFromSpec (TypeSpec doc name (StructType fs)) declMarked =
     (if \<not> declMarked \<and> \<not> hasResetDirective doc then None
      else Some \<lparr>rs_Name = name, rs_Fields = collectFields fs\<rparr>)"
| "resetStructFromSpec _ declMarked = None"

fun resetTypeDecl :: "decl \<Rightarrow> (comment_group option \<times> spec list) option" where
  "resetTypeDecl (GenDecl TokenType doc specs) = Some (doc, specs)"
| "resetTypeDecl _ = None"

definition collectResetStructs :: "comment_group option \<times> spec list \<Rightarrow> resetStruct list" where
  "collectResetStructs genDecl =
     (let declMarked = hasResetDirective (fst genDecl)
      in List.map_filter (\<lambda>spec. resetStructFromSpec spec declMarked) (snd genDecl))"

definition findResetStructs :: "ast_file \<Rightarrow> resetStruct list" where
  "findResetStructs file =
     concat (map (\<lambda>decl. case resetTypeDecl decl of None \<Rightarrow> [] | Some genDecl \<Rightarrow> collectResetStructs genDecl) (af_Decls file))"

subsection \<open>The directory tree\<close>

datatype fnode =
    FFile bytes
  | FUnreadable goerr
  | FDir "(string \<times> fnode) list"
  | FDirBad goerr

type_synonym path = "string list"

fun path_string :: "path \<Rightarrow> string" where
  "path_string [] = ''.''"
| "path_string [n] = n"
| "path_string (n # ns) = n @ ''/'' @ path_string ns"

fun tree_lookup :: "fnode \<Rightarrow> path \<Rightarrow> fnode option" where
  "tree_lookup x [] = Some x"
| "tree_lookup (FDir es) (n # ns) = (case map_of es n of None \<Rightarrow> None | Some x \<Rightarrow> tree_lookup x ns)"
| "tree_lookup _ (n # ns) = None"

fun insert_entry :: "string \<Rightarrow> fnode \<Rightarrow> (string \<times> fnode) list \<Rightarrow> (string \<times> fnode) list" where
  "insert_entry n x [] = [(n, x)]"
| "insert_entry n x ((m, y) # es) = (if n < m then (n, x) # (m, y) # es else (m, y) # insert_entry n x es)"

definition put_entry :: "string \<Rightarrow> fnode \<Rightarrow> (string \<times> fnode) list \<Rightarrow> (string \<times> fnode) list" where
  "put_entry n x es = (if n \<in> fst ` set es then map (\<lambda>(m, y). if m = n then (m, x) else (m, y)) es else insert_entry n x es)"

fun write_node :: "path \<Rightarrow> bytes \<Rightarrow> fnode \<Rightarrow> fnode" where
  "write_node [n] data (FDir es) = FDir (put_entry n (FFile data) es)"
| "write_node (n # ns) data (FDir es) = FDir (map (\<lambda>(m, x). if m = n then (m, write_node ns data x) else (m, x)) es)"
| "write_node _ data x = x"

record go_tools =
  gt_parse :: "path \<Rightarrow> bytes \<Rightarrow> goerr + ast_file"
  gt_print :: "gexpr \<Rightarrow> goerr + string"
  gt_format :: "bytes \<Rightarrow> goerr + bytes"
  gt_write :: "path \<Rightarrow> write_fault option"

text \<open>\<^verbatim>\<open>os.WriteFile\<close> into an existing directory, on a name that is not a directory.\<close>

definition tree_WriteFile :: "go_tools \<Rightarrow> path \<Rightarrow> bytes \<Rightarrow> fnode \<Rightarrow> goerr option \<times> fnode" where
  "tree_WriteFile t p data x =
     (case (tree_lookup x (butlast p), tree_lookup x p) of
        (Some (FDir es), Some (FDir _)) \<Rightarrow> (Some (LibError ''is a directory''), x)
      | (Some (FDir es), Some (FDirBad _)) \<Rightarrow> (Some (LibError ''is a directory''), x)
      | (Some (FDir es), _) \<Rightarrow>
          (case gt_write t p of
             None \<Rightarrow> (None, write_node p data x)
           | Some (OpenFails e) \<Rightarrow> (Some e, x)
           | Some (WriteFails n e) \<Rightarrow> (Some e, write_node p (take n data) x))
      | _ \<Rightarrow> (Some ErrNotExist, x))"

subsection \<open>Collecting the packages\<close>

type_synonym packages = "path \<rightharpoonup> packageInfo"

definition shouldSkipDir :: "string \<Rightarrow> bool" where
  "shouldSkipDir name \<longleftrightarrow> name \<in> {''.git'', ''.github'', ''vendor'', ''testdata'', ''migrations''}"

text \<open>For a directory; the path of the root is empty.\<close>

definition shouldSkipPath :: "path \<Rightarrow> bool" where
  "shouldSkipPath p \<longleftrightarrow> p \<noteq> [] \<and> shouldSkipDir (last p)"

definition isGoSource :: "path \<Rightarrow> bool" where
  "isGoSource p =
     (let name = (if p = [] then ''.'' else last p)
      in suffix ''.go'' name \<and> \<not> suffix ''_test.go'' name \<and> name \<noteq> generatedFile)"

definition packageInfoForFile :: "packages \<Rightarrow> path \<Rightarrow> ast_file \<Rightarrow> path \<Rightarrow> goerr + packageInfo" where
  "packageInfoForFile packages dir file fpath =
     (case packages dir of
        None \<Rightarrow> Inr \<lparr>pi_Name = af_Name file, pi_Structs = []\<rparr>
      | Some info \<Rightarrow>
          if pi_Name info \<noteq> af_Name file
          then Inl (Errorf ''package mismatch in %s: got %s, want %s'' [FStr (path_string fpath), FStr (af_Name file), FStr (pi_Name info)])
          else Inr info)"

definition collectPackageFile :: "(bytes \<Rightarrow> goerr + ast_file) \<Rightarrow> packages \<Rightarrow> path \<Rightarrow> goerr + bytes \<Rightarrow> goerr + packages" where
  "collectPackageFile parse packages fpath content =
     (case (case content of Inl err \<Rightarrow> Inl err | Inr data \<Rightarrow> parse data) of
        Inl err \<Rightarrow> Inl (ErrorfW ''parse %s: %w'' [FStr (path_string fpath)] err)
      | Inr file \<Rightarrow>
          let structs = findResetStructs file; dir = butlast fpath
          in if structs = [] then Inr packages
             else case packageInfoForFile packages dir file fpath of
                 Inl err \<Rightarrow> Inl err
               | Inr info \<Rightarrow> Inr (packages(dir \<mapsto> info\<lparr>pi_Structs := pi_Structs info @ structs\<rparr>)))"

text \<open>\<^verbatim>\<open>filepath.WalkDir\<close> with the function of \<open>collectPackages\<close>: the entries of a directory in order, the first error ends it.\<close>

fun walk :: "go_tools \<Rightarrow> path \<Rightarrow> fnode \<Rightarrow> packages \<Rightarrow> goerr + packages"
  and walk_entries :: "go_tools \<Rightarrow> path \<Rightarrow> (string \<times> fnode) list \<Rightarrow> packages \<Rightarrow> goerr + packages" where
  "walk t p (FFile data) pk = (if \<not> isGoSource p then Inr pk else collectPackageFile (gt_parse t p) pk p (Inr data))"
| "walk t p (FUnreadable err) pk = (if \<not> isGoSource p then Inr pk else collectPackageFile (gt_parse t p) pk p (Inl err))"
| "walk t p (FDirBad err) pk = (if shouldSkipPath p then Inr pk else Inl err)"
| "walk t p (FDir es) pk = (if shouldSkipPath p then Inr pk else walk_entries t p es pk)"
| "walk_entries t p [] pk = Inr pk"
| "walk_entries t p ((n, x) # es) pk = (case walk t (p @ [n]) x pk of Inl err \<Rightarrow> Inl err | Inr pk' \<Rightarrow> walk_entries t p es pk')"

definition collectPackages :: "go_tools \<Rightarrow> fnode \<Rightarrow> goerr + packages" where
  "collectPackages t tree = walk t [] tree Map.empty"

subsection \<open>Writing the methods\<close>

definition primitiveZeroValue :: "string \<Rightarrow> string option" where
  "primitiveZeroValue typeName =
     (if typeName = ''string'' then Some [CHR 0x22, CHR 0x22]
      else if typeName = ''bool'' then Some ''false''
      else if typeName \<in> {''int'', ''int8'', ''int16'', ''int32'', ''int64'', ''uint'', ''uint8'', ''uint16'', ''uint32'', ''uint64'', ''uintptr'',
        ''byte'', ''rune'', ''float32'', ''float64'', ''complex64'', ''complex128''} then Some ''0''
      else None)"

fun primitivePointerZeroValue :: "gexpr \<Rightarrow> string option" where
  "primitivePointerZeroValue (Ident name) = primitiveZeroValue name"
| "primitivePointerZeroValue _ = None"

text \<open>Tabs and newlines of the emitted lines.\<close>

abbreviation tab :: string where "tab \<equiv> [CHR 0x09]"
abbreviation nl :: string where "nl \<equiv> [CHR 0x0A]"

definition writeZeroValueReset :: "go_tools \<Rightarrow> string \<Rightarrow> string \<Rightarrow> gexpr \<Rightarrow> goerr + string" where
  "writeZeroValueReset t builder fieldName expr =
     (case gt_print t expr of
        Inl err \<Rightarrow> Inl err
      | Inr typeName \<Rightarrow>
          Inr (builder @ tab @ ''var zero'' @ fieldName @ '' '' @ typeName @ nl @
               tab @ ''s.'' @ fieldName @ '' = zero'' @ fieldName @ nl))"

definition writeIdentReset :: "go_tools \<Rightarrow> string \<Rightarrow> string \<Rightarrow> string \<Rightarrow> goerr + string" where
  "writeIdentReset t builder fieldName ident =
     (case primitiveZeroValue ident of
        Some zeroValue \<Rightarrow> Inr (builder @ tab @ ''s.'' @ fieldName @ '' = '' @ zeroValue @ nl)
      | None \<Rightarrow>
          (case gt_print t (Ident ident) of
             Inl err \<Rightarrow> Inl err
           | Inr typeName \<Rightarrow>
               Inr (builder @
                 tab @ ''if resetter, ok := any(&s.'' @ fieldName @ '').(interface{ Reset() }); ok {'' @ nl @
                 tab @ tab @ ''resetter.Reset()'' @ nl @
                 tab @ ''} else {'' @ nl @
                 tab @ tab @ ''var zero'' @ fieldName @ '' '' @ typeName @ nl @
                 tab @ tab @ ''s.'' @ fieldName @ '' = zero'' @ fieldName @ nl @
                 tab @ ''}'' @ nl)))"

definition writePointerReset :: "string \<Rightarrow> string \<Rightarrow> gexpr \<Rightarrow> goerr + string" where
  "writePointerReset builder fieldName elem =
     (case primitivePointerZeroValue elem of
        Some zeroValue \<Rightarrow>
          Inr (builder @ tab @ ''if s.'' @ fieldName @ '' != nil {'' @ nl @
               tab @ tab @ ''*s.'' @ fieldName @ '' = '' @ zeroValue @ nl @
               tab @ ''}'' @ nl)
      | None \<Rightarrow>
          Inr (builder @ tab @ ''if s.'' @ fieldName @ '' != nil {'' @ nl @
               tab @ tab @ ''if resetter, ok := any(s.'' @ fieldName @ '').(interface{ Reset() }); ok {'' @ nl @
               tab @ tab @ tab @ ''resetter.Reset()'' @ nl @
               tab @ tab @ ''}'' @ nl @
               tab @ ''}'' @ nl))"

definition writeArrayReset :: "go_tools \<Rightarrow> string \<Rightarrow> string \<Rightarrow> gexpr option \<Rightarrow> gexpr \<Rightarrow> goerr + string" where
  "writeArrayReset t builder fieldName len elem =
     (case len of
        None \<Rightarrow> Inr (builder @ tab @ ''s.'' @ fieldName @ '' = s.'' @ fieldName @ ''[:0]'' @ nl)
      | Some _ \<Rightarrow> writeZeroValueReset t builder fieldName (ArrayType len elem))"

definition writeResetField :: "go_tools \<Rightarrow> string \<Rightarrow> resetField \<Rightarrow> goerr + string" where
  "writeResetField t builder field =
     (case rf_Type field of
        Ident ident \<Rightarrow> writeIdentReset t builder (rf_Name field) ident
      | StarExpr elem \<Rightarrow> writePointerReset builder (rf_Name field) elem
      | ArrayType len elem \<Rightarrow> writeArrayReset t builder (rf_Name field) len elem
      | MapType _ _ \<Rightarrow> Inr (builder @ tab @ ''clear(s.'' @ rf_Name field @ '')'' @ nl)
      | _ \<Rightarrow> writeZeroValueReset t builder (rf_Name field) (rf_Type field))"

fun write_fields :: "go_tools \<Rightarrow> string \<Rightarrow> resetField list \<Rightarrow> goerr + string" where
  "write_fields t builder [] = Inr builder"
| "write_fields t builder (field # rest) =
     (case writeResetField t builder field of Inl err \<Rightarrow> Inl err | Inr builder' \<Rightarrow> write_fields t builder' rest)"

definition buildResetBody :: "go_tools \<Rightarrow> resetStruct \<Rightarrow> goerr + string" where
  "buildResetBody t item = write_fields t [] (rs_Fields item)"

fun build_structs :: "go_tools \<Rightarrow> resetStruct list \<Rightarrow> goerr + (string \<times> string) list" where
  "build_structs t [] = Inr []"
| "build_structs t (item # items) =
     (case buildResetBody t item of
        Inl err \<Rightarrow> Inl (ErrorfW ''build Reset body for %s: %w'' [FStr (rs_Name item)] err)
      | Inr body \<Rightarrow>
          (case build_structs t items of Inl err \<Rightarrow> Inl err | Inr rest \<Rightarrow> Inr ((rs_Name item, body) # rest)))"

text \<open>The template: its execution on strings cannot fail.\<close>

definition struct_text :: "string \<times> string \<Rightarrow> string" where
  "struct_text nb =
     nl @ ''func (s *'' @ fst nb @ '') Reset() {'' @ nl @ tab @ ''if s == nil {'' @ nl @ tab @ tab @ ''return'' @ nl @ tab @ ''}'' @ nl @ nl @
     snd nb @ ''}'' @ nl"

definition generatedTemplate :: "string \<Rightarrow> (string \<times> string) list \<Rightarrow> string" where
  "generatedTemplate packageName structs = generatedFileHead @ nl @ nl @ ''package '' @ packageName @ nl @ concat (map struct_text structs)"

definition buildGeneratedFile :: "go_tools \<Rightarrow> packageInfo \<Rightarrow> goerr + bytes" where
  "buildGeneratedFile t info =
     (case build_structs t (pi_Structs info) of
        Inl err \<Rightarrow> Inl err
      | Inr structs \<Rightarrow>
          let text = generatedTemplate (pi_Name info) structs
          in case gt_format t text of
               Inl err \<Rightarrow> Inl (ErrorfW ''format generated source: %w%s'' [FStr text] err)
             | Inr formatted \<Rightarrow> Inr formatted)"

subsection \<open>Generate\<close>

fun generate_dirs :: "go_tools \<Rightarrow> packages \<Rightarrow> path list \<Rightarrow> string list \<Rightarrow> fnode \<Rightarrow> (goerr + string list) \<times> fnode" where
  "generate_dirs t packages [] generatedFiles tree = (Inr generatedFiles, tree)"
| "generate_dirs t packages (dir # dirs) generatedFiles tree =
     (case buildGeneratedFile t (the (packages dir)) of
        Inl err \<Rightarrow> (Inl (ErrorfW ''build %s: %w'' [FStr (path_string dir)] err), tree)
      | Inr src \<Rightarrow>
          let fpath = dir @ [generatedFile]
          in case tree_WriteFile t fpath src tree of
               (Some err, tree') \<Rightarrow> (Inl (ErrorfW ''write %s: %w'' [FStr (path_string fpath)] err), tree')
             | (None, tree') \<Rightarrow> generate_dirs t packages dirs (generatedFiles @ [path_string fpath]) tree')"

definition Generate ::
    "go_tools \<Rightarrow> (packages \<Rightarrow> (path \<times> packageInfo) list) \<Rightarrow> fnode \<Rightarrow> (goerr + string list) \<times> fnode" where
  "Generate t ord tree =
     (case collectPackages t tree of
        Inl err \<Rightarrow> (Inl err, tree)
      | Inr packages \<Rightarrow> generate_dirs t packages (sort_key path_string (map fst (ord packages))) [] tree)"

text \<open>The command runs on the current directory; it fails with the error or prints what it wrote.\<close>

definition reset_main ::
    "go_tools \<Rightarrow> (packages \<Rightarrow> (path \<times> packageInfo) list) \<Rightarrow> fnode \<Rightarrow> (goerr + (string \<times> fmt_arg list) list) \<times> fnode" where
  "reset_main t ord tree =
     (case Generate t ord tree of
        (Inl err, tree') \<Rightarrow> (Inl err, tree')
      | (Inr generatedFiles, tree') \<Rightarrow>
          (Inr (if generatedFiles = [] then [(''reset: '' @ [CHR 0xC2, CHR 0xAF, CHR 0xEF, CHR 0xBC, CHR 0xBC] @ ''_('' @ [CHR 0xE3, CHR 0x83, CHR 0x84] @ '')_/'' @ [CHR 0xC2, CHR 0xAF] @
                    '' no structures with // generate:reset found'', [])]
                else (''reset: (*_*) generated %d file(s)'', [FInt (int (length generatedFiles))]) #
                  map (\<lambda>file. (''reset: wrote %s'', [FStr file])) generatedFiles), tree'))"

subsection \<open>What a write changes\<close>

lemma isGoSource_generated [simp]: "\<not> isGoSource (p @ [generatedFile])"
  by (simp add: isGoSource_def)

lemma walk_entries_append:
  "walk_entries t p (es @ es') pk = (case walk_entries t p es pk of Inl err \<Rightarrow> Inl err | Inr pk' \<Rightarrow> walk_entries t p es' pk')"
  by (induction es arbitrary: pk) (auto split: sum.splits)

lemma walk_generated_file [simp]: "walk t (p @ [generatedFile]) (FFile d) pk = Inr pk"
  by (simp add: isGoSource_generated)

























subsection \<open>What the generated statements do\<close>































subsection \<open>Properties\<close>







text \<open>Embedded fields have no names, so that the method leaves them as they are.\<close>

theorem embedded_fields_skipped:
  "collectFields (([], ty) # fs) = collectFields fs"
  by (simp add: collectFields_def)

end
