(* ===== verification/ObjectPool.thy ===== *)
theory ObjectPool
  imports Prelude
begin






subsection \<open>Operations\<close>






subsection \<open>Invariant\<close>





subsection \<open>Properties\<close>



end
