(* ===== verification/Staticlint.thy ===== *)
theory Staticlint
  imports Prelude
begin

text \<open>
  The static checks of the repository (\<^verbatim>\<open>src/cmd/staticlint/\<close>): the analyzer \<^verbatim>\<open>noosexit\<close>, which forbids a
  direct \<^verbatim>\<open>os.Exit\<close> in \<^verbatim>\<open>main\<close>, and the list of analyzers of the driver. The analyzers of
  \<^verbatim>\<open>golang.org/x/tools\<close> and of Staticcheck are known by their packages only; type information (\<^verbatim>\<open>types.Info\<close>)
  is a parameter.
\<close>

subsection \<open>Syntax\<close>

text \<open>An identifier is one occurrence in the source, so that \<^verbatim>\<open>info.Uses\<close> is a function of its number.\<close>

datatype lexpr = LIdent nat string | LSelector lexpr string | LOther

datatype lnode = LCall nat lexpr "lnode list" | LNode "lnode list"

datatype ldecl = FuncDecl bool string "lnode option" | LOtherDecl

type_synonym lfile = "ldecl list"

datatype lobject = PkgName string | OtherObject

record lpass =
  pkg_Name :: string
  pkg_Path :: string
  pass_Files :: "lfile list"
  info_Uses :: "nat \<Rightarrow> lobject option"

subsection \<open>The analyzer\<close>

definition isUserMainPackage :: "lpass \<Rightarrow> bool" where
  "isUserMainPackage pass \<longleftrightarrow> pkg_Name pass = ''main'' \<and> \<not> suffix ''.test'' (pkg_Path pass)"

text \<open>The receiver of a declaration is not looked at.\<close>

fun mainFuncDecl :: "ldecl \<Rightarrow> lnode option" where
  "mainFuncDecl (FuncDecl recv name body) = (if name \<noteq> ''main'' then None else body)"
| "mainFuncDecl LOtherDecl = None"

fun isOSExitCall :: "(nat \<Rightarrow> lobject option) \<Rightarrow> lexpr \<Rightarrow> bool" where
  "isOSExitCall uses (LSelector (LIdent i n) sel) \<longleftrightarrow>
     sel = ''Exit'' \<and> (case uses i of Some (PkgName path) \<Rightarrow> path = ''os'' | _ \<Rightarrow> False)"
| "isOSExitCall uses _ \<longleftrightarrow> False"

text \<open>\<^verbatim>\<open>ast.Inspect\<close> visits a node before its children; what is reported are positions of calls.\<close>

fun reportOSExitCalls :: "(nat \<Rightarrow> lobject option) \<Rightarrow> lnode \<Rightarrow> nat list" where
  "reportOSExitCalls uses (LCall pos f children) =
     (if isOSExitCall uses f then [pos] else []) @ concat (map (reportOSExitCalls uses) children)"
| "reportOSExitCalls uses (LNode children) = concat (map (reportOSExitCalls uses) children)"

definition inspectFile :: "(nat \<Rightarrow> lobject option) \<Rightarrow> lfile \<Rightarrow> nat list" where
  "inspectFile uses file =
     concat (map (\<lambda>decl. case mainFuncDecl decl of None \<Rightarrow> [] | Some body \<Rightarrow> reportOSExitCalls uses body) file)"

definition noosexit_run :: "lpass \<Rightarrow> nat list" where
  "noosexit_run pass =
     (if \<not> isUserMainPackage pass then [] else concat (map (inspectFile (info_Uses pass)) (pass_Files pass)))"

subsection \<open>The driver\<close>

definition analyzers :: "string list \<Rightarrow> string list \<Rightarrow> string list" where
  "analyzers staticcheck simple =
     [''asmdecl'', ''assign'', ''atomic'', ''bools'', ''buildtag'', ''cgocall'', ''composite'', ''copylock'', ''defers'', ''directive'', ''errorsas'',
      ''framepointer'', ''httpresponse'', ''ifaceassert'', ''loopclosure'', ''lostcancel'', ''nilfunc'', ''printf'', ''shift'', ''sigchanyzer'', ''slog'',
      ''stdmethods'', ''stringintconv'', ''structtag'', ''testinggoroutine'', ''tests'', ''timeformat'', ''unmarshal'', ''unreachable'', ''unsafeptr'',
      ''unusedresult'', ''waitgroup'', ''bodyclose'', ''nilerr'', ''noosexit''] @ staticcheck @ simple"

subsection \<open>Properties\<close>

text \<open>The node itself and everything below it.\<close>

inductive subnode :: "lnode \<Rightarrow> lnode \<Rightarrow> bool" where
  subnode_refl: "subnode n n"
| subnode_call: "subnode n c \<Longrightarrow> c \<in> set cs \<Longrightarrow> subnode n (LCall pos f cs)"
| subnode_node: "subnode n c \<Longrightarrow> c \<in> set cs \<Longrightarrow> subnode n (LNode cs)"

inductive_simps subnode_call_simps: "subnode n (LCall pos f cs)"
inductive_simps subnode_node_simps: "subnode n (LNode cs)"

lemma report_subnodes:
  "pos \<in> set (reportOSExitCalls uses body) \<longleftrightarrow> (\<exists>f cs. subnode (LCall pos f cs) body \<and> isOSExitCall uses f)"
proof (induction body)
  case (LCall p f cs)
  then show ?case by (auto simp: subnode_call_simps)
next
  case (LNode cs)
  then show ?case by (auto simp: subnode_node_simps)
qed

text \<open>
  The analyzer reports a position exactly if the package is a user's \<^verbatim>\<open>main\<close> package and the position is
  that of a call of \<^verbatim>\<open>os.Exit\<close>, under whatever name \<^verbatim>\<open>os\<close> is imported, anywhere below the body of a
  declaration named \<^verbatim>\<open>main\<close>, function literals included. Since the receiver does not matter, a method
  named \<^verbatim>\<open>main\<close> is checked as well.
\<close>

theorem noosexit_exact:
  "pos \<in> set (noosexit_run pass) \<longleftrightarrow>
     pkg_Name pass = ''main'' \<and> \<not> suffix ''.test'' (pkg_Path pass) \<and>
     (\<exists>file \<in> set (pass_Files pass). \<exists>recv body i n cs. FuncDecl recv ''main'' (Some body) \<in> set file \<and>
        subnode (LCall pos (LSelector (LIdent i n) ''Exit'') cs) body \<and> info_Uses pass i = Some (PkgName ''os''))"
proof -
  have e: "isOSExitCall uses f \<longleftrightarrow> (\<exists>i n. f = LSelector (LIdent i n) ''Exit'' \<and> uses i = Some (PkgName ''os''))" for uses f
    by (cases "(uses, f)" rule: isOSExitCall.cases) (auto split: option.splits lobject.splits)
  have d: "mainFuncDecl decl = Some body \<longleftrightarrow> (\<exists>recv. decl = FuncDecl recv ''main'' (Some body))" for decl body
    by (cases decl) auto
  have f: "pos \<in> set (inspectFile uses ds) \<longleftrightarrow> (\<exists>recv body. FuncDecl recv ''main'' (Some body) \<in> set ds \<and> pos \<in> set (reportOSExitCalls uses body))"
    for uses ds
    by (auto simp: inspectFile_def d split: option.splits) (metis d option.distinct(1) option.inject)+
  show ?thesis unfolding noosexit_run_def isUserMainPackage_def by (simp add: f report_subnodes e) blast
qed

text \<open>The driver runs the project's own analyzer besides the given ones, each standard one once.\<close>

theorem analyzers_complete:
  "''noosexit'' \<in> set (analyzers sc si) \<and> set sc \<union> set si \<subseteq> set (analyzers sc si) \<and> distinct (analyzers [] [])"
  by (auto simp: analyzers_def)

end
