(* ===== verification/Spec2Isabelle.thy ===== *)
theory Spec2Isabelle
  imports Commands SystemPoll TestKeys ProtoStubs ResetGen ObjectPool Staticlint
begin

text \<open>
  Verification of the metrics collector \<^verbatim>\<open>go-metrics-and-alerts\<close>: an agent that samples runtime and
  system gauges and reports them, and a server that stores metrics in memory (with a file) or in
  PostgreSQL and serves them over HTTP and gRPC.

  \<^bold>\<open>The program and the theories.\<close> Each theory models one part and opens with its own description; paths
  are under \<^verbatim>\<open>src/internal/\<close> unless they start with \<^verbatim>\<open>cmd\<close> or \<^verbatim>\<open>pkg\<close>.

  \<^item> Foundations: \<^verbatim>\<open>Prelude\<close> (Go errors with \<^verbatim>\<open>errors.Is\<close>/\<^verbatim>\<open>As\<close>, panics, maps and their iteration order,
    shared lemmas), \<^verbatim>\<open>Strconv\<close> and \<^verbatim>\<open>Float64\<close> (numbers as text, and IEEE doubles as the code parses and
    prints them), \<^verbatim>\<open>Json\<close> (printer and parser of \<^verbatim>\<open>encoding/json\<close>), \<^verbatim>\<open>NetIP\<close> (addresses and subnets),
    \<^verbatim>\<open>Hash\<close> (SHA-256 computed from its definition, \<^verbatim>\<open>hash/hash.go\<close>), \<^verbatim>\<open>HttpCore\<close> (requests, headers,
    response writers), \<^verbatim>\<open>Retry\<close> (the retry loop), \<^verbatim>\<open>Proto\<close> (messages, status codes, metadata).
  \<^item> Metrics and storage: \<^verbatim>\<open>MetricsModel\<close> (\<^verbatim>\<open>model/metrics.go\<close>), \<^verbatim>\<open>Storage\<close> (the interface
    \<^verbatim>\<open>MetricsStorage\<close> and its contract as locales \<open>metrics_storage\<close> and \<open>reliable_storage\<close> over the abstract
    state \<open>metrics_view\<close>), \<^verbatim>\<open>MemStorage\<close>, \<^verbatim>\<open>FileStore\<close> and \<^verbatim>\<open>PostgresStorage\<close> (\<^verbatim>\<open>repository/\<close>), \<^verbatim>\<open>MetricsService\<close>
    (\<^verbatim>\<open>server/service/metrics.go\<close>).
  \<^item> Server: \<^verbatim>\<open>AuditTrail\<close> (\<^verbatim>\<open>server/audit/\<close>), \<^verbatim>\<open>HttpHandler\<close>, \<^verbatim>\<open>Middleware\<close> (\<^verbatim>\<open>server/transport/http/\<close>, router
    included), \<^verbatim>\<open>Encryption\<close> and \<^verbatim>\<open>TestKeys\<close> (\<^verbatim>\<open>encryption/\<close>), \<^verbatim>\<open>GrpcServer\<close> (\<^verbatim>\<open>server/transport/grpc/\<close>,
    \<^verbatim>\<open>server/grpc.go\<close>), \<^verbatim>\<open>ProtoStubs\<close> (\<^verbatim>\<open>proto/\<close>: the generated accessors, client stub and dispatch),
    \<^verbatim>\<open>ServerConfig\<close> (\<^verbatim>\<open>server/config/\<close>), \<^verbatim>\<open>ServerLifecycle\<close> (\<^verbatim>\<open>server/server.go\<close>, \<^verbatim>\<open>persistence.go\<close>, \<^verbatim>\<open>database.go\<close>,
    \<^verbatim>\<open>security.go\<close>: start with deferred clean-up, run, close, as accounts of what is open).
  \<^item> Agent: \<^verbatim>\<open>AgentService\<close> (\<^verbatim>\<open>agent/service/\<close>), \<^verbatim>\<open>AgentRuntime\<close> (\<^verbatim>\<open>agent/agent.go\<close>, all interleavings of its
    goroutines as a step relation), \<^verbatim>\<open>SystemPoll\<close> (the poll loops with their calls of gopsutil),
    \<^verbatim>\<open>AgentTransport\<close> (\<^verbatim>\<open>agent/transport/\<close>), \<^verbatim>\<open>AgentConfig\<close>
    (\<^verbatim>\<open>agent/config/\<close>); \<^verbatim>\<open>ConfigSources\<close> has what both configurations share: flags, environment,
    durations and JSON fields.
  \<^item> Programs and tools: \<^verbatim>\<open>Commands\<close> (\<^verbatim>\<open>cmd/agent\<close>, \<^verbatim>\<open>cmd/server\<close>, \<^verbatim>\<open>buildinfo/\<close>, \<^verbatim>\<open>logger/\<close>,
    \<^verbatim>\<open>server/migrations/\<close>), \<^verbatim>\<open>ResetGen\<close> (\<^verbatim>\<open>cmd/reset\<close>, the generator of \<^verbatim>\<open>Reset\<close> methods and the meaning of what it
    prints), \<^verbatim>\<open>ObjectPool\<close> (\<^verbatim>\<open>pkg/pool\<close>), \<^verbatim>\<open>Staticlint\<close> (\<^verbatim>\<open>cmd/staticlint\<close>).

  \<^bold>\<open>Interfaces.\<close> Components are connected by locales. \<open>metrics_storage\<close> states what every storage
  promises: a failed operation and every read leave the view alone, a successful update changes it as
  \<open>view_gauge\<close>, \<open>view_counter\<close> or \<open>view_metrics\<close> do. The in-memory storage, the PostgreSQL storage and
  the service over either one are interpretations of it; HTTP handlers (\<open>http_server\<close>) and the gRPC
  service (\<open>grpc_service\<close>) are verified against it once. The retry loop has the contracts
  \<open>logged_attempts\<close> (how often it tries) and \<open>effective_attempts\<close> (it takes effect at most once).

  \<^bold>\<open>This theory\<close> joins the two programs: the agent's sender on one side of a network, the router or the
  gRPC server on the other. It shows that a report crosses compression, encryption, signing, subnet
  guard, routing, decoding and validation and arrives as it left; that both transports have the same
  effect; and that a failing synchronous save makes the sender's retries count polls repeatedly.

  \<^bold>\<open>Conventions.\<close> Go \<^verbatim>\<open>int\<close> and \<^verbatim>\<open>int64\<close> are 64-bit words, so counters wrap as they do in Go; doubles are
  their 64 bits. Errors are values of \<open>goerr\<close>, and a panic is the outcome \<open>Panic\<close>. The order in which Go
  ranges over a map is a parameter that is only assumed to enumerate the map (\<open>fair_order\<close>). State is
  passed explicitly; a world is a storage with a file system, an audit trail or a network. Loops over
  slices are structural recursions and the retry loop recurses on the delays that are left. Only the
  JSON parser has fuel: it gets the length of its input, and \<open>json_value_complete\<close> shows that a value
  which any fuel can read is read with that. The agent's goroutines are a step relation, whose
  shutdown is proved to terminate.

  \<^bold>\<open>What is shown\<close>, besides the properties of this theory: updates are applied exactly once or not at all
  (\<^verbatim>\<open>MemStorage\<close>, \<^verbatim>\<open>PostgresStorage\<close>, \<^verbatim>\<open>HttpHandler\<close>, \<^verbatim>\<open>GrpcServer\<close>); saved metrics are restored (\<^verbatim>\<open>FileStore\<close>,
  \<^verbatim>\<open>MetricsService\<close>, \<^verbatim>\<open>ServerLifecycle\<close>); forged, foreign or malformed requests change nothing (\<^verbatim>\<open>Middleware\<close>,
  \<^verbatim>\<open>GrpcServer\<close>); polls are neither lost nor duplicated under any interleaving and shutdown ends (\<^verbatim>\<open>AgentRuntime\<close>);
  CPU gauges cover the time since the reading before (\<^verbatim>\<open>SystemPoll\<close>); a call of the client stub runs the handler
  that the server assembles (\<^verbatim>\<open>ProtoStubs\<close>); settings come from the right source (\<^verbatim>\<open>AgentConfig\<close>, \<^verbatim>\<open>ServerConfig\<close>); resources are released (\<^verbatim>\<open>ServerLifecycle\<close>,
  \<^verbatim>\<open>Commands\<close>); the generator is idempotent and its methods reset (\<^verbatim>\<open>ResetGen\<close>). Five properties state defects:
  a failing restore panics, a failing synchronous save and a late database error count twice, gauges
  that are not finite block saving, and accepted intervals overflow.

  \<^bold>\<open>Not modelled.\<close> Third-party libraries (chi, resty, gRPC, zap, gopsutil, pgx, golang-migrate, \<^verbatim>\<open>go/ast\<close> tools)
  and the ciphers, PEM and gzip formats of the standard library are parameters with the laws the code
  relies on; of the generated protobuf code the descriptors, reflection and wire format, the mocks of
  the tests and timing beyond the order of events are left out.
\<close>

section \<open>From the agent to the server\<close>

text \<open>
  The network between the HTTP sender and the router: a posted request reaches the router with the
  headers and the body the sender gave it, the status of the response comes back, and a panic of the
  server closes the connection.
\<close>

definition server_request :: "string \<Rightarrow> int64 \<Rightarrow> client_request \<Rightarrow> http_request" where
  "server_request remote now cr =
     \<lparr>rq_method = ''POST'', rq_uri = ''/updates'', rq_header = cr_header cr, rq_body = Some (cr_body cr, None),
      rq_remote = remote, rq_params = (\<lambda>_. []), rq_ctx = None, rq_now = now\<rparr>"

record peer =
  peer_remote :: string
  peer_now :: int64
  peer_addrs :: "goerr + iface_addr list"
  peer_rand :: "nat \<Rightarrow> goerr + bytes"

definition router_io :: "peer \<Rightarrow> 'w http_handler \<Rightarrow> 'w agent_io" where
  "router_io p h =
     \<lparr>io_post = (\<lambda>rq w. case respond h (server_request (peer_remote p) (peer_now p) rq) w of
          (Return rs, w') \<Rightarrow> (Inr (rs_status rs), w')
        | (Panic m, w') \<Rightarrow> (Inl (NetError ''EOF''), w')),
      io_update = (\<lambda>md rq w. (Some (StatusError Unimplemented []), w)),
      io_wait = (\<lambda>d w. (TimerC, w)), io_addrs = (\<lambda>w. peer_addrs p), io_rand = (\<lambda>k w. peer_rand p k)\<rparr>"

lemma router_io_sel [simp]:
  "io_post (router_io p h) rq w =
     (case respond h (server_request (peer_remote p) (peer_now p) rq) w of
          (Return rs, w') \<Rightarrow> (Inr (rs_status rs), w')
        | (Panic m, w') \<Rightarrow> (Inl (NetError ''EOF''), w'))"
  "io_wait (router_io p h) d w = (TimerC, w)" "io_addrs (router_io p h) w = peer_addrs p"
  "io_rand (router_io p h) k w = peer_rand p k"
  by (simp_all add: router_io_def)






subsection \<open>One request through the stack\<close>

lemma CalcHash_no_key [simp]: "CalcHash body [] = []"
  by (simp add: CalcHash_def)














subsection \<open>One call of the sender\<close>






subsection \<open>The same over gRPC\<close>

text \<open>
  The network between the gRPC sender and the server: a call reaches the assembled handler chain with
  the metadata and the message of the client (names that are not UTF-8 would not be encoded, which
  \<open>sendable\<close> excludes), and its status comes back.
\<close>

definition rpc_io :: "peer \<Rightarrow> ('w, 'cred) grpc_server \<Rightarrow> 'w agent_io" where
  "rpc_io p srv =
     \<lparr>io_post = (\<lambda>rq w. (Inl (NetError ''EOF''), w)),
      io_update = (\<lambda>md rq w.
        case gs_handler srv \<lparr>gc_md = Some md, gc_ctx = None, gc_now = peer_now p\<rparr> (Some rq) w of
          (Return e, w') \<Rightarrow> (e, w')
        | (Panic m, w') \<Rightarrow> (Some (StatusError Unavailable ''EOF''), w')),
      io_wait = (\<lambda>d w. (TimerC, w)), io_addrs = (\<lambda>w. peer_addrs p), io_rand = (\<lambda>k w. peer_rand p k)\<rparr>"

lemma rpc_io_sel [simp]:
  "io_update (rpc_io p srv) md rq w =
     (case gs_handler srv \<lparr>gc_md = Some md, gc_ctx = None, gc_now = peer_now p\<rparr> (Some rq) w of
          (Return e, w') \<Rightarrow> (e, w')
        | (Panic m, w') \<Rightarrow> (Some (StatusError Unavailable ''EOF''), w'))"
  "io_addrs (rpc_io p srv) w = peer_addrs p"
  by (simp_all add: rpc_io_def)

text \<open>This network is the client stub over a connection that gRPC serves with the registered service and its interceptors.\<close>

lemma rpc_io_stub:
  assumes "newGRPCServer tls svc aud subnet cert key l = Inr srv"
  shows "io_update (rpc_io p srv) md rq w =
    (case metricsClient_UpdateMetrics
       (serving_conn (\<lambda>w md. \<lparr>gc_md = Some md, gc_ctx = None, gc_now = peer_now p\<rparr>)
         (RegisterMetricsServer [] (GrpcServer_UpdateMetrics (server_transport svc aud l))) (server_interceptors l subnet)
         (\<lambda>_. StatusError Unavailable ''EOF'')) md rq w of
       (Inl err, w') \<Rightarrow> (Some err, w')
     | (Inr _, w') \<Rightarrow> (None, w'))"
  using stub_reaches_handler [OF assms]
  by (auto simp: metricsClient_UpdateMetrics_def serving_conn_def split: outcome.splits option.splits prod.splits)

text \<open>A metric as the agent and the conversion make it: named, with the value of its own type only.\<close>

definition plain_metric :: "Metrics \<Rightarrow> bool" where
  "plain_metric m \<longleftrightarrow>
     ID m \<noteq> [] \<and> complete_metric m \<and> Hash m = [] \<and> (if MType m = Gauge then Delta m = None else Value m = None)"

lemma metricToProto_back:
  assumes "plain_metric m"
  shows "\<exists>p. metricToProto m = Inr p \<and> metricFromProto (Some p) = Inr m"
proof -
  consider i v where "m = gauge_metric i v" "i \<noteq> []" | i d where "m = counter_metric i d" "i \<noteq> []"
    using assms by (cases m)
      (auto simp: plain_metric_def complete_metric_def gauge_metric_def counter_metric_def zero_Metrics_def)
  then show ?thesis
    by cases (auto simp: metricToProto_def metricFromProto_def Metric_GAUGE_def Metric_COUNTER_def)
qed

lemma request_loop_back:
  "list_all plain_metric ms \<Longrightarrow> \<exists>rq. request_loop i ms = Inr rq \<and> (\<forall>j. fromProto_loop j rq = Inr ms)"
proof (induction ms arbitrary: i)
  case (Cons m ms)
  obtain p where "metricToProto m = Inr p" "metricFromProto (Some p) = Inr m"
    using metricToProto_back Cons.prems by auto
  moreover obtain rq where "request_loop (Suc i) ms = Inr rq" "\<forall>j. fromProto_loop j rq = Inr ms"
    using Cons.IH [of "Suc i"] Cons.prems by auto
  ultimately show ?case by auto
qed simp

lemma request_back:
  assumes "list_all plain_metric ms"
  obtains rq where "requestFromMetrics ms = Inr rq" "metricsFromProto (Some rq) = Inr ms"
  using request_loop_back [OF assms, of 0] that by (auto simp: requestFromMetrics_def metricsFromProto_def)





subsection \<open>A failing save\<close>



subsection \<open>The final report\<close>







section \<open>Properties that span components\<close>












text \<open>
  C27: The conversion to messages and back loses nothing: every batch of named metrics that carry the
  value of their own type is accepted by the sender's conversion, and the server's conversion of the
  resulting request gives the batch back, NaN and infinite gauges and names of any bytes included.
\<close>

theorem proto_roundtrip:
  assumes "list_all plain_metric ms"
  shows "\<exists>rq. requestFromMetrics ms = Inr rq \<and> metricsFromProto (Some rq) = Inr ms"
  by (rule request_back [OF assms]) blast

theorem proto_roundtrip_witness:
  "\<exists>rq. requestFromMetrics [gauge_metric ''g'' float_NaN, counter_metric ''c'' (- 1)] = Inr rq \<and>
     metricsFromProto (Some rq) = Inr [gauge_metric ''g'' float_NaN, counter_metric ''c'' (- 1)]"
  by (rule proto_roundtrip) (simp add: plain_metric_def gauge_metric_def counter_metric_def zero_Metrics_def complete_metric_def)




end
